theory Spec2Isabelle
  imports Main "HOL-Library.Word"
begin

unbundle bit_operations_syntax

section \<open>Data model of the instance and type bridge (nb\_internals.h)\<close>

text \<open>
  Addresses (\<^verbatim>\<open>void *\<close>, \<^verbatim>\<open>PyObject *\<close>, \<^verbatim>\<open>PyTypeObject *\<close>, \<^verbatim>\<open>uintptr_t\<close>,
  \<^verbatim>\<open>intptr_t\<close>) are 64-bit words; the null pointer is 0. A \<^verbatim>\<open>std::type_info\<close> is
  identified by a natural number (one object per native type, so that pointer equality and
  value equality of type\_info coincide).
\<close>

type_synonym ptr = "64 word"
type_synonym type_info = nat

text \<open>\<^verbatim>\<open>struct nb_inst\<close> without the object header: the 32-bit offset and the six flag bits.\<close>

record nb_inst =
  offset :: "32 word"
  direct :: bool
  internal :: bool
  ready :: bool
  destruct :: bool
  cpp_delete :: bool
  clear_keep_alive :: bool

text \<open>\<^verbatim>\<open>memset(self, 0, sizeof(nb_inst))\<close>: every field zero.\<close>

definition zero_inst :: nb_inst where
  "zero_inst = \<lparr>offset = 0, direct = False, internal = False, ready = False,
                 destruct = False, cpp_delete = False, clear_keep_alive = False\<rparr>"

text \<open>\<^verbatim>\<open>sizeof(nb_inst)\<close> is \<^verbatim>\<open>sizeof(PyObject) + sizeof(void *)\<close> (the static assertion of
  nb\_internals.h), 24 bytes on the 64-bit targets modelled here.\<close>

definition sizeof_nb_inst :: ptr where
  "sizeof_nb_inst = 24"

definition sizeof_ptr :: ptr where
  "sizeof_ptr = 8"

text \<open>
  \<^verbatim>\<open>struct nb_inst_seq { PyObject *inst; nb_inst_seq *next; }\<close>: a node always carries an
  instance, \<^verbatim>\<open>next\<close> (here nxt) may be null. The value stored in \<^verbatim>\<open>inst_c2p\<close> is a tagged pointer:
  bit 0 clear is a direct wrapper pointer, bit 0 set is a pointer to the first node.
\<close>

datatype nb_inst_seq = Node (inst: ptr) (nxt: "nb_inst_seq option")

datatype entry = Direct ptr | Seq nb_inst_seq

definition nb_is_seq :: "entry \<Rightarrow> bool" where
  "nb_is_seq e = (case e of Direct _ \<Rightarrow> False | Seq _ \<Rightarrow> True)"

text \<open>The wrappers of a collision list, in list order.\<close>

fun seq_insts :: "nb_inst_seq \<Rightarrow> ptr list" where
  "seq_insts (Node i None) = [i]"
| "seq_insts (Node i (Some n)) = i # seq_insts n"

definition entry_insts :: "entry \<Rightarrow> ptr list" where
  "entry_insts e = (case e of Direct i \<Rightarrow> [i] | Seq s \<Rightarrow> seq_insts s)"

text \<open>\<^verbatim>\<open>struct nb_weakref_seq { callback; payload; next }\<close>: one keep-alive edge. A list of
  edges is the chain of \<^verbatim>\<open>next\<close> pointers; the empty list is the null pointer. A null
  callback is 0.\<close>

record nb_weakref_seq =
  callback :: ptr
  payload :: ptr

text \<open>Modelled from the spec: the \<^verbatim>\<open>type_flags\<close> and \<^verbatim>\<open>rv_policy\<close> enumerations and
  \<^verbatim>\<open>struct type_data\<close> are declared in a header that is not part of the sources at hand;
  the flags are the ones nb\_type.cpp tests, the policies the six of the design
  (copy, move, reference, reference\_internal, take\_ownership, none), the fields the ones
  nb\_type.cpp reads.\<close>

datatype type_flags =
    is_destructible | has_destruct
  | is_copy_constructible | has_copy
  | is_move_constructible | has_move
  | has_dynamic_attr | intrusive_ptr | has_shared_from_this
  | has_implicit_conversions | is_python_type | is_final

datatype rv_policy =
    rv_take_ownership | rv_copy | rv_move | rv_reference | rv_reference_internal | rv_none

text \<open>The function pointers \<^verbatim>\<open>t->copy\<close> and \<^verbatim>\<open>t->move\<close> are given by whether the call
  returns normally (True) or throws (False); an entry of \<^verbatim>\<open>implicit_py\<close> is the predicate
  on (destination type object, source object).\<close>

record type_data =
  t_size :: nat
  t_align :: nat
  t_flags :: "type_flags set"
  t_name :: string
  t_type :: "type_info option"
  t_type_py :: ptr
  t_implicit :: "type_info list option"
  t_implicit_py :: "(ptr \<Rightarrow> ptr \<Rightarrow> bool) list option"
  t_copy :: "ptr \<Rightarrow> ptr \<Rightarrow> bool"
  t_move :: "ptr \<Rightarrow> ptr \<Rightarrow> bool"
  t_keep_shared_from_this_alive :: "ptr \<Rightarrow> bool"

text \<open>What the bridge does to the outside (the host runtime and native code), in the order
  it does it.\<close>

datatype event =
    PyObject_GC_UnTrack ptr
  | Py_CLEAR_dict ptr
  | Call_destruct ptr ptr
  | Operator_delete ptr
  | Operator_delete_aligned ptr nat
  | Keep_alive_erase ptr
  | Call_callback ptr ptr
  | Py_DECREF ptr
  | Free_weakref_seq ptr
  | Inst_c2p_erase ptr ptr
  | Free_object ptr
  | Call_move ptr ptr ptr
  | Call_copy ptr ptr ptr
  | Memcpy ptr ptr nat
  | Memset_zero ptr nat
  | Set_self_py ptr ptr
  | PyErr_NoMemory
  | PyErr_Warn string
  | PyErr_Clear
  | Cleanup_append ptr
  | Leak_weakref ptr ptr
  | Print_warning string

text \<open>Failures. A failed \<^verbatim>\<open>check(cond, msg, name)\<close> aborts the process. The macro has two
  expansions (\<^verbatim>\<open>nb_internals.h\<close>): \<^verbatim>\<open>fail(msg, name)\<close>, which reports the message formatted
  with the name (Fatal), and, in a library compiled with \<^verbatim>\<open>NB_COMPACT_ASSERTIONS\<close>,
  \<^verbatim>\<open>fail_unspecified()\<close>, which takes no argument and so reports neither
  (Fail\_unspecified). \<^verbatim>\<open>throw next_overload()\<close> and \<^verbatim>\<open>raise(...)\<close> are C++ exceptions the
  caller can catch, Undefined is what C++ leaves undefined (a null pointer dereferenced, a
  division by zero).\<close>

datatype error =
    Fatal string string
  | Fail_unspecified
  | Next_overload
  | Raise string
  | Undefined

text \<open>The macro \<^verbatim>\<open>check\<close> at a condition that does not hold, in either build. The checks
  of \<^verbatim>\<open>nb_type_put_common\<close> are given with it; every other failed check below is given as
  the build without \<^verbatim>\<open>NB_COMPACT_ASSERTIONS\<close> expands it, by Fatal with its message.\<close>

definition check_failed :: "bool \<Rightarrow> string \<Rightarrow> string \<Rightarrow> error" where
  "check_failed compact msg name = (if compact then Fail_unspecified else Fatal msg name)"

text \<open>The process-wide state: the object headers (reference count, type), the wrapper
  fields, the pointer-sized memory cells written behind a wrapper, the type records
  (\<^verbatim>\<open>nb_type_data(tp)\<close>), the host runtime's type tests, and \<^verbatim>\<open>nb_internals\<close>
  (\<^verbatim>\<open>inst_c2p\<close>, \<^verbatim>\<open>type_c2p\<close>, \<^verbatim>\<open>keep_alive\<close>, \<^verbatim>\<open>nb_meta\<close>,
  \<^verbatim>\<open>print_implicit_cast_warnings\<close>). With it, the build of the library: whether it was
  compiled with \<^verbatim>\<open>NB_COMPACT_ASSERTIONS\<close>, which no operation changes.\<close>

record world =
  ob_refcnt :: "ptr \<Rightarrow> int"
  ob_type :: "ptr \<Rightarrow> ptr"
  insts :: "ptr \<Rightarrow> nb_inst"
  cells :: "ptr \<Rightarrow> ptr"
  nb_type_data :: "ptr \<Rightarrow> type_data"
  has_gc :: "ptr \<Rightarrow> bool"
  PyType_IsSubtype :: "ptr \<Rightarrow> ptr \<Rightarrow> bool"
  Py_None :: ptr
  nb_meta :: ptr
  inst_c2p :: "ptr \<rightharpoonup> entry"
  type_c2p :: "type_info \<rightharpoonup> ptr"
  internals_keep_alive :: "ptr \<rightharpoonup> nb_weakref_seq list"
  print_implicit_cast_warnings :: bool
  NB_COMPACT_ASSERTIONS :: bool
  trace :: "event list"

text \<open>What the allocators and the host runtime answer during one call: the address returned
  by \<^verbatim>\<open>PyObject_Malloc\<close> or \<^verbatim>\<open>PyType_GenericAlloc\<close> for the wrapper and by
  \<^verbatim>\<open>PyObject_Realloc\<close> (0 when out of memory), whether the allocation of a list node
  succeeds, and the objects returned by \<^verbatim>\<open>PyCFunction_New\<close>, \<^verbatim>\<open>PyWeakref_NewRef\<close>
  and \<^verbatim>\<open>capsule_new\<close>.\<close>

record env =
  env_malloc :: ptr
  env_realloc :: ptr
  env_node_malloc :: ptr
  env_cfunction :: ptr
  env_weakref :: ptr
  env_capsule :: ptr

definition emit :: "event \<Rightarrow> world \<Rightarrow> world" where
  "emit e w = w\<lparr>trace := trace w @ [e]\<rparr>"

definition incref :: "ptr \<Rightarrow> world \<Rightarrow> world" where
  "incref p w = w\<lparr>ob_refcnt := (ob_refcnt w)(p := ob_refcnt w p + 1)\<rparr>"

text \<open>\<^verbatim>\<open>Py_DECREF\<close> of an object that is not a wrapper under deallocation here: the count
  goes down and the call is recorded; what the host runtime does when it reaches zero is
  the host runtime's.\<close>

definition decref :: "ptr \<Rightarrow> world \<Rightarrow> world" where
  "decref p w = emit (Py_DECREF p) (w\<lparr>ob_refcnt := (ob_refcnt w)(p := ob_refcnt w p - 1)\<rparr>)"

definition nb_type_check :: "world \<Rightarrow> ptr \<Rightarrow> bool" where
  "nb_type_check w t = (ob_type w (ob_type w t) = nb_meta w)"

section \<open>Payload address (inst\_ptr, nb\_internals.h)\<close>

definition inst_ptr :: "world \<Rightarrow> ptr \<Rightarrow> ptr" where
  "inst_ptr w self =
     (let p = self + scast (offset (insts w self))
      in if direct (insts w self) then p else cells w p)"

section \<open>Wrapper allocation (inst\_new\_impl)\<close>

text \<open>The update of \<^verbatim>\<open>inst_c2p\<close> at the end of \<^verbatim>\<open>inst_new_impl\<close>. The loop walks the
  collision list to its last node, checking every node against the new wrapper, and
  appends a node.\<close>

fun seq_append :: "ptr \<Rightarrow> nb_inst_seq \<Rightarrow> error + nb_inst_seq" where
  "seq_append self (Node i None) =
     (if i = self then Inl (Fatal ''inst_new(): duplicate instance!'' [])
      else Inr (Node i (Some (Node self None))))"
| "seq_append self (Node i (Some n)) =
     (if i = self then Inl (Fatal ''inst_new(): duplicate instance!'' [])
      else (case seq_append self n of
              Inl e \<Rightarrow> Inl e
            | Inr n' \<Rightarrow> Inr (Node i (Some n'))))"

text \<open>The node that is appended is allocated after the walk; an entry that is still a direct
  pointer is first turned into a list of one node, allocated before the walk.\<close>

definition seq_append_alloc :: "env \<Rightarrow> ptr \<Rightarrow> nb_inst_seq \<Rightarrow> error + nb_inst_seq" where
  "seq_append_alloc e self s =
     (case seq_append self s of
        Inl err \<Rightarrow> Inl err
      | Inr s' \<Rightarrow>
          if env_node_malloc e = 0
          then Inl (Fatal ''inst_new(): list element allocation failed!'' [])
          else Inr s')"

definition inst_c2p_insert ::
  "env \<Rightarrow> (ptr \<rightharpoonup> entry) \<Rightarrow> ptr \<Rightarrow> ptr \<Rightarrow> error + (ptr \<rightharpoonup> entry)" where
  "inst_c2p_insert e m v self =
     (case m v of
        None \<Rightarrow> Inr (m(v \<mapsto> Direct self))
      | Some en \<Rightarrow>
          (case (case en of
                   Direct i \<Rightarrow>
                     if env_node_malloc e = 0
                     then Inl (Fatal ''inst_new(): list element allocation failed!'' [])
                     else seq_append_alloc e self (Node i None)
                 | Seq s \<Rightarrow> seq_append_alloc e self s) of
             Inl err \<Rightarrow> Inl err
           | Inr s' \<Rightarrow> Inr (m(v \<mapsto> Seq s'))))"

text \<open>\<^verbatim>\<open>memset\<close> and \<^verbatim>\<open>PyObject_Init\<close> (or \<^verbatim>\<open>PyType_GenericAlloc\<close>): a zeroed wrapper of
  type tp with one reference, which holds a reference to its type.\<close>

definition init_object :: "world \<Rightarrow> ptr \<Rightarrow> ptr \<Rightarrow> world" where
  "init_object w tp self =
     w\<lparr>insts := (insts w)(self := zero_inst),
       ob_type := (ob_type w)(self := tp),
       ob_refcnt := (ob_refcnt w)(tp := ob_refcnt w tp + 1, self := 1)\<rparr>"

text \<open>\<^verbatim>\<open>PyObject_Realloc\<close>: the object's bytes are at the new address.\<close>

definition move_object :: "world \<Rightarrow> ptr \<Rightarrow> ptr \<Rightarrow> world" where
  "move_object w self self_2 =
     w\<lparr>insts := (insts w)(self_2 := insts w self),
       ob_type := (ob_type w)(self_2 := ob_type w self),
       ob_refcnt := (ob_refcnt w)(self_2 := ob_refcnt w self)\<rparr>"

text \<open>Internal storage: the payload is at the first address after the header that is a
  multiple of the alignment (unsigned 64-bit arithmetic), the offset is the truncation of
  the distance to 32 bits.\<close>

definition aligned_payload :: "ptr \<Rightarrow> ptr \<Rightarrow> ptr" where
  "aligned_payload self align = (self + sizeof_nb_inst + align - 1) div align * align"

definition set_internal :: "world \<Rightarrow> ptr \<Rightarrow> ptr \<Rightarrow> world" where
  "set_internal w self pl =
     w\<lparr>insts := (insts w)(self := (insts w self)
          \<lparr>offset := ucast (pl - self), direct := True, internal := True\<rparr>)\<rparr>"

text \<open>External storage: the offset if it is representable in 32 bits, else a pointer in the
  word after the header (for a type without garbage-collection support the wrapper is
  reallocated to make room for it). The result is the state and the wrapper's address,
  or nothing when the reallocation failed.\<close>

definition set_external :: "env \<Rightarrow> world \<Rightarrow> bool \<Rightarrow> ptr \<Rightarrow> ptr \<Rightarrow> (world \<times> ptr) option" where
  "set_external e w gc self v =
     (let off = (ucast (v - self) :: 32 word)
      in if self + scast off = v
         then Some (w\<lparr>insts := (insts w)(self := (insts w self)
                        \<lparr>offset := off, direct := True, internal := False\<rparr>)\<rparr>, self)
         else if \<not> gc \<and> env_realloc e = 0
         then None
         else (let self' = (if gc then self else env_realloc e);
                   w1 = (if gc then w else move_object w self self')
               in Some (w1\<lparr>cells := (cells w1)(self' + sizeof_nb_inst := v),
                           insts := (insts w1)(self' := (insts w1 self')
                             \<lparr>offset := ucast sizeof_nb_inst, direct := False,
                              internal := False\<rparr>)\<rparr>, self')))"

text \<open>\<^verbatim>\<open>inst_new_impl(tp, value)\<close>; the result is the new state and the wrapper, or the null
  pointer with \<^verbatim>\<open>PyErr_NoMemory\<close>. A failed \<^verbatim>\<open>PyType_GenericAlloc\<close> is not checked by the
  source and its result is written to; an alignment of zero is divided by.\<close>

definition inst_new_impl :: "env \<Rightarrow> world \<Rightarrow> ptr \<Rightarrow> ptr \<Rightarrow> error + (world \<times> ptr)" where
  "inst_new_impl e w tp v =
     (let gc = has_gc w tp;
          t = nb_type_data w tp;
          align = (of_nat (t_align t) :: ptr);
          self = env_malloc e
      in if self = 0
         then (if gc then Inl Undefined else Inr (emit PyErr_NoMemory w, 0))
         else (let w1 = init_object w tp self
               in if v = 0
                  then (if align = 0 then Inl Undefined
                        else (let pl = aligned_payload self align;
                                  w2 = set_internal w1 self pl
                              in case inst_c2p_insert e (inst_c2p w2) pl self of
                                   Inl err \<Rightarrow> Inl err
                                 | Inr m \<Rightarrow> Inr (w2\<lparr>inst_c2p := m\<rparr>, self)))
                  else (case set_external e w1 gc self v of
                          None \<Rightarrow> Inr (emit PyErr_NoMemory (emit (Free_object self) w1), 0)
                        | Some (w2, self') \<Rightarrow>
                            (case inst_c2p_insert e (inst_c2p w2) v self' of
                               Inl err \<Rightarrow> Inl err
                             | Inr m \<Rightarrow> Inr (w2\<lparr>inst_c2p := m\<rparr>, self')))))"

section \<open>Wrapper deallocation (inst\_dealloc)\<close>

text \<open>\<^verbatim>\<open>__STDCPP_DEFAULT_NEW_ALIGNMENT__\<close>, a constant of the compiler: 16 on the 64-bit
  targets modelled here.\<close>

definition default_new_alignment :: nat where
  "default_new_alignment = 16"

text \<open>The destructor step: fatal for a type that is not destructible; the destructor
  function is called when the type has one.\<close>

definition dealloc_destruct :: "world \<Rightarrow> ptr \<Rightarrow> type_data \<Rightarrow> nb_inst \<Rightarrow> ptr \<Rightarrow> error + world" where
  "dealloc_destruct w tp t i p =
     (if destruct i
      then (if is_destructible \<notin> t_flags t
            then Inl (Fatal ''inst_dealloc(): attempted to call the destructor of a non-destructible type!'' (t_name t))
            else Inr (if has_destruct \<in> t_flags t then emit (Call_destruct tp p) w else w))
      else Inr w)"

definition dealloc_delete :: "world \<Rightarrow> type_data \<Rightarrow> nb_inst \<Rightarrow> ptr \<Rightarrow> world" where
  "dealloc_delete w t i p =
     (if cpp_delete i
      then (if t_align t \<le> default_new_alignment
            then emit (Operator_delete p) w
            else emit (Operator_delete_aligned p (t_align t)) w)
      else w)"

text \<open>The \<^verbatim>\<open>do ... while (s)\<close> loop over the keep-alive list: the callback of each node is
  called, or the patient's reference released when the node has none, and the node is
  freed. The loop body reads its node before testing it, so a null list is dereferenced.\<close>

definition release_node :: "nb_weakref_seq \<Rightarrow> world \<Rightarrow> world" where
  "release_node c w =
     emit (Free_weakref_seq (payload c))
       (if callback c \<noteq> 0 then emit (Call_callback (callback c) (payload c)) w
        else decref (payload c) w)"

fun release_all :: "nb_weakref_seq list \<Rightarrow> world \<Rightarrow> world" where
  "release_all [] w = w"
| "release_all (c # s) w = release_all s (release_node c w)"

definition dealloc_keep_alive :: "world \<Rightarrow> ptr \<Rightarrow> type_data \<Rightarrow> nb_inst \<Rightarrow> error + world" where
  "dealloc_keep_alive w self t i =
     (if clear_keep_alive i
      then (case internals_keep_alive w self of
              None \<Rightarrow> Inl (Fatal ''inst_dealloc(): inconsistent keep_alive information'' (t_name t))
            | Some s \<Rightarrow>
                if s = [] then Inl Undefined
                else Inr (release_all s
                       (emit (Keep_alive_erase self)
                          (w\<lparr>internals_keep_alive := (internals_keep_alive w)(self := None)\<rparr>))))
      else Inr w)"

text \<open>The removal from \<^verbatim>\<open>inst_c2p\<close>. In a collision list the loop keeps the predecessor
  of the node it looks at: \<open>unlink_after\<close> is the loop from the second node on (the
  predecessor is the node given), \<open>seq_remove\<close> the first iteration. The result is the
  new map value (nothing when the entry is erased), or nothing at all when the wrapper was
  not found.\<close>

fun unlink_after :: "ptr \<Rightarrow> nb_inst_seq \<Rightarrow> nb_inst_seq option" where
  "unlink_after x (Node i None) = None"
| "unlink_after x (Node i (Some (Node j n))) =
     (if j = x then Some (Node i n)
      else (case unlink_after x (Node j n) of
              None \<Rightarrow> None
            | Some s \<Rightarrow> Some (Node i (Some s))))"

definition seq_remove :: "ptr \<Rightarrow> nb_inst_seq \<Rightarrow> entry option option" where
  "seq_remove x s =
     (if inst s = x
      then (case nxt s of Some n \<Rightarrow> Some (Some (Seq n)) | None \<Rightarrow> Some None)
      else (case unlink_after x s of
              None \<Rightarrow> None
            | Some s' \<Rightarrow> Some (Some (Seq s'))))"

definition inst_c2p_remove :: "(ptr \<rightharpoonup> entry) \<Rightarrow> ptr \<Rightarrow> ptr \<Rightarrow> (ptr \<rightharpoonup> entry) option" where
  "inst_c2p_remove m p x =
     (case m p of
        None \<Rightarrow> None
      | Some (Direct i) \<Rightarrow> if i = x then Some (m(p := None)) else None
      | Some (Seq s) \<Rightarrow>
          (case seq_remove x s of
             None \<Rightarrow> None
           | Some en \<Rightarrow> Some (m(p := en))))"

definition dealloc_c2p :: "world \<Rightarrow> ptr \<Rightarrow> type_data \<Rightarrow> ptr \<Rightarrow> error + world" where
  "dealloc_c2p w self t p =
     (case inst_c2p_remove (inst_c2p w) p self of
        None \<Rightarrow> Inl (Fatal ''inst_dealloc(): attempted to delete an unknown instance!'' (t_name t))
      | Some m \<Rightarrow> Inr (emit (Inst_c2p_erase p self) (w\<lparr>inst_c2p := m\<rparr>)))"

text \<open>\<^verbatim>\<open>inst_dealloc(self)\<close>. The payload address is read once, before the destructor
  runs. Destructors and callbacks are calls to the outside: the model records them and
  does not follow what they do to the state.\<close>

definition inst_dealloc :: "world \<Rightarrow> ptr \<Rightarrow> error + world" where
  "inst_dealloc w self =
     (let tp = ob_type w self;
          t = nb_type_data w tp;
          gc = has_gc w tp;
          w1 = (if gc then emit (PyObject_GC_UnTrack self) w else w);
          w2 = (if has_dynamic_attr \<in> t_flags t then emit (Py_CLEAR_dict self) w1 else w1);
          i = insts w2 self;
          p = inst_ptr w2 self
      in case dealloc_destruct w2 tp t i p of
           Inl err \<Rightarrow> Inl err
         | Inr w3 \<Rightarrow>
             (case dealloc_keep_alive (dealloc_delete w3 t i p) self t i of
                Inl err \<Rightarrow> Inl err
              | Inr w5 \<Rightarrow>
                  (case dealloc_c2p w5 self t p of
                     Inl err \<Rightarrow> Inl err
                   | Inr w6 \<Rightarrow> Inr (decref tp (emit (Free_object self) w6)))))"

section \<open>Keep-alive edges (keep\_alive)\<close>

text \<open>The search loop of \<^verbatim>\<open>keep_alive(nurse, patient)\<close>: is there a node for this patient
  that has no callback?\<close>

fun keep_alive_find :: "ptr \<Rightarrow> nb_weakref_seq list \<Rightarrow> bool" where
  "keep_alive_find patient [] = False"
| "keep_alive_find patient (p # ps) =
     (if payload p = patient \<and> callback p = 0 then True else keep_alive_find patient ps)"

text \<open>\<^verbatim>\<open>internals.keep_alive[nurse]\<close>: the subscript creates a null entry when there is none.\<close>

definition keep_alive_slot :: "world \<Rightarrow> ptr \<Rightarrow> nb_weakref_seq list" where
  "keep_alive_slot w nurse = (case internals_keep_alive w nurse of None \<Rightarrow> [] | Some s \<Rightarrow> s)"

definition set_keep_alive :: "world \<Rightarrow> ptr \<Rightarrow> nb_weakref_seq list \<Rightarrow> world" where
  "set_keep_alive w nurse s = w\<lparr>internals_keep_alive := (internals_keep_alive w)(nurse \<mapsto> s)\<rparr>"

definition mark_clear_keep_alive :: "world \<Rightarrow> ptr \<Rightarrow> world" where
  "mark_clear_keep_alive w nurse =
     w\<lparr>insts := (insts w)(nurse := (insts w nurse)\<lparr>clear_keep_alive := True\<rparr>)\<rparr>"

text \<open>\<^verbatim>\<open>keep_alive(PyObject *nurse, PyObject *patient)\<close>. For a nurse that is a wrapper the
  new node goes to the end of the list; for any other nurse a weak reference with a
  callback is created and leaked: the callback object made by \<^verbatim>\<open>PyCFunction_New\<close> keeps
  a reference to the patient, its self argument, and \<^verbatim>\<open>Py_INCREF(patient)\<close> adds a
  second one.\<close>

definition keep_alive :: "env \<Rightarrow> world \<Rightarrow> ptr \<Rightarrow> ptr \<Rightarrow> error + world" where
  "keep_alive e w nurse patient =
     (if patient = 0 \<or> nurse = 0 \<or> nurse = Py_None w \<or> patient = Py_None w then Inr w
      else if nb_type_check w (ob_type w nurse)
      then (let s = keep_alive_slot w nurse;
                w1 = set_keep_alive w nurse s
            in if keep_alive_find patient s then Inr w1
               else if env_node_malloc e = 0
               then Inl (Fatal ''keep_alive(): out of memory!'' [])
               else Inr (mark_clear_keep_alive
                      (incref patient
                         (set_keep_alive w1 nurse (s @ [\<lparr>callback = 0, payload = patient\<rparr>])))
                      nurse))
      else if env_weakref e = 0
      then (if env_cfunction e = 0 then Inl Undefined
            else Inl (Raise ''keep_alive(): could not create a weak reference!''))
      else if env_cfunction e = 0
      then Inl (Fatal ''keep_alive(): callback creation failed!'' [])
      else Inr (decref (env_cfunction e)
             (incref patient (emit (Leak_weakref (env_weakref e) nurse) (incref patient w)))))"

text \<open>\<^verbatim>\<open>keep_alive(PyObject *nurse, void *payload, void (*callback)(void *))\<close>. For a nurse
  that is a wrapper the new node goes to the front of the list; for any other nurse the
  payload is put into a capsule, which becomes the patient.\<close>

definition keep_alive_cb :: "env \<Rightarrow> world \<Rightarrow> ptr \<Rightarrow> ptr \<Rightarrow> ptr \<Rightarrow> error + world" where
  "keep_alive_cb e w nurse pl cb =
     (if nurse = 0 then Inl (Fatal ''keep_alive(): nurse is undefined!'' [])
      else if nb_type_check w (ob_type w nurse)
      then (let s = keep_alive_slot w nurse;
                w1 = set_keep_alive w nurse s
            in if env_node_malloc e = 0
               then Inl (Fatal ''keep_alive(): out of memory!'' [])
               else Inr (mark_clear_keep_alive
                      (set_keep_alive w1 nurse (\<lparr>callback = cb, payload = pl\<rparr> # s)) nurse))
      else (let patient = env_capsule e
            in if patient = 0 then Inl Undefined
               else (case keep_alive e (w\<lparr>ob_refcnt := (ob_refcnt w)(patient := 1)\<rparr>) nurse patient of
                       Inl err \<Rightarrow> Inl err
                     | Inr w1 \<Rightarrow> Inr (decref patient w1))))"

section \<open>Return-value policies (nb\_type\_put\_common, nb\_type\_put)\<close>

text \<open>\<^verbatim>\<open>Py_DECREF(inst)\<close> of a wrapper: when the count reaches zero the wrapper is
  deallocated.\<close>

definition release_inst :: "world \<Rightarrow> ptr \<Rightarrow> error + world" where
  "release_inst w i =
     (let w1 = w\<lparr>ob_refcnt := (ob_refcnt w)(i := ob_refcnt w i - 1)\<rparr>
      in if ob_refcnt w1 i = 0 then inst_dealloc w1 i else Inr w1)"

text \<open>The outcome of the construction of the payload: the state and the policy in force
  afterwards, or the state after the constructor threw and the wrapper was released.\<close>

datatype ctor_result = Constructed world rv_policy | Threw world

definition put_move :: "world \<Rightarrow> ptr \<Rightarrow> ptr \<Rightarrow> ptr \<Rightarrow> ptr \<Rightarrow> error + ctor_result" where
  "put_move w td inst' new_value v =
     (let t = nb_type_data w td
      in if is_move_constructible \<in> t_flags t
         then (if has_move \<in> t_flags t
               then (if t_move t new_value v
                     then Inr (Constructed (emit (Call_move td new_value v) w) rv_move)
                     else (case release_inst (emit (Call_move td new_value v) w) inst' of
                             Inl err \<Rightarrow> Inl err
                           | Inr w1 \<Rightarrow> Inr (Threw w1)))
               else Inr (Constructed
                      (emit (Memset_zero v (t_size t)) (emit (Memcpy new_value v (t_size t)) w))
                      rv_move))
         else if is_copy_constructible \<notin> t_flags t
         then Inl (check_failed (NB_COMPACT_ASSERTIONS w)
                ''nb_type_put(): attempted to move an instance that is neither copy- nor move-constructible!''
                (t_name t))
         else Inr (Constructed w rv_copy))"

definition put_copy :: "world \<Rightarrow> ptr \<Rightarrow> ptr \<Rightarrow> ptr \<Rightarrow> ptr \<Rightarrow> error + ctor_result" where
  "put_copy w td inst' new_value v =
     (let t = nb_type_data w td
      in if is_copy_constructible \<notin> t_flags t
         then Inl (check_failed (NB_COMPACT_ASSERTIONS w)
                ''nb_type_put(): attempted to copy an instance that is not copy-constructible!''
                (t_name t))
         else if has_copy \<in> t_flags t
         then (if t_copy t new_value v
               then Inr (Constructed (emit (Call_copy td new_value v) w) rv_copy)
               else (case release_inst (emit (Call_copy td new_value v) w) inst' of
                       Inl err \<Rightarrow> Inl err
                     | Inr w1 \<Rightarrow> Inr (Threw w1)))
         else Inr (Constructed (emit (Memcpy new_value v (t_size t)) w) rv_copy))"

text \<open>The two construction steps in sequence: the move step when the policy is move, then
  the copy step when the policy is (or has become) copy.\<close>

definition put_construct ::
  "world \<Rightarrow> ptr \<Rightarrow> rv_policy \<Rightarrow> ptr \<Rightarrow> ptr \<Rightarrow> ptr \<Rightarrow> error + ctor_result" where
  "put_construct w td rvp inst' new_value v =
     (case (if rvp = rv_move then put_move w td inst' new_value v
            else Inr (Constructed w rvp)) of
        Inl err \<Rightarrow> Inl err
      | Inr (Threw w1) \<Rightarrow> Inr (Threw w1)
      | Inr (Constructed w1 rvp1) \<Rightarrow>
          if rvp1 = rv_copy then put_copy w1 td inst' new_value v
          else Inr (Constructed w1 rvp1))"

text \<open>The end of \<^verbatim>\<open>nb_type_put_common\<close>: the shared-ownership test, the flags, the
  keep-alive edge of reference\_internal, the self pointer of an intrusive type. The cleanup
  list is given by its \<^verbatim>\<open>self()\<close>, or by nothing when the list pointer is null; the
  out-parameter \<^verbatim>\<open>is_new\<close> by its value, or by nothing when the pointer is null.\<close>

definition put_finish ::
  "env \<Rightarrow> world \<Rightarrow> ptr \<Rightarrow> rv_policy \<Rightarrow> bool \<Rightarrow> bool \<Rightarrow> ptr \<Rightarrow> ptr \<Rightarrow> ptr option \<Rightarrow> bool option
     \<Rightarrow> error + (world \<times> ptr \<times> bool option)" where
  "put_finish e w td rvp intrusive store_in_obj inst' new_value cleanup is_new =
     (let t = nb_type_data w td;
          shared = (has_shared_from_this \<in> t_flags t \<and> \<not> store_in_obj
                    \<and> t_keep_shared_from_this_alive t inst');
          rvp1 = (if shared then rv_reference else rvp);
          is_new1 = (if shared then is_new
                     else (case is_new of None \<Rightarrow> None | Some _ \<Rightarrow> Some True));
          w1 = w\<lparr>insts := (insts w)(inst' := (insts w inst')
                 \<lparr>ready := True,
                  destruct := (rvp1 \<noteq> rv_reference \<and> rvp1 \<noteq> rv_reference_internal),
                  cpp_delete := (rvp1 = rv_take_ownership)\<rparr>)\<rparr>
      in case (if rvp1 = rv_reference_internal
               then (case cleanup of
                       None \<Rightarrow> Inl Undefined
                     | Some s \<Rightarrow> keep_alive e w1 inst' s)
               else Inr w1) of
           Inl err \<Rightarrow> Inl err
         | Inr w2 \<Rightarrow>
             Inr (if intrusive then emit (Set_self_py new_value inst') w2 else w2,
                  inst', is_new1))"

definition nb_type_put_common ::
  "env \<Rightarrow> world \<Rightarrow> ptr \<Rightarrow> ptr \<Rightarrow> rv_policy \<Rightarrow> ptr option \<Rightarrow> bool option
     \<Rightarrow> error + (world \<times> ptr \<times> bool option)" where
  "nb_type_put_common e w v td rvp cleanup is_new =
     (if rvp = rv_reference_internal \<and> (cleanup = None \<or> cleanup = Some 0)
      then Inr (w, 0, is_new)
      else (let t = nb_type_data w td;
                intrusive = (intrusive_ptr \<in> t_flags t);
                rvp1 = (if intrusive then rv_take_ownership else rvp);
                store_in_obj = (rvp1 = rv_copy \<or> rvp1 = rv_move)
            in case inst_new_impl e w (t_type_py t) (if store_in_obj then 0 else v) of
                 Inl err \<Rightarrow> Inl err
               | Inr (w1, inst') \<Rightarrow>
                   if inst' = 0 then Inr (w1, 0, is_new)
                   else (case put_construct w1 td rvp1 inst' (inst_ptr w1 inst') v of
                           Inl err \<Rightarrow> Inl err
                         | Inr (Threw w2) \<Rightarrow> Inr (w2, 0, is_new)
                         | Inr (Constructed w2 rvp2) \<Rightarrow>
                             put_finish e w2 td rvp2 intrusive store_in_obj inst'
                               (inst_ptr w1 inst') cleanup is_new)))"

text \<open>The lambda \<^verbatim>\<open>lookup_type\<close> of \<^verbatim>\<open>nb_type_put\<close>: the type record found earlier, or
  the one registered for \<^verbatim>\<open>cpp_type\<close>; nothing when the type is not registered.\<close>

definition lookup_type :: "world \<Rightarrow> type_info \<Rightarrow> ptr option \<Rightarrow> ptr option" where
  "lookup_type w cpp_type td = (case td of Some t \<Rightarrow> Some t | None \<Rightarrow> type_c2p w cpp_type)"

text \<open>The loop of \<^verbatim>\<open>nb_type_put\<close> over the wrappers registered for the address: a wrapper
  is found, or the call gives up (the type is not registered), or the list is exhausted
  (with the type record looked up so far).\<close>

datatype put_search_result = Found ptr | Give_up | Exhausted "ptr option"

fun put_search :: "world \<Rightarrow> type_info \<Rightarrow> ptr option \<Rightarrow> nb_inst_seq \<Rightarrow> put_search_result" where
  "put_search w cpp_type td (Node i n) =
     (let tp = ob_type w i
      in if t_type (nb_type_data w tp) = Some cpp_type then Found i
         else (case lookup_type w cpp_type td of
                 None \<Rightarrow> Give_up
               | Some t \<Rightarrow>
                   if PyType_IsSubtype w tp (t_type_py (nb_type_data w t)) then Found i
                   else (case n of
                           None \<Rightarrow> Exhausted (Some t)
                         | Some n' \<Rightarrow> put_search w cpp_type (Some t) n')))"

text \<open>The tail of \<^verbatim>\<open>nb_type_put\<close>, after the search: look the type up and create a
  wrapper.\<close>

definition put_new ::
  "env \<Rightarrow> world \<Rightarrow> type_info \<Rightarrow> ptr option \<Rightarrow> ptr \<Rightarrow> rv_policy \<Rightarrow> ptr option \<Rightarrow> bool option
     \<Rightarrow> error + (world \<times> ptr \<times> bool option)" where
  "put_new e w cpp_type td v rvp cleanup is_new =
     (case lookup_type w cpp_type td of
        None \<Rightarrow> Inr (w, 0, is_new)
      | Some t \<Rightarrow> nb_type_put_common e w v t rvp cleanup is_new)"

definition nb_type_put ::
  "env \<Rightarrow> world \<Rightarrow> type_info \<Rightarrow> ptr \<Rightarrow> rv_policy \<Rightarrow> ptr option \<Rightarrow> bool option
     \<Rightarrow> error + (world \<times> ptr \<times> bool option)" where
  "nb_type_put e w cpp_type v rvp cleanup is_new =
     (if v = 0 then Inr (incref (Py_None w) w, Py_None w, is_new)
      else if rvp \<noteq> rv_copy
      then (case inst_c2p w v of
              Some en \<Rightarrow>
                (case put_search w cpp_type None
                        (case en of Direct i \<Rightarrow> Node i None | Seq s \<Rightarrow> s) of
                   Found i \<Rightarrow> Inr (incref i w, i, is_new)
                 | Give_up \<Rightarrow> Inr (w, 0, is_new)
                 | Exhausted td \<Rightarrow> put_new e w cpp_type td v rvp cleanup is_new)
            | None \<Rightarrow>
                if rvp = rv_none then Inr (w, 0, is_new)
                else put_new e w cpp_type None v rvp cleanup is_new)
      else put_new e w cpp_type None v rvp cleanup is_new)"

section \<open>Unique ownership (nb\_type\_put\_unique, nb\_type\_relinquish\_ownership)\<close>

definition nb_type_put_unique_finalize :: "world \<Rightarrow> ptr \<Rightarrow> bool \<Rightarrow> bool \<Rightarrow> error + world" where
  "nb_type_put_unique_finalize w ob cpp_del is_new =
     (if \<not> (cpp_del \<or> \<not> is_new)
      then Inl (Fatal ''nb_type_put_unique(): ownership status has become corrupted.'' [])
      else (let i = insts w ob
            in if cpp_del
               then (if ready i = is_new \<and> destruct i = is_new \<and> cpp_delete i = is_new
                     then Inr (w\<lparr>insts := (insts w)(ob := i\<lparr>ready := True, destruct := True,
                                                             cpp_delete := True\<rparr>)\<rparr>)
                     else Inl (Fatal ''nb_type_put_unique(): unexpected status flags!'' []))
               else (if \<not> ready i
                     then Inr (w\<lparr>insts := (insts w)(ob := i\<lparr>ready := True\<rparr>)\<rparr>)
                     else Inl (Fatal ''nb_type_put_unique(): ownership status has become corrupted.'' []))))"

definition nb_type_put_unique ::
  "env \<Rightarrow> world \<Rightarrow> type_info \<Rightarrow> ptr \<Rightarrow> ptr option \<Rightarrow> bool \<Rightarrow> error + (world \<times> ptr)" where
  "nb_type_put_unique e w cpp_type v cleanup cpp_del =
     (case nb_type_put e w cpp_type v (if cpp_del then rv_take_ownership else rv_none)
             cleanup (Some False) of
        Inl err \<Rightarrow> Inl err
      | Inr (w1, ob, is_new) \<Rightarrow>
          if ob \<noteq> 0
          then (case nb_type_put_unique_finalize w1 ob cpp_del (is_new = Some True) of
                  Inl err \<Rightarrow> Inl err
                | Inr w2 \<Rightarrow> Inr (w2, ob))
          else Inr (w1, ob))"

text \<open>\<^verbatim>\<open>nb_type_relinquish_ownership(o, cpp_delete)\<close>: a wrapper that is not ready fails the
  check (fatal); one that cannot give its payload away raises a warning and throws
  \<^verbatim>\<open>next_overload\<close>.\<close>

definition nb_type_relinquish_ownership :: "world \<Rightarrow> ptr \<Rightarrow> bool \<Rightarrow> error + world" where
  "nb_type_relinquish_ownership w ob cpp_del =
     (let i = insts w ob
      in if \<not> ready i
         then Inl (Fatal ''nb_relinquish_ownership(): ownership status has become corrupted.''
                     (t_name (nb_type_data w (ob_type w ob))))
         else if cpp_del
         then (if \<not> cpp_delete i \<or> \<not> destruct i \<or> internal i
               then Inl Next_overload
               else Inr (w\<lparr>insts := (insts w)(ob := i\<lparr>cpp_delete := False, destruct := False,
                                                       ready := False\<rparr>)\<rparr>))
         else Inr (w\<lparr>insts := (insts w)(ob := i\<lparr>ready := False\<rparr>)\<rparr>))"

section \<open>Implicit conversions (nb\_type\_get\_implicit)\<close>

text \<open>The three search loops, each over a null-terminated array, in the order of the source.
  What the search returns is the loop and the index at which it jumped to \<^verbatim>\<open>found\<close>.\<close>

datatype candidate = By_type nat | By_subtype nat | By_predicate nat

fun find_type :: "type_info \<Rightarrow> type_info list \<Rightarrow> nat \<Rightarrow> nat option" where
  "find_type src [] k = None"
| "find_type src (v # vs) k = (if v = src then Some k else find_type src vs (Suc k))"

fun find_subtype :: "world \<Rightarrow> ptr \<Rightarrow> type_info list \<Rightarrow> nat \<Rightarrow> nat option" where
  "find_subtype w src [] k = None"
| "find_subtype w src (v # vs) k =
     (case type_c2p w v of
        None \<Rightarrow> find_subtype w src vs (Suc k)
      | Some t \<Rightarrow>
          if PyType_IsSubtype w (ob_type w src) (t_type_py (nb_type_data w t)) then Some k
          else find_subtype w src vs (Suc k))"

fun find_predicate :: "ptr \<Rightarrow> ptr \<Rightarrow> (ptr \<Rightarrow> ptr \<Rightarrow> bool) list \<Rightarrow> nat \<Rightarrow> nat option" where
  "find_predicate tp src [] k = None"
| "find_predicate tp src (v # vs) k =
     (if v tp src then Some k else find_predicate tp src vs (Suc k))"

definition implicit_search_py :: "ptr \<Rightarrow> type_data \<Rightarrow> candidate option" where
  "implicit_search_py src dst_type =
     (case t_implicit_py dst_type of
        None \<Rightarrow> None
      | Some ps \<Rightarrow> map_option By_predicate (find_predicate (t_type_py dst_type) src ps 0))"

definition implicit_search ::
  "world \<Rightarrow> ptr \<Rightarrow> type_info option \<Rightarrow> type_data \<Rightarrow> candidate option" where
  "implicit_search w src cpp_type_src dst_type =
     (case (t_implicit dst_type, cpp_type_src) of
        (Some vs, Some ts) \<Rightarrow>
          (case find_type ts vs 0 of
             Some k \<Rightarrow> Some (By_type k)
           | None \<Rightarrow>
               (case find_subtype w src vs 0 of
                  Some k \<Rightarrow> Some (By_subtype k)
                | None \<Rightarrow> implicit_search_py src dst_type))
      | _ \<Rightarrow> implicit_search_py src dst_type)"

text \<open>\<^verbatim>\<open>nb_type_get_implicit\<close>. After \<^verbatim>\<open>found\<close> the destination type is called with the
  source object; \<open>call\<close> is that call (\<^verbatim>\<open>PyObject_Vectorcall\<close>), giving the state after
  it and the object it returns (null on failure). The result is the state, the return
  value and \<^verbatim>\<open>*out\<close>.\<close>

definition nb_type_get_implicit ::
  "(world \<Rightarrow> ptr \<Rightarrow> ptr \<Rightarrow> world \<times> ptr) \<Rightarrow> world \<Rightarrow> ptr \<Rightarrow> type_info option \<Rightarrow> type_data \<Rightarrow> ptr
     \<Rightarrow> world \<times> bool \<times> ptr" where
  "nb_type_get_implicit call w src cpp_type_src dst_type out =
     (case implicit_search w src cpp_type_src dst_type of
        None \<Rightarrow> (w, False, out)
      | Some c \<Rightarrow>
          (case call w (t_type_py dst_type) src of
             (w1, result) \<Rightarrow>
               if result \<noteq> 0
               then (emit (Cleanup_append result) w1, True, inst_ptr w1 result)
               else (let w2 = emit PyErr_Clear w1
                     in (if print_implicit_cast_warnings w2
                         then emit (Print_warning (t_name dst_type)) w2 else w2,
                         False, out))))"

section \<open>Properties of states\<close>

text \<open>No entry of the identity map lists a wrapper twice.\<close>

definition c2p_distinct :: "(ptr \<rightharpoonup> entry) \<Rightarrow> bool" where
  "c2p_distinct m = (\<forall>p en. m p = Some en \<longrightarrow> distinct (entry_insts en))"

text \<open>The calls that release the edges of a keep-alive list, node by node in list order: the
  callback of a node that has one, else the release of the patient's reference, then the
  freeing of the node.\<close>

definition release_events :: "nb_weakref_seq list \<Rightarrow> event list" where
  "release_events s =
     concat (map (\<lambda>c. [if callback c \<noteq> 0 then Call_callback (callback c) (payload c)
                         else Py_DECREF (payload c),
                         Free_weakref_seq (payload c)]) s)"

text \<open>The number of references to the object \<open>x\<close> that the edges of a keep-alive list hold:
  one for each node without callback whose patient is \<open>x\<close>.\<close>

definition held_references :: "nb_weakref_seq list \<Rightarrow> ptr \<Rightarrow> nat" where
  "held_references s x = length (filter (\<lambda>c. callback c = 0 \<and> payload c = x) s)"

text \<open>The deallocation sequence as the design states it, step by step, for a wrapper
  \<open>self\<close> of type \<open>tp\<close> with payload address \<open>p\<close> and keep-alive list \<open>s\<close>:
  (1) the dictionary, (2) the destructor (called when the type has a destructor function),
  (3) the payload memory, (4) the keep-alive edges, (5) the identity map, (6) the object
  header. The sequence is preceded by the removal from the garbage collector's tracking
  for a type with that support, and followed by the release of the reference to the type.\<close>

definition dealloc_events ::
  "bool \<Rightarrow> type_data \<Rightarrow> nb_inst \<Rightarrow> ptr \<Rightarrow> ptr \<Rightarrow> ptr \<Rightarrow> nb_weakref_seq list \<Rightarrow> event list" where
  "dealloc_events gc t i tp self p s =
     (if gc then [PyObject_GC_UnTrack self] else []) @
     (if has_dynamic_attr \<in> t_flags t then [Py_CLEAR_dict self] else []) @
     (if destruct i \<and> has_destruct \<in> t_flags t then [Call_destruct tp p] else []) @
     (if cpp_delete i
      then [if t_align t \<le> default_new_alignment then Operator_delete p
            else Operator_delete_aligned p (t_align t)]
      else []) @
     (if clear_keep_alive i then Keep_alive_erase self # release_events s else []) @
     [Inst_c2p_erase p self, Free_object self, Py_DECREF tp]"

text \<open>Registering a list of (payload, callback) pairs on one nurse, one call of
  \<^verbatim>\<open>keep_alive(nurse, payload, callback)\<close> after the other.\<close>

fun keep_alive_cb_all :: "env \<Rightarrow> world \<Rightarrow> ptr \<Rightarrow> (ptr \<times> ptr) list \<Rightarrow> error + world" where
  "keep_alive_cb_all e w nurse [] = Inr w"
| "keep_alive_cb_all e w nurse ((pl, cb) # r) =
     (case keep_alive_cb e w nurse pl cb of
        Inl err \<Rightarrow> Inl err
      | Inr w1 \<Rightarrow> keep_alive_cb_all e w1 nurse r)"

definition is_callback :: "event \<Rightarrow> bool" where
  "is_callback ev = (case ev of Call_callback _ _ \<Rightarrow> True | _ \<Rightarrow> False)"

text \<open>The events that belong to the release of keep-alive edges.\<close>

definition is_release :: "event \<Rightarrow> bool" where
  "is_release ev =
     (case ev of
        Call_callback _ _ \<Rightarrow> True
      | Py_DECREF _ \<Rightarrow> True
      | Free_weakref_seq _ \<Rightarrow> True
      | Keep_alive_erase _ \<Rightarrow> True
      | _ \<Rightarrow> False)"

text \<open>The list node of a registration (payload, callback).\<close>

definition weakref_of :: "ptr \<times> ptr \<Rightarrow> nb_weakref_seq" where
  "weakref_of r = \<lparr>callback = snd r, payload = fst r\<rparr>"

text \<open>Two states that differ at most in the keep-alive map, the reference counts and the
  \<^verbatim>\<open>clear_keep_alive\<close> flag of one wrapper.\<close>

definition same_but_keep_alive :: "world \<Rightarrow> world \<Rightarrow> ptr \<Rightarrow> bool" where
  "same_but_keep_alive w w1 nurse \<longleftrightarrow>
     trace w1 = trace w \<and> ob_type w1 = ob_type w \<and> nb_meta w1 = nb_meta w \<and>
     nb_type_data w1 = nb_type_data w \<and> has_gc w1 = has_gc w \<and> inst_c2p w1 = inst_c2p w \<and>
     cells w1 = cells w \<and>
     (\<exists>b. insts w1 = (insts w)(nurse := (insts w nurse)\<lparr>clear_keep_alive := b\<rparr>))"

text \<open>The policy in force at the end of \<^verbatim>\<open>nb_type_put_common\<close>: reference when the
  type shares ownership of the object and the value is not stored in the wrapper.\<close>

definition final_policy :: "type_data \<Rightarrow> rv_policy \<Rightarrow> bool \<Rightarrow> ptr \<Rightarrow> rv_policy" where
  "final_policy t rvp store_in_obj ob =
     (if has_shared_from_this \<in> t_flags t \<and> \<not> store_in_obj \<and> t_keep_shared_from_this_alive t ob
      then rv_reference else rvp)"

text \<open>The effective policy of a request: the requested policy after the intrusive override
  (take\_ownership), the fallback from move to copy for a type that is not move-constructible,
  and the shared-ownership override (reference).\<close>

definition effective_policy :: "world \<Rightarrow> ptr \<Rightarrow> rv_policy \<Rightarrow> ptr \<Rightarrow> rv_policy" where
  "effective_policy w td rvp ob =
     (let t = nb_type_data w td;
          forced = (if intrusive_ptr \<in> t_flags t then rv_take_ownership else rvp);
          fallen = (if forced = rv_move \<and> is_move_constructible \<notin> t_flags t then rv_copy
                    else forced)
      in final_policy t fallen (forced = rv_copy \<or> forced = rv_move) ob)"

text \<open>The conversion candidates of a destination type in the order of the design: the
  native-type entries by identity, the native-type entries by subtype, the predicates, each
  group in declaration order; and what it means for a candidate to match a source object
  with the native identity \<open>cpp_type_src\<close> (nothing for an object that is no wrapper, to
  which no native-type entry applies).\<close>

definition candidates :: "type_data \<Rightarrow> candidate list" where
  "candidates dst =
     (case t_implicit dst of
        None \<Rightarrow> []
      | Some vs \<Rightarrow> map By_type [0..<length vs] @ map By_subtype [0..<length vs]) @
     (case t_implicit_py dst of
        None \<Rightarrow> []
      | Some ps \<Rightarrow> map By_predicate [0..<length ps])"

definition subtype_entry :: "world \<Rightarrow> ptr \<Rightarrow> type_info \<Rightarrow> bool" where
  "subtype_entry w src v =
     (case type_c2p w v of
        None \<Rightarrow> False
      | Some t \<Rightarrow> PyType_IsSubtype w (ob_type w src) (t_type_py (nb_type_data w t)))"

definition candidate_matches ::
  "world \<Rightarrow> ptr \<Rightarrow> type_info option \<Rightarrow> type_data \<Rightarrow> candidate \<Rightarrow> bool" where
  "candidate_matches w src cpp_type_src dst c =
     (case c of
        By_type k \<Rightarrow>
          (case (t_implicit dst, cpp_type_src) of
             (Some vs, Some ts) \<Rightarrow> k < length vs \<and> vs ! k = ts
           | _ \<Rightarrow> False)
      | By_subtype k \<Rightarrow>
          (case (t_implicit dst, cpp_type_src) of
             (Some vs, Some ts) \<Rightarrow> k < length vs \<and> subtype_entry w src (vs ! k)
           | _ \<Rightarrow> False)
      | By_predicate k \<Rightarrow>
          (case t_implicit_py dst of
             Some ps \<Rightarrow> k < length ps \<and> (ps ! k) (t_type_py dst) src
           | None \<Rightarrow> False))"

definition is_native :: "candidate \<Rightarrow> bool" where
  "is_native c = (case c of By_predicate _ \<Rightarrow> False | _ \<Rightarrow> True)"

text \<open>The index, counted from \<open>k\<close>, of the first element of a list that satisfies a
  predicate.\<close>

fun first_index :: "('a \<Rightarrow> bool) \<Rightarrow> 'a list \<Rightarrow> nat \<Rightarrow> nat option" where
  "first_index P [] k = None"
| "first_index P (v # vs) k = (if P v then Some k else first_index P vs (Suc k))"

text \<open>A wrapper answers a request for the native type \<open>T\<close>, registered with the type record
  \<open>td\<close>: its type's native identity is \<open>T\<close>, or its host type is a subtype of the host type
  registered for \<open>T\<close>.\<close>

definition wrapper_matches :: "world \<Rightarrow> type_info \<Rightarrow> ptr \<Rightarrow> ptr \<Rightarrow> bool" where
  "wrapper_matches w T td i \<longleftrightarrow>
     t_type (nb_type_data w (ob_type w i)) = Some T \<or>
     PyType_IsSubtype w (ob_type w i) (t_type_py (nb_type_data w td))"

text \<open>The native type \<open>T\<close> is registered with the type record \<open>td\<close>, as \<^verbatim>\<open>nb_type_new\<close>
  registers it: the host type of the record carries the native identity \<open>T\<close>.\<close>

definition registered :: "world \<Rightarrow> type_info \<Rightarrow> ptr \<Rightarrow> bool" where
  "registered w T td \<longleftrightarrow>
     type_c2p w T = Some td \<and>
     t_type (nb_type_data w (t_type_py (nb_type_data w td))) = Some T"


text \<open>\<^verbatim>\<open>n\<close> calls of \<^verbatim>\<open>nb_type_put\<close> in a row for the same type and address with the policy
  \<^verbatim>\<open>reference\<close>, with nothing in between: the final state and the objects returned, in
  order.\<close>

fun put_repeatedly ::
  "env \<Rightarrow> world \<Rightarrow> type_info \<Rightarrow> ptr \<Rightarrow> nat \<Rightarrow> error + (world \<times> ptr list)" where
  "put_repeatedly e w T v 0 = Inr (w, [])"
| "put_repeatedly e w T v (Suc n) =
     (case nb_type_put e w T v rv_reference None None of
        Inl err \<Rightarrow> Inl err
      | Inr (w1, ob, _) \<Rightarrow>
          (case put_repeatedly e w1 T v n of
             Inl err \<Rightarrow> Inl err
           | Inr (w2, obs) \<Rightarrow> Inr (w2, ob # obs)))"
section \<open>Example states\<close>

text \<open>A bound type \<open>Point\<close> (native identity 1, type object at 4096, metaclass at 8192,
  \<^verbatim>\<open>nb_meta\<close> at 12288), an empty bridge state in which every other object is a \<open>Point\<close>
  wrapper, in a build without \<^verbatim>\<open>NB_COMPACT_ASSERTIONS\<close>, and an allocator that hands out
  20480.\<close>

definition Point :: type_data where
  "Point = \<lparr>t_size = 8, t_align = 8,
            t_flags = {is_destructible, has_destruct, is_copy_constructible, has_copy,
                       is_move_constructible, has_move},
            t_name = ''Point'', t_type = Some 1, t_type_py = 4096,
            t_implicit = None, t_implicit_py = None,
            t_copy = (\<lambda>_ _. True), t_move = (\<lambda>_ _. True),
            t_keep_shared_from_this_alive = (\<lambda>_. False)\<rparr>"

definition world0 :: world where
  "world0 = \<lparr>ob_refcnt = (\<lambda>_. 1),
             ob_type = (\<lambda>_. 4096)(4096 := 8192, 8192 := 12288),
             insts = (\<lambda>_. zero_inst),
             cells = (\<lambda>_. 0),
             nb_type_data = (\<lambda>_. Point),
             has_gc = (\<lambda>_. False),
             PyType_IsSubtype = (\<lambda>a b. a = b),
             Py_None = 16,
             nb_meta = 12288,
             inst_c2p = Map.empty,
             type_c2p = [1 \<mapsto> 4096],
             internals_keep_alive = Map.empty,
             print_implicit_cast_warnings = True,
             NB_COMPACT_ASSERTIONS = False,
             trace = []\<rparr>"

definition env0 :: env where
  "env0 = \<lparr>env_malloc = 20480, env_realloc = 24576, env_node_malloc = 28672,
           env_cfunction = 32768, env_weakref = 33024, env_capsule = 33280\<rparr>"

text \<open>Identity maps with one and with two wrappers at address 100.\<close>

definition c2p_one :: "ptr \<rightharpoonup> entry" where
  "c2p_one = [100 \<mapsto> Direct 200]"

definition c2p_two :: "ptr \<rightharpoonup> entry" where
  "c2p_two = [100 \<mapsto> Seq (Node 200 (Some (Node 300 None)))]"

text \<open>A state with one \<open>Point\<close> wrapper at 100 whose payload is co-located at 124 and
  which owns the destructor call.\<close>

definition world1 :: world where
  "world1 = world0
     \<lparr>insts := (insts world0)(100 := \<lparr>offset = 24, direct = True, internal = True, ready = True,
                                      destruct = True, cpp_delete = False,
                                      clear_keep_alive = False\<rparr>),
      inst_c2p := [124 \<mapsto> Direct 100]\<rparr>"

text \<open>The same state for a trivially destructible type: destructible, with no destructor
  function.\<close>

definition world_trivial :: world where
  "world_trivial = world1\<lparr>nb_type_data := (\<lambda>_. Point\<lparr>t_flags := {is_destructible}\<rparr>)\<rparr>"

text \<open>The same state for a type that is not destructible.\<close>

definition world_nondestructible :: world where
  "world_nondestructible = world1\<lparr>nb_type_data := (\<lambda>_. Point\<lparr>t_flags := {}\<rparr>)\<rparr>"

text \<open>A destination type with two native-type conversions (from the native types 5 and 6)
  and one predicate that accepts every source.\<close>

definition Dest :: type_data where
  "Dest = Point\<lparr>t_implicit := Some [5, 6], t_implicit_py := Some [\<lambda>_ _. True]\<rparr>"


text \<open>A state in which the address 124 carries two wrappers: 200, of a second bound type
  \<open>Inner\<close> (native identity 2, type object at 4352) that is unrelated to \<open>Point\<close>, and then
  the \<open>Point\<close> wrapper 100.\<close>

definition world_chain :: world where
  "world_chain = world1
     \<lparr>ob_type := (ob_type world1)(200 := 4352, 4352 := 8192),
      nb_type_data := (nb_type_data world1)
         (4352 := Point\<lparr>t_name := ''Inner'', t_type := Some 2, t_type_py := 4352\<rparr>),
      inst_c2p := [124 \<mapsto> Seq (Node 200 (Some (Node 100 None)))],
      type_c2p := [1 \<mapsto> 4096, 2 \<mapsto> 4352]\<rparr>"
section \<open>Lemmas on the identity map and the offset encoding\<close>

lemmas ex_defs = world0_def env0_def Point_def zero_inst_def

lemma seq_insts_nonempty: "seq_insts s \<noteq> []"
  by (induction s rule: seq_insts.induct) auto

lemma seq_append_Inr:
  "seq_append self s = Inr s' \<Longrightarrow> seq_insts s' = seq_insts s @ [self] \<and> self \<notin> set (seq_insts s)"
  by (induction self s arbitrary: s' rule: seq_append.induct)
     (auto split: if_splits sum.splits)

lemma seq_append_Inl:
  "seq_append self s = Inl err \<Longrightarrow> self \<in> set (seq_insts s)"
  by (induction self s rule: seq_append.induct)
     (auto split: if_splits sum.splits)

lemma seq_append_alloc_Inr:
  "seq_append_alloc e self s = Inr s' \<Longrightarrow> seq_insts s' = seq_insts s @ [self] \<and> self \<notin> set (seq_insts s)"
  by (auto simp: seq_append_alloc_def dest: seq_append_Inr split: sum.splits if_splits)

lemma entry_insts_simps [simp]:
  "entry_insts (Direct i) = [i]" "entry_insts (Seq s) = seq_insts s"
  by (simp_all add: entry_insts_def)

lemma inst_c2p_insert_Inr:
  assumes "inst_c2p_insert e m v self = Inr m'"
  shows "\<exists>en. m' = m(v \<mapsto> en) \<and>
           entry_insts en = (case m v of None \<Rightarrow> [] | Some en0 \<Rightarrow> entry_insts en0) @ [self]"
proof (cases "m v")
  case None
  with assms show ?thesis by (auto simp: inst_c2p_insert_def)
next
  case (Some en0)
  show ?thesis
  proof (cases en0)
    case (Direct i)
    with Some assms show ?thesis
      by (auto simp: inst_c2p_insert_def dest!: seq_append_alloc_Inr split: sum.splits if_splits)
  next
    case (Seq s)
    with Some assms show ?thesis
      by (auto simp: inst_c2p_insert_def dest!: seq_append_alloc_Inr split: sum.splits if_splits)
  qed
qed


subsection \<open>Word arithmetic of the offset\<close>

lemma sint_ucast_32: "sint (ucast (d::64 word) :: 32 word) = signed_take_bit 31 (uint d)"
proof -
  have "(ucast d :: 32 word) = word_of_int (uint d)" by simp
  then show ?thesis by (simp only: sint_sbintrunc') simp
qed

lemma signed_take_bit_uint_sint:
  "signed_take_bit 31 (uint (d::64 word)) = signed_take_bit 31 (sint d)"
  by (simp add: sint_uint signed_take_bit_signed_take_bit)

lemma scast_32_64_eq_iff: "(scast (x :: 32 word) :: 64 word) = d \<longleftrightarrow> sint x = sint d"
proof
  assume "(scast x :: 64 word) = d"
  then have "sint (scast x :: 64 word) = sint d" by simp
  moreover have "sint (scast x :: 64 word) = sint x"
    by (rule sint_up_scast) (simp add: is_up)
  ultimately show "sint x = sint d" by simp
next
  assume "sint x = sint d"
  then have "word_of_int (sint x) = (word_of_int (sint d) :: 64 word)" by simp
  then show "(scast x :: 64 word) = d" by simp
qed

lemma scast_ucast_eq_iff:
  "(scast (ucast (d::64 word) :: 32 word) :: 64 word) = d
     \<longleftrightarrow> - (2 ^ 31) \<le> sint d \<and> sint d < 2 ^ 31"
proof -
  have "(scast (ucast d :: 32 word) :: 64 word) = d \<longleftrightarrow> signed_take_bit 31 (sint d) = sint d"
    by (simp only: scast_32_64_eq_iff sint_ucast_32 signed_take_bit_uint_sint)
  also have "\<dots> \<longleftrightarrow> - (2 ^ 31) \<le> sint d \<and> sint d < 2 ^ 31"
    by (rule signed_take_bit_int_eq_self_iff)
  finally show ?thesis .
qed

lemma offset_representable_iff:
  "(self + scast (ucast (v - self :: 64 word) :: 32 word) = v)
     \<longleftrightarrow> - (2 ^ 31) \<le> sint (v - self) \<and> sint (v - self) < 2 ^ 31"
proof -
  have "(self + scast (ucast (v - self) :: 32 word) = v)
          \<longleftrightarrow> (scast (ucast (v - self) :: 32 word) :: 64 word) = v - self"
    by (metis add_diff_cancel_left' diff_add_cancel add.commute)
  then show ?thesis by (simp only: scast_ucast_eq_iff)
qed

lemma round_up_bounds:
  fixes s al :: nat
  assumes "0 < al"
  shows "s \<le> (s + al - 1) div al * al \<and> (s + al - 1) div al * al < s + al"
proof -
  define n where "n = s + al - 1"
  have d: "n = n div al * al + n mod al" by simp
  have m: "n mod al < al" using assms by simp
  have "Suc n = s + al" using assms by (simp add: n_def)
  with d m have "s \<le> n div al * al \<and> n div al * al < s + al" by linarith
  then show ?thesis by (simp only: n_def)
qed

lemma aligned_payload_unat:
  assumes al: "0 < al" and fit: "unat self + 24 + al \<le> 2 ^ 64"
  shows "unat (aligned_payload self (of_nat al)) = (unat self + 24 + al - 1) div al * al"
proof -
  define n where "n = unat self + 24 + al - 1"
  have n_lt: "n < 2 ^ 64" using al fit by (simp add: n_def)
  have al_lt: "al < 2 ^ 64" using fit by simp
  have ua: "unat (of_nat al :: ptr) = al"
    using al_lt by (simp add: unat_of_nat)
  have "Suc n = unat self + 24 + al" using al by (simp add: n_def)
  then have "(of_nat (Suc n) :: ptr) = self + 24 + of_nat al" by simp
  then have eq: "self + sizeof_nb_inst + of_nat al - 1 = (of_nat n :: ptr)"
    by (simp add: sizeof_nb_inst_def)
  have "unat (of_nat n :: ptr) = n"
    using n_lt by (simp add: unat_of_nat)
  then have un: "unat (self + sizeof_nb_inst + of_nat al - 1) = n"
    by (simp only: eq)
  have ud: "unat ((self + sizeof_nb_inst + of_nat al - 1) div of_nat al) = n div al"
    by (simp only: unat_div un ua)
  have "n div al * al \<le> n" by simp
  then have "n div al * al < 2 ^ 64" using n_lt by linarith
  then have "unat ((self + sizeof_nb_inst + of_nat al - 1) div of_nat al) * unat (of_nat al :: ptr)
               < 2 ^ LENGTH(64)"
    by (simp only: ud ua) simp
  then have "unat ((self + sizeof_nb_inst + of_nat al - 1) div of_nat al * of_nat al)
               = n div al * al"
    by (simp only: unat_mult_lem [THEN iffD1] ud ua)
  then show ?thesis by (simp only: aligned_payload_def n_def)
qed

lemma sint_small:
  assumes "unat (x::64 word) < 2 ^ 31"
  shows "- (2 ^ 31) \<le> sint x \<and> sint x < 2 ^ 31"
proof -
  have "int (unat x) < int (2 ^ 31)" using assms by (simp only: of_nat_less_iff)
  then have lt: "uint x < 2 ^ 31" by simp
  have ge: "0 \<le> uint x" by simp
  have n1: "- (2 ^ 63) \<le> (0::int)" and n2: "(2::int) ^ 31 \<le> 2 ^ 63"
    and n3: "- (2 ^ 31) \<le> (0::int)" by simp_all
  have "- (2 ^ 63) \<le> uint x \<and> uint x < 2 ^ 63" using lt ge n1 n2 by linarith
  then have "signed_take_bit 63 (uint x) = uint x"
    by (simp only: signed_take_bit_int_eq_self_iff)
  then have "sint x = uint x" by (simp add: sint_uint)
  then show ?thesis using lt ge n3 by linarith
qed

lemma aligned_payload_props:
  assumes al: "0 < al" and fit: "unat self + 24 + al \<le> 2 ^ 64" and small: "al < 2 ^ 31 - 24"
  defines "pl \<equiv> aligned_payload self (of_nat al)"
  shows "unat self + 24 \<le> unat pl" and "unat pl < unat self + 24 + al" and "al dvd unat pl"
    and "self + scast (ucast (pl - self) :: 32 word) = pl"
proof -
  have u: "unat pl = (unat self + 24 + al - 1) div al * al"
    unfolding pl_def by (rule aligned_payload_unat [OF al fit])
  from round_up_bounds [OF al, of "unat self + 24"] u
  show lo: "unat self + 24 \<le> unat pl" and hi: "unat pl < unat self + 24 + al" by simp_all
  show "al dvd unat pl" by (simp add: u)
  have le: "self \<le> pl" using lo by (simp add: word_le_nat_alt)
  have "unat (pl - self) = unat pl - unat self" using le by (rule unat_sub)
  then have d: "unat (pl - self) < 2 ^ 31" using hi small by simp
  from sint_small [OF d]
  have "- (2 ^ 31) \<le> sint (pl - self) \<and> sint (pl - self) < 2 ^ 31" .
  then show "self + scast (ucast (pl - self) :: 32 word) = pl"
    by (simp only: offset_representable_iff)
qed


lemma scast_sizeof [simp]: "(scast (ucast sizeof_nb_inst :: 32 word) :: ptr) = sizeof_nb_inst"
  by (simp add: sizeof_nb_inst_def)

lemma set_external_Some:
  assumes "set_external e w gc self v = Some (w2, self')"
  shows "inst_ptr w2 self' = v \<and> \<not> internal (insts w2 self') \<and> inst_c2p w2 = inst_c2p w \<and>
         (if - (2 ^ 31) \<le> sint (v - self) \<and> sint (v - self) < 2 ^ 31
          then direct (insts w2 self') \<and> self' = self \<and>
               sint (offset (insts w2 self')) = sint (v - self)
          else \<not> direct (insts w2 self') \<and> cells w2 (self' + sizeof_nb_inst) = v)"
proof (cases "self + scast (ucast (v - self) :: 32 word) = v")
  case True
  then have r: "- (2 ^ 31) \<le> sint (v - self) \<and> sint (v - self) < 2 ^ 31"
    using offset_representable_iff [of self v] by blast
  then have "(scast (ucast (v - self) :: 32 word) :: ptr) = v - self"
    by (simp only: scast_ucast_eq_iff)
  then have "sint (ucast (v - self) :: 32 word) = sint (v - self)"
    by (simp only: scast_32_64_eq_iff)
  with True r assms show ?thesis
    by (auto simp: set_external_def inst_ptr_def Let_def)
next
  case False
  then have r: "\<not> (- (2 ^ 31) \<le> sint (v - self) \<and> sint (v - self) < 2 ^ 31)"
    using offset_representable_iff [of self v] by blast
  with False assms show ?thesis
    by (auto simp: set_external_def inst_ptr_def Let_def move_object_def split: if_splits)
qed

lemma init_object_simps [simp]:
  "inst_c2p (init_object w tp self) = inst_c2p w"
  "cells (init_object w tp self) = cells w"
  "nb_type_data (init_object w tp self) = nb_type_data w"
  "insts (init_object w tp self) self = zero_inst"
  by (simp_all add: init_object_def)

lemma inst_ptr_inst_c2p_update [simp]: "inst_ptr (w\<lparr>inst_c2p := m\<rparr>) self = inst_ptr w self"
  by (simp add: inst_ptr_def Let_def)

lemma inst_new_impl_null:
  "env_malloc e = 0 \<Longrightarrow>
   inst_new_impl e w tp v = (if has_gc w tp then Inl Undefined else Inr (emit PyErr_NoMemory w, 0))"
  by (simp add: inst_new_impl_def)

lemma inst_new_impl_internal:
  "env_malloc e \<noteq> 0 \<Longrightarrow> (of_nat (t_align (nb_type_data w tp)) :: ptr) \<noteq> 0 \<Longrightarrow>
   inst_new_impl e w tp 0 =
     (case inst_c2p_insert e
             (inst_c2p (set_internal (init_object w tp (env_malloc e)) (env_malloc e)
                (aligned_payload (env_malloc e) (of_nat (t_align (nb_type_data w tp))))))
             (aligned_payload (env_malloc e) (of_nat (t_align (nb_type_data w tp))))
             (env_malloc e) of
        Inl err \<Rightarrow> Inl err
      | Inr m \<Rightarrow>
          Inr ((set_internal (init_object w tp (env_malloc e)) (env_malloc e)
                 (aligned_payload (env_malloc e) (of_nat (t_align (nb_type_data w tp)))))
               \<lparr>inst_c2p := m\<rparr>, env_malloc e))"
  by (simp add: inst_new_impl_def Let_def)

lemma inst_new_impl_external:
  "env_malloc e \<noteq> 0 \<Longrightarrow> v \<noteq> 0 \<Longrightarrow>
   inst_new_impl e w tp v =
     (case set_external e (init_object w tp (env_malloc e)) (has_gc w tp) (env_malloc e) v of
        None \<Rightarrow> Inr (emit PyErr_NoMemory
                      (emit (Free_object (env_malloc e)) (init_object w tp (env_malloc e))), 0)
      | Some (w2, self') \<Rightarrow>
          (case inst_c2p_insert e (inst_c2p w2) v self' of
             Inl err \<Rightarrow> Inl err
           | Inr m \<Rightarrow> Inr (w2\<lparr>inst_c2p := m\<rparr>, self')))"
  by (simp add: inst_new_impl_def Let_def)

lemma inst_new_impl_malloc:
  assumes "inst_new_impl e w tp v = Inr (w', self)" and "self \<noteq> 0"
  shows "env_malloc e \<noteq> 0"
proof
  assume "env_malloc e = 0"
  from inst_new_impl_null [OF this, of w tp v] assms show False
    by (simp split: if_splits)
qed

lemma sum_case_Inr_elim:
  "(case x of Inl err \<Rightarrow> Inl err | Inr m \<Rightarrow> Inr (f m, s)) = Inr (w', self)
     \<Longrightarrow> \<exists>m. x = Inr m \<and> w' = f m \<and> self = s"
  by (cases x) auto

text \<open>
  Claim C10 (payload-address round trip). Let \<^verbatim>\<open>inst_new_impl\<close> return a wrapper. For a
  caller-supplied payload address \<open>v\<close>, \<open>inst_ptr\<close> of the wrapper is \<open>v\<close> and the wrapper
  is not internal; when the byte offset from the allocated header to \<open>v\<close> is a signed 32-bit
  value the wrapper is direct and its offset field holds that offset, otherwise the wrapper is
  indirect and the word after the header holds \<open>v\<close>. For co-located storage (\<open>v\<close> null,
  with a positive alignment below \<open>2^31 - 24\<close> and the header and padding inside the
  address space) the wrapper is internal and direct, and \<open>inst_ptr\<close> is a multiple of the
  alignment within the padding after the header. In each case the wrapper is registered in
  \<^verbatim>\<open>inst_c2p\<close> under the address \<open>inst_ptr\<close> returns.
\<close>

theorem inst_new_impl_inst_ptr:
  assumes new: "inst_new_impl e w tp v = Inr (w', self)" and nz: "self \<noteq> 0"
  shows "(v \<noteq> 0 \<longrightarrow>
            inst_ptr w' self = v \<and> \<not> internal (insts w' self) \<and>
            (if - (2 ^ 31) \<le> sint (v - env_malloc e) \<and> sint (v - env_malloc e) < 2 ^ 31
             then direct (insts w' self) \<and> self = env_malloc e \<and>
                  sint (offset (insts w' self)) = sint (v - self)
             else \<not> direct (insts w' self) \<and> cells w' (self + sizeof_nb_inst) = v) \<and>
            (\<exists>en. inst_c2p w' v = Some en \<and> self \<in> set (entry_insts en)))
       \<and> (v = 0 \<and> 0 < t_align (nb_type_data w tp)
            \<and> unat (env_malloc e) + 24 + t_align (nb_type_data w tp) \<le> 2 ^ 64
            \<and> t_align (nb_type_data w tp) < 2 ^ 31 - 24 \<longrightarrow>
            internal (insts w' self) \<and> direct (insts w' self) \<and> self = env_malloc e \<and>
            t_align (nb_type_data w tp) dvd unat (inst_ptr w' self) \<and>
            unat self + 24 \<le> unat (inst_ptr w' self) \<and>
            unat (inst_ptr w' self) < unat self + 24 + t_align (nb_type_data w tp) \<and>
            (\<exists>en. inst_c2p w' (inst_ptr w' self) = Some en \<and> self \<in> set (entry_insts en)))"
proof (cases "v = 0")
  case False
  note mz = inst_new_impl_malloc [OF new nz]
  from new inst_new_impl_external [OF mz False, of w tp] obtain w2 m where
    ext: "set_external e (init_object w tp (env_malloc e)) (has_gc w tp) (env_malloc e) v = Some (w2, self)"
    and ins: "inst_c2p_insert e (inst_c2p w2) v self = Inr m"
    and w': "w' = w2\<lparr>inst_c2p := m\<rparr>"
    using nz by (auto split: option.splits sum.splits prod.splits)
  from inst_c2p_insert_Inr [OF ins] obtain en where
    "m = (inst_c2p w2)(v \<mapsto> en)" and "entry_insts en = (case inst_c2p w2 v of None \<Rightarrow> [] | Some en0 \<Rightarrow> entry_insts en0) @ [self]"
    by blast
  then have "\<exists>en. inst_c2p w' v = Some en \<and> self \<in> set (entry_insts en)"
    using w' by simp
  with set_external_Some [OF ext] False w' show ?thesis
    by (auto split: if_splits)
next
  case True
  let ?al = "t_align (nb_type_data w tp)"
  let ?s = "env_malloc e"
  let ?pl = "aligned_payload ?s (of_nat ?al)"
  show ?thesis
  proof (cases "0 < ?al \<and> unat ?s + 24 + ?al \<le> 2 ^ 64 \<and> ?al < 2 ^ 31 - 24")
    case False
    with True show ?thesis by auto
  next
    case hyp: True
    then have al: "0 < ?al" and fit: "unat ?s + 24 + ?al \<le> 2 ^ 64" and small: "?al < 2 ^ 31 - 24"
      by simp_all
    have "?al < 2 ^ 64" using fit by simp
    then have "unat (of_nat ?al :: ptr) = ?al" by (simp add: unat_of_nat)
    then have anz: "(of_nat ?al :: ptr) \<noteq> 0" using al by (metis less_numeral_extra(3) unat_0)
    note mz = inst_new_impl_malloc [OF new nz]
    let ?w2 = "set_internal (init_object w tp ?s) ?s ?pl"
    have "(case inst_c2p_insert e (inst_c2p ?w2) ?pl ?s of
             Inl err \<Rightarrow> Inl err
           | Inr m \<Rightarrow> Inr (?w2\<lparr>inst_c2p := m\<rparr>, ?s)) = Inr (w', self)"
      using new True by (simp only: inst_new_impl_internal [OF mz anz])
    from sum_case_Inr_elim [OF this] obtain m where
      ins0: "inst_c2p_insert e (inst_c2p ?w2) ?pl ?s = Inr m"
      and w': "w' = ?w2\<lparr>inst_c2p := m\<rparr>"
      and self: "self = ?s"
      by blast
    from ins0 self have
      ins: "inst_c2p_insert e (inst_c2p (set_internal (init_object w tp ?s) ?s ?pl)) ?pl self = Inr m"
      by simp
    note props = aligned_payload_props [OF al fit small]
    have ptr: "inst_ptr w' self = ?pl"
      using w' self props(4) by (simp add: inst_ptr_def set_internal_def)
    from inst_c2p_insert_Inr [OF ins] obtain en where
      "m = (inst_c2p (set_internal (init_object w tp ?s) ?s ?pl))(?pl \<mapsto> en)"
      and "entry_insts en = (case inst_c2p (set_internal (init_object w tp ?s) ?s ?pl) ?pl of None \<Rightarrow> [] | Some en0 \<Rightarrow> entry_insts en0) @ [self]"
      by blast
    then have reg: "\<exists>en. inst_c2p w' ?pl = Some en \<and> self \<in> set (entry_insts en)"
      using w' by simp
    have flags: "internal (insts w' self) \<and> direct (insts w' self)"
      using w' self by (simp add: set_internal_def)
    from True hyp ptr reg flags self props(1,2,3) show ?thesis by simp
  qed
qed

theorem inst_new_impl_inst_ptr_witness:
  "(\<exists>w1. inst_new_impl env0 world0 4096 36864 = Inr (w1, 20480) \<and>
          inst_ptr w1 20480 = 36864 \<and> direct (insts w1 20480))
   \<and> (\<exists>w1. inst_new_impl env0 world0 4096 (2 ^ 40) = Inr (w1, 24576) \<and>
          inst_ptr w1 24576 = 2 ^ 40 \<and> \<not> direct (insts w1 24576))
   \<and> (\<exists>w1. inst_new_impl env0 world0 4096 0 = Inr (w1, 20480) \<and>
          8 dvd unat (inst_ptr w1 20480) \<and> internal (insts w1 20480))"
proof -
  obtain w1 where a: "inst_new_impl env0 world0 4096 36864 = Inr (w1, 20480)"
    by (simp add: inst_new_impl_def ex_defs Let_def set_external_def init_object_def
        inst_c2p_insert_def)
  have a': "inst_ptr w1 20480 = 36864 \<and> direct (insts w1 20480)"
    using inst_new_impl_inst_ptr [OF a] by (simp add: env0_def)
  obtain w2 where b: "inst_new_impl env0 world0 4096 (2 ^ 40) = Inr (w2, 24576)"
    by (simp add: inst_new_impl_def ex_defs Let_def set_external_def init_object_def
        inst_c2p_insert_def move_object_def)
  have b': "inst_ptr w2 24576 = 2 ^ 40 \<and> \<not> direct (insts w2 24576)"
    using inst_new_impl_inst_ptr [OF b] by (simp add: env0_def)
  obtain w3 where c: "inst_new_impl env0 world0 4096 0 = Inr (w3, 20480)"
    by (simp add: inst_new_impl_def ex_defs Let_def set_internal_def init_object_def
        inst_c2p_insert_def aligned_payload_def sizeof_nb_inst_def)
  have c': "8 dvd unat (inst_ptr w3 20480) \<and> internal (insts w3 20480)"
    using inst_new_impl_inst_ptr [OF c] by (simp add: ex_defs)
  from a a' b b' c c' show ?thesis by blast
qed

section \<open>The identity map: registration and removal\<close>

lemma seq_insts_Node: "seq_insts (Node i n) = i # (case n of None \<Rightarrow> [] | Some n' \<Rightarrow> seq_insts n')"
  by (cases n) simp_all

lemma seq_insts_inst: "seq_insts s = inst s # (case nxt s of None \<Rightarrow> [] | Some n' \<Rightarrow> seq_insts n')"
  by (cases s) (simp add: seq_insts_Node)

lemma unlink_after_None:
  "unlink_after x s = None \<longleftrightarrow> x \<notin> set (tl (seq_insts s))"
  by (induction x s rule: unlink_after.induct)
     (auto simp: seq_insts_Node split: option.splits)

lemma unlink_after_Some:
  "unlink_after x s = Some s' \<Longrightarrow> seq_insts s' = inst s # remove1 x (tl (seq_insts s))"
  by (induction x s arbitrary: s' rule: unlink_after.induct)
     (auto simp: seq_insts_Node split: option.splits if_splits)

lemma unlink_after_Some_mem:
  "unlink_after x s = Some s' \<Longrightarrow> x \<in> set (tl (seq_insts s))"
  using unlink_after_None [of x s] by auto

lemma seq_remove_None:
  "seq_remove x s = None \<longleftrightarrow> x \<notin> set (seq_insts s)"
proof (cases "inst s = x")
  case True
  then show ?thesis
    by (auto simp: seq_remove_def seq_insts_inst [of s] split: option.splits)
next
  case False
  then show ?thesis
    using unlink_after_None [of x s]
    by (auto simp: seq_remove_def seq_insts_inst [of s] split: option.splits)
qed

lemma seq_remove_erase:
  "seq_remove x s = Some None \<longleftrightarrow> seq_insts s = [x]"
  by (cases s) (auto simp: seq_remove_def seq_insts_Node seq_insts_nonempty split: option.splits)

lemma seq_remove_Some:
  "seq_remove x s = Some (Some en) \<Longrightarrow> \<exists>s'. en = Seq s' \<and> seq_insts s' = remove1 x (seq_insts s)"
  by (cases s)
     (auto simp: seq_remove_def seq_insts_Node split: option.splits if_splits dest!: unlink_after_Some)


lemma insert_absent:
  "m v = None \<Longrightarrow> inst_c2p_insert e m v self = Inr (m(v \<mapsto> Direct self))"
  by (simp add: inst_c2p_insert_def)

lemma seq_append_total:
  "self \<notin> set (seq_insts s) \<Longrightarrow> \<exists>s'. seq_append self s = Inr s'"
  by (induction self s rule: seq_append.induct) (auto split: sum.splits)

lemma seq_append_dup:
  "self \<in> set (seq_insts s) \<Longrightarrow> seq_append self s = Inl (Fatal ''inst_new(): duplicate instance!'' [])"
  by (induction self s rule: seq_append.induct) (auto split: sum.splits dest: seq_append_Inr)

lemma insert_present:
  assumes "m v = Some en" and "self \<notin> set (entry_insts en)" and "env_node_malloc e \<noteq> 0"
  shows "\<exists>s'. inst_c2p_insert e m v self = Inr (m(v \<mapsto> Seq s')) \<and>
              seq_insts s' = entry_insts en @ [self]"
proof -
  define s where "s = (case en of Direct i \<Rightarrow> Node i None | Seq s \<Rightarrow> s)"
  have l: "seq_insts s = entry_insts en" by (cases en) (simp_all add: s_def)
  with assms(2) obtain s' where a: "seq_append self s = Inr s'"
    using seq_append_total by metis
  from seq_append_Inr [OF a] l have "seq_insts s' = entry_insts en @ [self]" by simp
  moreover have "inst_c2p_insert e m v self = Inr (m(v \<mapsto> Seq s'))"
    using assms(1,3) a by (cases en) (simp_all add: inst_c2p_insert_def seq_append_alloc_def s_def)
  ultimately show ?thesis by blast
qed

lemma insert_duplicate:
  assumes "m v = Some en" and "self \<in> set (entry_insts en)"
  shows "\<exists>a b. inst_c2p_insert e m v self = Inl (Fatal a b)"
proof (cases en)
  case (Direct i)
  with assms show ?thesis
    by (simp add: inst_c2p_insert_def seq_append_alloc_def)
next
  case (Seq s)
  with assms have "seq_append self s = Inl (Fatal ''inst_new(): duplicate instance!'' [])"
    by (simp add: seq_append_dup)
  with assms Seq show ?thesis
    by (simp add: inst_c2p_insert_def seq_append_alloc_def)
qed

lemma remove_only:
  assumes "m p = Some en" and "entry_insts en = [x]"
  shows "inst_c2p_remove m p x = Some (m(p := None))"
proof (cases en)
  case (Direct i)
  with assms show ?thesis by (simp add: inst_c2p_remove_def)
next
  case (Seq s)
  with assms have "seq_remove x s = Some None" by (simp add: seq_remove_erase)
  with assms Seq show ?thesis by (simp add: inst_c2p_remove_def)
qed

lemma remove_from_list:
  assumes "m p = Some en" and "x \<in> set (entry_insts en)" and "entry_insts en \<noteq> [x]"
  shows "\<exists>s'. inst_c2p_remove m p x = Some (m(p \<mapsto> Seq s')) \<and>
              seq_insts s' = remove1 x (entry_insts en)"
proof (cases en)
  case (Direct i)
  with assms show ?thesis by simp
next
  case (Seq s)
  with assms have "seq_remove x s \<noteq> None" and "seq_remove x s \<noteq> Some None"
    by (simp_all add: seq_remove_None seq_remove_erase)
  then obtain en' where r: "seq_remove x s = Some (Some en')" by (cases "seq_remove x s") auto
  from seq_remove_Some [OF r] obtain s' where "en' = Seq s'" and "seq_insts s' = remove1 x (seq_insts s)"
    by blast
  with assms(1) Seq r show ?thesis by (auto simp: inst_c2p_remove_def)
qed

lemma remove_unknown:
  assumes "\<forall>en. m p = Some en \<longrightarrow> x \<notin> set (entry_insts en)"
  shows "inst_c2p_remove m p x = None"
proof (cases "m p")
  case None
  then show ?thesis by (simp add: inst_c2p_remove_def)
next
  case (Some en)
  with assms have nx: "x \<notin> set (entry_insts en)" by simp
  show ?thesis
  proof (cases en)
    case (Direct i)
    with Some nx show ?thesis by (auto simp: inst_c2p_remove_def)
  next
    case (Seq s)
    with nx have "seq_remove x s = None" by (simp add: seq_remove_None)
    with Some Seq show ?thesis by (simp add: inst_c2p_remove_def)
  qed
qed

lemma insert_distinct:
  assumes "c2p_distinct m" and "inst_c2p_insert e m v self = Inr m'"
  shows "c2p_distinct m' \<and> (\<exists>en. m' v = Some en \<and> count_list (entry_insts en) self = 1)"
proof -
  from inst_c2p_insert_Inr [OF assms(2)] obtain en where
    m': "m' = m(v \<mapsto> en)"
    and l: "entry_insts en = (case m v of None \<Rightarrow> [] | Some en0 \<Rightarrow> entry_insts en0) @ [self]"
    by blast
  have notin: "self \<notin> set (case m v of None \<Rightarrow> [] | Some en0 \<Rightarrow> entry_insts en0)"
  proof (cases "m v")
    case None
    then show ?thesis by simp
  next
    case (Some en0)
    show ?thesis
    proof
      assume "self \<in> set (case m v of None \<Rightarrow> [] | Some en0 \<Rightarrow> entry_insts en0)"
      with Some have "self \<in> set (entry_insts en0)" by simp
      from insert_duplicate [of m v en0 self e, OF Some this] assms(2) show False by auto
    qed
  qed
  have d0: "distinct (case m v of None \<Rightarrow> [] | Some en0 \<Rightarrow> entry_insts en0)"
    using assms(1) by (auto simp: c2p_distinct_def split: option.splits)
  have "distinct (entry_insts en)" using l notin d0 by simp
  then have "c2p_distinct m'" using assms(1) m' by (auto simp: c2p_distinct_def)
  moreover have "count_list (entry_insts en) self = 1"
    using l notin by (simp add: count_list_0_iff)
  ultimately show ?thesis using m' by simp
qed

lemma remove_distinct:
  assumes "c2p_distinct m" and "inst_c2p_remove m p x = Some m'"
  shows "c2p_distinct m' \<and> (\<forall>en. m' p = Some en \<longrightarrow> x \<notin> set (entry_insts en))"
proof -
  from assms(2) obtain en where en: "m p = Some en"
    by (cases "m p") (simp_all add: inst_c2p_remove_def)
  have mem: "x \<in> set (entry_insts en)"
  proof (rule ccontr)
    assume "x \<notin> set (entry_insts en)"
    with en have "\<forall>en. m p = Some en \<longrightarrow> x \<notin> set (entry_insts en)" by simp
    from remove_unknown [of m p x, OF this] assms(2) show False by simp
  qed
  have d: "distinct (entry_insts en)" using assms(1) en by (auto simp: c2p_distinct_def)
  show ?thesis
  proof (cases "entry_insts en = [x]")
    case True
    from remove_only [of m p en x, OF en True] assms have "m' = m(p := None)" by simp
    with assms(1) show ?thesis by (auto simp: c2p_distinct_def)
  next
    case False
    from remove_from_list [of m p en x, OF en mem False] assms(2) obtain s' where
      "m' = m(p \<mapsto> Seq s')" and "seq_insts s' = remove1 x (entry_insts en)" by auto
    with assms(1) d show ?thesis by (auto simp: c2p_distinct_def)
  qed
qed


lemma seq_insts_single: "seq_insts s = [a] \<Longrightarrow> s = Node a None"
  by (cases s; cases "nxt s") (auto simp: seq_insts_nonempty)

lemma seq_insts_pair: "seq_insts s = [a, b] \<Longrightarrow> s = Node a (Some (Node b None))"
  by (cases s; cases "nxt s") (auto dest: seq_insts_single)

text \<open>
  Claim C9 (identity-map encoding). Registration: an address with no entry gets a direct
  pointer; an address that has an entry gets a tagged list holding the wrappers registered
  before followed by the new one; registering a wrapper that is already in the entry
  fails fatally. Removal: an entry whose only element is the wrapper is erased; from a list
  of several the first node of the wrapper is taken out and the value stays a tagged list,
  also when one element remains; a wrapper that is not in the entry is not found. When no
  entry lists a wrapper twice, registration and removal keep it so, a registered wrapper is
  in its entry exactly once, and a removed wrapper is in it no more.
\<close>

theorem inst_c2p_encoding:
  "(m v = None \<longrightarrow> inst_c2p_insert e m v self = Inr (m(v \<mapsto> Direct self)))
   \<and> (\<forall>en. m v = Some en \<and> self \<notin> set (entry_insts en) \<and> env_node_malloc e \<noteq> 0 \<longrightarrow>
          (\<exists>s'. inst_c2p_insert e m v self = Inr (m(v \<mapsto> Seq s')) \<and>
                seq_insts s' = entry_insts en @ [self]))
   \<and> (\<forall>en. m v = Some en \<and> self \<in> set (entry_insts en) \<longrightarrow>
          (\<exists>a b. inst_c2p_insert e m v self = Inl (Fatal a b)))
   \<and> (\<forall>en. m p = Some en \<and> entry_insts en = [x] \<longrightarrow>
          inst_c2p_remove m p x = Some (m(p := None)))
   \<and> (\<forall>en. m p = Some en \<and> x \<in> set (entry_insts en) \<and> entry_insts en \<noteq> [x] \<longrightarrow>
          (\<exists>s'. inst_c2p_remove m p x = Some (m(p \<mapsto> Seq s')) \<and>
                seq_insts s' = remove1 x (entry_insts en)))
   \<and> ((\<forall>en. m p = Some en \<longrightarrow> x \<notin> set (entry_insts en)) \<longrightarrow>
          inst_c2p_remove m p x = None)
   \<and> (c2p_distinct m \<and> inst_c2p_insert e m v self = Inr m' \<longrightarrow>
          c2p_distinct m' \<and> (\<exists>en. m' v = Some en \<and> count_list (entry_insts en) self = 1))
   \<and> (c2p_distinct m \<and> inst_c2p_remove m p x = Some m' \<longrightarrow>
          c2p_distinct m' \<and> (\<forall>en. m' p = Some en \<longrightarrow> x \<notin> set (entry_insts en)))"
proof -
  have c1: "m v = None \<longrightarrow> inst_c2p_insert e m v self = Inr (m(v \<mapsto> Direct self))"
    using insert_absent [of m v e self] by blast
  have c2: "\<forall>en. m v = Some en \<and> self \<notin> set (entry_insts en) \<and> env_node_malloc e \<noteq> 0 \<longrightarrow>
          (\<exists>s'. inst_c2p_insert e m v self = Inr (m(v \<mapsto> Seq s')) \<and>
                seq_insts s' = entry_insts en @ [self])"
    using insert_present [of m v _ self e] by blast
  have c3: "\<forall>en. m v = Some en \<and> self \<in> set (entry_insts en) \<longrightarrow>
          (\<exists>a b. inst_c2p_insert e m v self = Inl (Fatal a b))"
    using insert_duplicate [of m v _ self e] by blast
  have c4: "\<forall>en. m p = Some en \<and> entry_insts en = [x] \<longrightarrow>
          inst_c2p_remove m p x = Some (m(p := None))"
    using remove_only [of m p _ x] by blast
  have c5: "\<forall>en. m p = Some en \<and> x \<in> set (entry_insts en) \<and> entry_insts en \<noteq> [x] \<longrightarrow>
          (\<exists>s'. inst_c2p_remove m p x = Some (m(p \<mapsto> Seq s')) \<and>
                seq_insts s' = remove1 x (entry_insts en))"
    using remove_from_list [of m p _ x] by blast
  have c6: "(\<forall>en. m p = Some en \<longrightarrow> x \<notin> set (entry_insts en)) \<longrightarrow>
          inst_c2p_remove m p x = None"
    using remove_unknown [of m p x] by blast
  have c7: "c2p_distinct m \<and> inst_c2p_insert e m v self = Inr m' \<longrightarrow>
          c2p_distinct m' \<and> (\<exists>en. m' v = Some en \<and> count_list (entry_insts en) self = 1)"
    using insert_distinct [of m e v self m'] by blast
  have c8: "c2p_distinct m \<and> inst_c2p_remove m p x = Some m' \<longrightarrow>
          c2p_distinct m' \<and> (\<forall>en. m' p = Some en \<longrightarrow> x \<notin> set (entry_insts en))"
    using remove_distinct [of m p x m'] by blast
  show ?thesis by (rule conjI c1 c2 c3 c4 c5 c6 c7 c8)+
qed

theorem inst_c2p_encoding_witness:
  "inst_c2p_insert env0 Map.empty 100 200 = Inr c2p_one
   \<and> inst_c2p_insert env0 c2p_one 100 300 = Inr c2p_two
   \<and> (\<exists>a b. inst_c2p_insert env0 c2p_two 100 300 = Inl (Fatal a b))
   \<and> inst_c2p_remove c2p_one 100 200 = Some Map.empty
   \<and> inst_c2p_remove c2p_two 100 200 = Some [100 \<mapsto> Seq (Node 300 None)]
   \<and> inst_c2p_remove c2p_two 100 400 = None
   \<and> c2p_distinct c2p_two"
proof -
  have d0: "c2p_distinct Map.empty" by (simp add: c2p_distinct_def)
  have i1: "inst_c2p_insert env0 Map.empty 100 200 = Inr c2p_one"
    using inst_c2p_encoding [of Map.empty 100 env0 200] by (simp add: c2p_one_def)
  have d1: "c2p_distinct c2p_one"
    using inst_c2p_encoding [of Map.empty 100 env0 200 100 200 c2p_one] d0 i1 by blast
  have "\<exists>s'. inst_c2p_insert env0 c2p_one 100 300 = Inr (c2p_one(100 \<mapsto> Seq s')) \<and>
             seq_insts s' = [200, 300]"
    using inst_c2p_encoding [of c2p_one 100 env0 300] by (simp add: c2p_one_def env0_def)
  then obtain s' where i2': "inst_c2p_insert env0 c2p_one 100 300 = Inr (c2p_one(100 \<mapsto> Seq s'))"
    and "seq_insts s' = [200, 300]" by blast
  then have "s' = Node 200 (Some (Node 300 None))"
    by (simp add: seq_insts_pair)
  with i2' have i2: "inst_c2p_insert env0 c2p_one 100 300 = Inr c2p_two"
    by (simp add: c2p_one_def c2p_two_def)
  have d2: "c2p_distinct c2p_two"
    using inst_c2p_encoding [of c2p_one 100 env0 300 100 200 c2p_two] d1 i2 by blast
  have dup: "\<exists>a b. inst_c2p_insert env0 c2p_two 100 300 = Inl (Fatal a b)"
    using inst_c2p_encoding [of c2p_two 100 env0 300] by (simp add: c2p_two_def)
  have r1: "inst_c2p_remove c2p_one 100 200 = Some Map.empty"
    using inst_c2p_encoding [of c2p_one 100 env0 300 100 200] by (simp add: c2p_one_def)
  have "\<exists>s'. inst_c2p_remove c2p_two 100 200 = Some (c2p_two(100 \<mapsto> Seq s')) \<and>
             seq_insts s' = [300]"
    using inst_c2p_encoding [of c2p_two 100 env0 300 100 200] by (simp add: c2p_two_def)
  then obtain s'' where r2': "inst_c2p_remove c2p_two 100 200 = Some (c2p_two(100 \<mapsto> Seq s''))"
    and "seq_insts s'' = [300]" by blast
  then have "s'' = Node 300 None"
    by (simp add: seq_insts_single)
  with r2' have r2: "inst_c2p_remove c2p_two 100 200 = Some [100 \<mapsto> Seq (Node 300 None)]"
    by (simp add: c2p_two_def)
  have r3: "inst_c2p_remove c2p_two 100 400 = None"
    using inst_c2p_encoding [of c2p_two 100 env0 300 100 400] by (simp add: c2p_two_def)
  from i1 i2 dup r1 r2 r3 d2 show ?thesis by blast
qed

section \<open>Keep-alive edges: the second link of a pair\<close>

lemma keep_alive_find_append:
  "keep_alive_find patient (s @ [\<lparr>callback = 0, payload = patient\<rparr>])"
  by (induction s) auto

lemma set_keep_alive_same:
  "internals_keep_alive w nurse = Some s \<Longrightarrow> set_keep_alive w nurse s = w"
  by (simp add: set_keep_alive_def map_upd_triv)

lemma keep_alive_slot_set [simp]:
  "keep_alive_slot (set_keep_alive w nurse s) nurse = s"
  by (simp add: keep_alive_slot_def set_keep_alive_def)

lemma keep_alive_frame:
  assumes "keep_alive e w nurse patient = Inr w1" and "nb_type_check w (ob_type w nurse)"
  shows "ob_type w1 = ob_type w \<and> nb_meta w1 = nb_meta w \<and> Py_None w1 = Py_None w"
  using assms
  by (auto simp: keep_alive_def Let_def set_keep_alive_def mark_clear_keep_alive_def incref_def
           split: if_splits)

lemma keep_alive_found:
  assumes "keep_alive e w nurse patient = Inr w1" and "nb_type_check w (ob_type w nurse)"
    and "\<not> (patient = 0 \<or> nurse = 0 \<or> nurse = Py_None w \<or> patient = Py_None w)"
  shows "\<exists>s. internals_keep_alive w1 nurse = Some s \<and> keep_alive_find patient s"
  using assms
  by (auto simp: keep_alive_def Let_def set_keep_alive_def mark_clear_keep_alive_def incref_def
           keep_alive_find_append split: if_splits)

text \<open>
  Claim C6 (keep-alive idempotence). For a nurse that is a wrapper, after a call of
  \<^verbatim>\<open>keep_alive(nurse, patient)\<close> has returned, a second call with the same nurse and
  patient returns the state it was given, whatever the allocator would answer: no node is
  appended, the patient's reference count is not incremented again, and the keep-alive
  list is unchanged.
\<close>

theorem keep_alive_idempotent:
  assumes nb: "nb_type_check w (ob_type w nurse)"
    and first: "keep_alive e w nurse patient = Inr w1"
  shows "keep_alive e' w1 nurse patient = Inr w1"
proof (cases "patient = 0 \<or> nurse = 0 \<or> nurse = Py_None w \<or> patient = Py_None w")
  case True
  with first have "w1 = w" by (auto simp: keep_alive_def)
  with True show ?thesis by (auto simp: keep_alive_def)
next
  case False
  from keep_alive_frame [OF first nb] have fr: "ob_type w1 = ob_type w" "nb_meta w1 = nb_meta w"
    "Py_None w1 = Py_None w" by simp_all
  from keep_alive_found [OF first nb False] obtain s where
    s: "internals_keep_alive w1 nurse = Some s" and f: "keep_alive_find patient s" by blast
  have slot: "keep_alive_slot w1 nurse = s" using s by (simp add: keep_alive_slot_def)
  have nb1: "nb_type_check w1 (ob_type w1 nurse)" using nb fr by (simp add: nb_type_check_def)
  show ?thesis
    using False fr nb1 slot f set_keep_alive_same [OF s]
    by (simp add: keep_alive_def Let_def)
qed


theorem keep_alive_idempotent_witness:
  "\<exists>w1. nb_type_check world0 (ob_type world0 100) \<and>
         keep_alive env0 world0 100 200 = Inr w1 \<and>
         keep_alive env0 w1 100 200 = Inr w1 \<and>
         ob_refcnt w1 200 = 2 \<and>
         internals_keep_alive w1 100 = Some [\<lparr>callback = 0, payload = 200\<rparr>]"
proof -
  have nb: "nb_type_check world0 (ob_type world0 100)"
    by (simp add: nb_type_check_def world0_def)
  define w1 where "w1 = mark_clear_keep_alive
     (incref 200 (set_keep_alive (set_keep_alive world0 100 []) 100
        [\<lparr>callback = 0, payload = 200\<rparr>])) 100"
  have first: "keep_alive env0 world0 100 200 = Inr w1"
    by (simp add: keep_alive_def Let_def keep_alive_slot_def nb_type_check_def w1_def
        world0_def env0_def)
  have vals: "ob_refcnt w1 200 = 2 \<and>
              internals_keep_alive w1 100 = Some [\<lparr>callback = 0, payload = 200\<rparr>]"
    by (simp add: w1_def mark_clear_keep_alive_def incref_def set_keep_alive_def world0_def)
  from keep_alive_idempotent [OF nb first, of env0] nb first vals show ?thesis by blast
qed

section \<open>Deallocation: what a successful call does\<close>

lemma emit_simps [simp]:
  "trace (emit ev w) = trace w @ [ev]"
  "insts (emit ev w) = insts w"
  "inst_c2p (emit ev w) = inst_c2p w"
  "internals_keep_alive (emit ev w) = internals_keep_alive w"
  "ob_type (emit ev w) = ob_type w"
  "ob_refcnt (emit ev w) = ob_refcnt w"
  "cells (emit ev w) = cells w"
  "nb_type_data (emit ev w) = nb_type_data w"
  "has_gc (emit ev w) = has_gc w"
  by (simp_all add: emit_def)

lemma inst_ptr_emit [simp]: "inst_ptr (emit ev w) self = inst_ptr w self"
  by (simp add: inst_ptr_def Let_def)

lemma decref_simps [simp]:
  "trace (decref p w) = trace w @ [Py_DECREF p]"
  "insts (decref p w) = insts w"
  "inst_c2p (decref p w) = inst_c2p w"
  "internals_keep_alive (decref p w) = internals_keep_alive w"
  "ob_type (decref p w) = ob_type w"
  "cells (decref p w) = cells w"
  "nb_type_data (decref p w) = nb_type_data w"
  by (simp_all add: decref_def)

lemma release_node_simps [simp]:
  "trace (release_node c w) = trace w @ release_events [c]"
  "insts (release_node c w) = insts w"
  "inst_c2p (release_node c w) = inst_c2p w"
  "internals_keep_alive (release_node c w) = internals_keep_alive w"
  "ob_type (release_node c w) = ob_type w"
  "nb_type_data (release_node c w) = nb_type_data w"
  by (simp_all add: release_node_def release_events_def)

lemma release_events_Cons: "release_events (c # s) = release_events [c] @ release_events s"
  by (simp add: release_events_def)

lemma release_all_simps:
  "trace (release_all s w) = trace w @ release_events s
   \<and> insts (release_all s w) = insts w
   \<and> inst_c2p (release_all s w) = inst_c2p w
   \<and> internals_keep_alive (release_all s w) = internals_keep_alive w
   \<and> ob_type (release_all s w) = ob_type w
   \<and> nb_type_data (release_all s w) = nb_type_data w"
proof (induction s arbitrary: w)
  case Nil
  show ?case by (simp add: release_events_def)
next
  case (Cons c s)
  show ?case using Cons [of "release_node c w"] release_events_Cons [of c s] by simp
qed

lemma dealloc_destruct_Inr:
  "dealloc_destruct w tp t i p = Inr w3 \<Longrightarrow>
     w3 = (if destruct i \<and> has_destruct \<in> t_flags t then emit (Call_destruct tp p) w else w)
     \<and> (destruct i \<longrightarrow> is_destructible \<in> t_flags t)"
  by (auto simp: dealloc_destruct_def split: if_splits)

lemma dealloc_keep_alive_Inr:
  "dealloc_keep_alive w self t i = Inr w5 \<Longrightarrow>
     (if clear_keep_alive i
      then \<exists>s. internals_keep_alive w self = Some s \<and> s \<noteq> [] \<and>
               w5 = release_all s (emit (Keep_alive_erase self)
                      (w\<lparr>internals_keep_alive := (internals_keep_alive w)(self := None)\<rparr>))
      else w5 = w)"
  by (auto simp: dealloc_keep_alive_def split: if_splits option.splits)

lemma dealloc_c2p_Inr:
  "dealloc_c2p w self t p = Inr w6 \<Longrightarrow>
     \<exists>m. inst_c2p_remove (inst_c2p w) p self = Some m \<and>
         w6 = emit (Inst_c2p_erase p self) (w\<lparr>inst_c2p := m\<rparr>)"
  by (auto simp: dealloc_c2p_def split: option.splits)


lemma inst_dealloc_steps:
  assumes "inst_dealloc w self = Inr w'"
  shows "\<exists>w2 w3 w5 w6.
     w2 = (if has_dynamic_attr \<in> t_flags (nb_type_data w (ob_type w self))
           then emit (Py_CLEAR_dict self)
                  (if has_gc w (ob_type w self) then emit (PyObject_GC_UnTrack self) w else w)
           else (if has_gc w (ob_type w self) then emit (PyObject_GC_UnTrack self) w else w)) \<and>
     dealloc_destruct w2 (ob_type w self) (nb_type_data w (ob_type w self)) (insts w self)
        (inst_ptr w self) = Inr w3 \<and>
     dealloc_keep_alive
        (dealloc_delete w3 (nb_type_data w (ob_type w self)) (insts w self) (inst_ptr w self))
        self (nb_type_data w (ob_type w self)) (insts w self) = Inr w5 \<and>
     dealloc_c2p w5 self (nb_type_data w (ob_type w self)) (inst_ptr w self) = Inr w6 \<and>
     w' = decref (ob_type w self) (emit (Free_object self) w6)"
  using assms
  by (auto simp: inst_dealloc_def Let_def split: sum.splits if_splits)


lemma dealloc_delete_simps [simp]:
  "trace (dealloc_delete w t i p) = trace w @
     (if cpp_delete i
      then [if t_align t \<le> default_new_alignment then Operator_delete p
            else Operator_delete_aligned p (t_align t)]
      else [])"
  "internals_keep_alive (dealloc_delete w t i p) = internals_keep_alive w"
  "inst_c2p (dealloc_delete w t i p) = inst_c2p w"
  by (simp_all add: dealloc_delete_def)

lemma inst_dealloc_Inr:
  assumes ok: "inst_dealloc w self = Inr w'"
  shows "trace w' = trace w @
           dealloc_events (has_gc w (ob_type w self)) (nb_type_data w (ob_type w self))
             (insts w self) (ob_type w self) self (inst_ptr w self) (keep_alive_slot w self)"
    and "destruct (insts w self) \<longrightarrow> is_destructible \<in> t_flags (nb_type_data w (ob_type w self))"
    and "clear_keep_alive (insts w self) \<longrightarrow>
           (\<exists>s. internals_keep_alive w self = Some s \<and> s \<noteq> []) \<and>
           internals_keep_alive w' self = None"
    and "inst_c2p_remove (inst_c2p w) (inst_ptr w self) self = Some (inst_c2p w')"
proof -
  let ?tp = "ob_type w self"
  let ?t = "nb_type_data w ?tp"
  let ?i = "insts w self"
  let ?p = "inst_ptr w self"
  from inst_dealloc_steps [OF ok] obtain w2 w3 w5 w6 where
    w2: "w2 = (if has_dynamic_attr \<in> t_flags ?t
           then emit (Py_CLEAR_dict self)
                  (if has_gc w ?tp then emit (PyObject_GC_UnTrack self) w else w)
           else (if has_gc w ?tp then emit (PyObject_GC_UnTrack self) w else w))"
    and s3: "dealloc_destruct w2 ?tp ?t ?i ?p = Inr w3"
    and s5: "dealloc_keep_alive (dealloc_delete w3 ?t ?i ?p) self ?t ?i = Inr w5"
    and s6: "dealloc_c2p w5 self ?t ?p = Inr w6"
    and w': "w' = decref ?tp (emit (Free_object self) w6)"
    by blast
  have t2: "trace w2 = trace w @ (if has_gc w ?tp then [PyObject_GC_UnTrack self] else []) @
              (if has_dynamic_attr \<in> t_flags ?t then [Py_CLEAR_dict self] else [])"
    and k2: "internals_keep_alive w2 = internals_keep_alive w"
    and c2: "inst_c2p w2 = inst_c2p w"
    using w2 by simp_all
  from dealloc_destruct_Inr [OF s3] have
    w3: "w3 = (if destruct ?i \<and> has_destruct \<in> t_flags ?t then emit (Call_destruct ?tp ?p) w2 else w2)"
    and d: "destruct ?i \<longrightarrow> is_destructible \<in> t_flags ?t" by simp_all
  have t3: "trace w3 = trace w2 @
              (if destruct ?i \<and> has_destruct \<in> t_flags ?t then [Call_destruct ?tp ?p] else [])"
    and k3: "internals_keep_alive w3 = internals_keep_alive w2"
    and c3: "inst_c2p w3 = inst_c2p w2"
    using w3 by simp_all
  let ?w4 = "dealloc_delete w3 ?t ?i ?p"
  have t5: "trace w5 = trace ?w4 @
              (if clear_keep_alive ?i then Keep_alive_erase self # release_events (keep_alive_slot w self)
               else [])"
    and k5: "clear_keep_alive ?i \<longrightarrow>
               (\<exists>s. internals_keep_alive w self = Some s \<and> s \<noteq> []) \<and>
               internals_keep_alive w5 self = None"
    and c5: "inst_c2p w5 = inst_c2p w"
    using dealloc_keep_alive_Inr [OF s5] k2 k3 c2 c3
    by (auto simp: release_all_simps keep_alive_slot_def split: if_splits)
  from dealloc_c2p_Inr [OF s6] obtain m where
    m: "inst_c2p_remove (inst_c2p w5) ?p self = Some m"
    and w6: "w6 = emit (Inst_c2p_erase ?p self) (w5\<lparr>inst_c2p := m\<rparr>)" by blast
  show "trace w' = trace w @
           dealloc_events (has_gc w ?tp) ?t ?i ?tp self ?p (keep_alive_slot w self)"
    using w' w6 t5 t3 t2 by (simp add: dealloc_events_def)
  show "destruct ?i \<longrightarrow> is_destructible \<in> t_flags ?t" by (rule d)
  show "clear_keep_alive ?i \<longrightarrow>
           (\<exists>s. internals_keep_alive w self = Some s \<and> s \<noteq> []) \<and>
           internals_keep_alive w' self = None"
    using k5 w' w6 by simp
  show "inst_c2p_remove (inst_c2p w) ?p self = Some (inst_c2p w')"
    using m c5 w' w6 by simp
qed

lemma dealloc_destruct_ok:
  "destruct i \<longrightarrow> is_destructible \<in> t_flags t \<Longrightarrow>
   dealloc_destruct w tp t i p =
     Inr (if destruct i \<and> has_destruct \<in> t_flags t then emit (Call_destruct tp p) w else w)"
  by (auto simp: dealloc_destruct_def)

lemma dealloc_keep_alive_ok:
  "clear_keep_alive i \<longrightarrow> (\<exists>s. internals_keep_alive w self = Some s \<and> s \<noteq> []) \<Longrightarrow>
   \<exists>w5. dealloc_keep_alive w self t i = Inr w5 \<and> inst_c2p w5 = inst_c2p w"
  by (auto simp: dealloc_keep_alive_def release_all_simps)

lemma inst_dealloc_total:
  assumes d: "destruct (insts w self) \<longrightarrow> is_destructible \<in> t_flags (nb_type_data w (ob_type w self))"
    and k: "clear_keep_alive (insts w self) \<longrightarrow> (\<exists>s. internals_keep_alive w self = Some s \<and> s \<noteq> [])"
    and m: "inst_c2p_remove (inst_c2p w) (inst_ptr w self) self \<noteq> None"
  shows "\<exists>w'. inst_dealloc w self = Inr w'"
proof -
  let ?tp = "ob_type w self"
  let ?t = "nb_type_data w ?tp"
  let ?i = "insts w self"
  let ?p = "inst_ptr w self"
  define w2 where "w2 = (if has_dynamic_attr \<in> t_flags ?t
           then emit (Py_CLEAR_dict self)
                  (if has_gc w ?tp then emit (PyObject_GC_UnTrack self) w else w)
           else (if has_gc w ?tp then emit (PyObject_GC_UnTrack self) w else w))"
  define w3 where "w3 = (if destruct ?i \<and> has_destruct \<in> t_flags ?t
                         then emit (Call_destruct ?tp ?p) w2 else w2)"
  have f2: "insts w2 = insts w" "inst_c2p w2 = inst_c2p w" "internals_keep_alive w2 = internals_keep_alive w"
    "inst_ptr w2 self = inst_ptr w self"
    by (simp_all add: w2_def)
  have s3: "dealloc_destruct w2 ?tp ?t ?i ?p = Inr w3"
    using dealloc_destruct_ok [OF d] by (simp add: w3_def)
  have f3: "inst_c2p w3 = inst_c2p w" "internals_keep_alive w3 = internals_keep_alive w"
    using f2 by (simp_all add: w3_def)
  let ?w4 = "dealloc_delete w3 ?t ?i ?p"
  have "clear_keep_alive ?i \<longrightarrow> (\<exists>s. internals_keep_alive ?w4 self = Some s \<and> s \<noteq> [])"
    using k f3 by simp
  from dealloc_keep_alive_ok [OF this, of ?t] obtain w5 where
    s5: "dealloc_keep_alive ?w4 self ?t ?i = Inr w5" and c5: "inst_c2p w5 = inst_c2p w"
    using f3 by auto
  from m obtain mm where mm: "inst_c2p_remove (inst_c2p w) ?p self = Some mm" by blast
  have s6: "dealloc_c2p w5 self ?t ?p = Inr (emit (Inst_c2p_erase ?p self) (w5\<lparr>inst_c2p := mm\<rparr>))"
    using mm c5 by (simp add: dealloc_c2p_def)
  have "inst_dealloc w self =
          Inr (decref ?tp (emit (Free_object self) (emit (Inst_c2p_erase ?p self) (w5\<lparr>inst_c2p := mm\<rparr>))))"
    using s3 s5 s6 f2 unfolding inst_dealloc_def Let_def w2_def [symmetric]
    by (simp add: w2_def [symmetric])
  then show ?thesis by blast
qed

section \<open>Deallocation: the sequence of steps\<close>

lemma inst_dealloc_not_destructible:
  assumes "destruct (insts w self)"
    and "is_destructible \<notin> t_flags (nb_type_data w (ob_type w self))"
  shows "inst_dealloc w self =
           Inl (Fatal ''inst_dealloc(): attempted to call the destructor of a non-destructible type!''
                  (t_name (nb_type_data w (ob_type w self))))"
  using assms by (simp add: inst_dealloc_def Let_def dealloc_destruct_def)

lemma inst_dealloc_unknown:
  assumes d: "destruct (insts w self) \<longrightarrow> is_destructible \<in> t_flags (nb_type_data w (ob_type w self))"
    and k: "clear_keep_alive (insts w self) \<longrightarrow> (\<exists>s. internals_keep_alive w self = Some s \<and> s \<noteq> [])"
    and m: "inst_c2p_remove (inst_c2p w) (inst_ptr w self) self = None"
  shows "inst_dealloc w self =
           Inl (Fatal ''inst_dealloc(): attempted to delete an unknown instance!''
                  (t_name (nb_type_data w (ob_type w self))))"
proof -
  let ?tp = "ob_type w self"
  let ?t = "nb_type_data w ?tp"
  let ?i = "insts w self"
  let ?p = "inst_ptr w self"
  define w2 where "w2 = (if has_dynamic_attr \<in> t_flags ?t
           then emit (Py_CLEAR_dict self)
                  (if has_gc w ?tp then emit (PyObject_GC_UnTrack self) w else w)
           else (if has_gc w ?tp then emit (PyObject_GC_UnTrack self) w else w))"
  define w3 where "w3 = (if destruct ?i \<and> has_destruct \<in> t_flags ?t
                         then emit (Call_destruct ?tp ?p) w2 else w2)"
  have f2: "insts w2 = insts w" "inst_c2p w2 = inst_c2p w" "internals_keep_alive w2 = internals_keep_alive w"
    "inst_ptr w2 self = inst_ptr w self"
    by (simp_all add: w2_def)
  have s3: "dealloc_destruct w2 ?tp ?t ?i ?p = Inr w3"
    using dealloc_destruct_ok [OF d] by (simp add: w3_def)
  have f3: "inst_c2p w3 = inst_c2p w" "internals_keep_alive w3 = internals_keep_alive w"
    using f2 by (simp_all add: w3_def)
  let ?w4 = "dealloc_delete w3 ?t ?i ?p"
  have "clear_keep_alive ?i \<longrightarrow> (\<exists>s. internals_keep_alive ?w4 self = Some s \<and> s \<noteq> [])"
    using k f3 by simp
  from dealloc_keep_alive_ok [OF this, of ?t] obtain w5 where
    s5: "dealloc_keep_alive ?w4 self ?t ?i = Inr w5" and c5: "inst_c2p w5 = inst_c2p w"
    using f3 by auto
  have s6: "dealloc_c2p w5 self ?t ?p =
              Inl (Fatal ''inst_dealloc(): attempted to delete an unknown instance!'' (t_name ?t))"
    using m c5 by (simp add: dealloc_c2p_def)
  show ?thesis
    using s3 s5 s6 f2 unfolding inst_dealloc_def Let_def w2_def [symmetric]
    by (simp add: w2_def [symmetric])
qed

text \<open>
  Claim C2 (deallocation sequence), amended in step (2). A deallocation that returns has
  made exactly these calls, in this order: the removal from garbage-collector tracking
  (for a type with that support); (1) the clearing of the dictionary, when the type has
  dynamic attributes; (2) the destructor function, when the \<^verbatim>\<open>destruct\<close> flag is set and
  the type has a destructor function (\<^verbatim>\<open>has_destruct\<close>); (3) the release of the payload,
  aligned or not as the type's alignment requires, when \<^verbatim>\<open>cpp_delete\<close> is set; (4) the
  erasure of the keep-alive entry and the release of each of its edges, when
  \<^verbatim>\<open>clear_keep_alive\<close> is set; (5) the removal of the wrapper from its identity-map entry;
  (6) the freeing of the object; then the release of the type. It fails fatally when
  \<^verbatim>\<open>destruct\<close> is set and the type is not destructible, and when the identity map has no
  entry for the wrapper; when neither is the case and a wrapper with \<^verbatim>\<open>clear_keep_alive\<close>
  has a keep-alive list, it returns.
\<close>

theorem inst_dealloc_sequence:
  "(inst_dealloc w self = Inr w' \<longrightarrow>
      trace w' = trace w @
        dealloc_events (has_gc w (ob_type w self)) (nb_type_data w (ob_type w self))
          (insts w self) (ob_type w self) self (inst_ptr w self) (keep_alive_slot w self) \<and>
      inst_c2p_remove (inst_c2p w) (inst_ptr w self) self = Some (inst_c2p w'))
   \<and> (destruct (insts w self) \<and> is_destructible \<notin> t_flags (nb_type_data w (ob_type w self)) \<longrightarrow>
        inst_dealloc w self =
          Inl (Fatal ''inst_dealloc(): attempted to call the destructor of a non-destructible type!''
                 (t_name (nb_type_data w (ob_type w self)))))
   \<and> ((destruct (insts w self) \<longrightarrow> is_destructible \<in> t_flags (nb_type_data w (ob_type w self))) \<and>
        (clear_keep_alive (insts w self) \<longrightarrow> (\<exists>s. internals_keep_alive w self = Some s \<and> s \<noteq> [])) \<and>
        inst_c2p_remove (inst_c2p w) (inst_ptr w self) self = None \<longrightarrow>
        inst_dealloc w self =
          Inl (Fatal ''inst_dealloc(): attempted to delete an unknown instance!''
                 (t_name (nb_type_data w (ob_type w self)))))
   \<and> ((destruct (insts w self) \<longrightarrow> is_destructible \<in> t_flags (nb_type_data w (ob_type w self))) \<and>
        (clear_keep_alive (insts w self) \<longrightarrow> (\<exists>s. internals_keep_alive w self = Some s \<and> s \<noteq> [])) \<and>
        inst_c2p_remove (inst_c2p w) (inst_ptr w self) self \<noteq> None \<longrightarrow>
        (\<exists>w1. inst_dealloc w self = Inr w1))"
proof -
  have c1: "inst_dealloc w self = Inr w' \<longrightarrow>
      trace w' = trace w @
        dealloc_events (has_gc w (ob_type w self)) (nb_type_data w (ob_type w self))
          (insts w self) (ob_type w self) self (inst_ptr w self) (keep_alive_slot w self) \<and>
      inst_c2p_remove (inst_c2p w) (inst_ptr w self) self = Some (inst_c2p w')"
    using inst_dealloc_Inr(1,4) [of w self w'] by blast
  have c2: "destruct (insts w self) \<and> is_destructible \<notin> t_flags (nb_type_data w (ob_type w self)) \<longrightarrow>
        inst_dealloc w self =
          Inl (Fatal ''inst_dealloc(): attempted to call the destructor of a non-destructible type!''
                 (t_name (nb_type_data w (ob_type w self))))"
    using inst_dealloc_not_destructible [of w self] by blast
  have c3: "(destruct (insts w self) \<longrightarrow> is_destructible \<in> t_flags (nb_type_data w (ob_type w self))) \<and>
        (clear_keep_alive (insts w self) \<longrightarrow> (\<exists>s. internals_keep_alive w self = Some s \<and> s \<noteq> [])) \<and>
        inst_c2p_remove (inst_c2p w) (inst_ptr w self) self = None \<longrightarrow>
        inst_dealloc w self =
          Inl (Fatal ''inst_dealloc(): attempted to delete an unknown instance!''
                 (t_name (nb_type_data w (ob_type w self))))"
    using inst_dealloc_unknown [of w self] by blast
  have c4: "(destruct (insts w self) \<longrightarrow> is_destructible \<in> t_flags (nb_type_data w (ob_type w self))) \<and>
        (clear_keep_alive (insts w self) \<longrightarrow> (\<exists>s. internals_keep_alive w self = Some s \<and> s \<noteq> [])) \<and>
        inst_c2p_remove (inst_c2p w) (inst_ptr w self) self \<noteq> None \<longrightarrow>
        (\<exists>w1. inst_dealloc w self = Inr w1)"
    using inst_dealloc_total [of w self] by blast
  show ?thesis by (rule conjI c1 c2 c3 c4)+
qed

lemmas dealloc_defs = inst_dealloc_def dealloc_destruct_def dealloc_delete_def
  dealloc_keep_alive_def dealloc_c2p_def inst_c2p_remove_def inst_ptr_def Let_def
  emit_def decref_def

theorem inst_dealloc_sequence_witness:
  "(\<exists>w1. inst_dealloc world1 100 = Inr w1 \<and>
      trace w1 = [Call_destruct 4096 124, Inst_c2p_erase 124 100, Free_object 100, Py_DECREF 4096] \<and>
      inst_c2p w1 = Map.empty)
   \<and> inst_dealloc world_nondestructible 100 =
        Inl (Fatal ''inst_dealloc(): attempted to call the destructor of a non-destructible type!''
               ''Point'')
   \<and> inst_dealloc world0 100 =
        Inl (Fatal ''inst_dealloc(): attempted to delete an unknown instance!'' ''Point'')"
proof -
  have f1: "destruct (insts world1 100)" "is_destructible \<in> t_flags (nb_type_data world1 (ob_type world1 100))"
    "\<not> clear_keep_alive (insts world1 100)" "inst_ptr world1 100 = 124"
    "inst_c2p_remove (inst_c2p world1) 124 100 = Some Map.empty"
    by (simp_all add: world1_def world0_def Point_def inst_ptr_def inst_c2p_remove_def)
  from inst_dealloc_sequence [of world1 100] f1 obtain w1 where ok: "inst_dealloc world1 100 = Inr w1"
    by auto
  have ev: "dealloc_events (has_gc world1 (ob_type world1 100)) (nb_type_data world1 (ob_type world1 100))
          (insts world1 100) (ob_type world1 100) 100 124 (keep_alive_slot world1 100)
        = [Call_destruct 4096 124, Inst_c2p_erase 124 100, Free_object 100, Py_DECREF 4096]"
    by (simp add: dealloc_events_def world1_def world0_def Point_def)
  have tr: "trace world1 = []" by (simp add: world1_def world0_def)
  from inst_dealloc_sequence [of world1 100 w1] ok f1 ev tr
  have a: "trace w1 = [Call_destruct 4096 124, Inst_c2p_erase 124 100, Free_object 100, Py_DECREF 4096]
           \<and> inst_c2p w1 = Map.empty"
    by simp
  have f2: "destruct (insts world_nondestructible 100)"
    "is_destructible \<notin> t_flags (nb_type_data world_nondestructible (ob_type world_nondestructible 100))"
    "t_name (nb_type_data world_nondestructible (ob_type world_nondestructible 100)) = ''Point''"
    by (simp_all add: world_nondestructible_def world1_def world0_def Point_def)
  from inst_dealloc_sequence [of world_nondestructible 100] f2
  have b: "inst_dealloc world_nondestructible 100 =
        Inl (Fatal ''inst_dealloc(): attempted to call the destructor of a non-destructible type!''
               ''Point'')"
    by simp
  have f3: "\<not> destruct (insts world0 100)" "\<not> clear_keep_alive (insts world0 100)"
    "inst_c2p_remove (inst_c2p world0) (inst_ptr world0 100) 100 = None"
    "t_name (nb_type_data world0 (ob_type world0 100)) = ''Point''"
    by (simp_all add: world0_def Point_def zero_inst_def inst_c2p_remove_def)
  from inst_dealloc_sequence [of world0 100] f3
  have c: "inst_dealloc world0 100 =
        Inl (Fatal ''inst_dealloc(): attempted to delete an unknown instance!'' ''Point'')"
    by simp
  from ok a b c show ?thesis by blast
qed

text \<open>
  Claim C2 as stated fails for a wrapper of a trivially destructible type: the \<^verbatim>\<open>destruct\<close>
  flag is set and the type is destructible, and the deallocation returns without a
  destructor call, since the type has no destructor function.
\<close>

theorem inst_dealloc_counterexample:
  "destruct (insts world_trivial 100)
   \<and> is_destructible \<in> t_flags (nb_type_data world_trivial (ob_type world_trivial 100))
   \<and> map_sum id trace (inst_dealloc world_trivial 100) =
       Inr [Inst_c2p_erase 124 100, Free_object 100, Py_DECREF 4096]"
  by (simp add: world_trivial_def world1_def world0_def Point_def dealloc_defs)

section \<open>Keep-alive edges: release at deallocation\<close>

lemma mark_clear_keep_alive_simps [simp]:
  "trace (mark_clear_keep_alive w n) = trace w"
  "inst_c2p (mark_clear_keep_alive w n) = inst_c2p w"
  "internals_keep_alive (mark_clear_keep_alive w n) = internals_keep_alive w"
  "ob_type (mark_clear_keep_alive w n) = ob_type w"
  "nb_meta (mark_clear_keep_alive w n) = nb_meta w"
  "clear_keep_alive (insts (mark_clear_keep_alive w n) n)"
  by (simp_all add: mark_clear_keep_alive_def)

lemma set_keep_alive_simps [simp]:
  "trace (set_keep_alive w n s) = trace w"
  "inst_c2p (set_keep_alive w n s) = inst_c2p w"
  "internals_keep_alive (set_keep_alive w n s) = (internals_keep_alive w)(n \<mapsto> s)"
  "ob_type (set_keep_alive w n s) = ob_type w"
  "nb_meta (set_keep_alive w n s) = nb_meta w"
  "insts (set_keep_alive w n s) = insts w"
  by (simp_all add: set_keep_alive_def)

lemma same_but_keep_alive_refl: "same_but_keep_alive w w nurse"
proof -
  have "insts w = (insts w)(nurse := (insts w nurse)\<lparr>clear_keep_alive := clear_keep_alive (insts w nurse)\<rparr>)"
    by simp
  then show ?thesis unfolding same_but_keep_alive_def by blast
qed

lemma same_but_keep_alive_trans:
  assumes "same_but_keep_alive w w1 nurse" and "same_but_keep_alive w1 w2 nurse"
  shows "same_but_keep_alive w w2 nurse"
proof -
  from assms(1) obtain b where b: "insts w1 = (insts w)(nurse := (insts w nurse)\<lparr>clear_keep_alive := b\<rparr>)"
    unfolding same_but_keep_alive_def by blast
  from assms(2) obtain c where c: "insts w2 = (insts w1)(nurse := (insts w1 nurse)\<lparr>clear_keep_alive := c\<rparr>)"
    unfolding same_but_keep_alive_def by blast
  from b c have "insts w2 = (insts w)(nurse := (insts w nurse)\<lparr>clear_keep_alive := c\<rparr>)"
    by simp
  then have "\<exists>b. insts w2 = (insts w)(nurse := (insts w nurse)\<lparr>clear_keep_alive := b\<rparr>)" by blast
  with assms show ?thesis unfolding same_but_keep_alive_def by simp
qed

lemma same_but_keep_alive_inst_ptr:
  assumes "same_but_keep_alive w w1 nurse"
  shows "inst_ptr w1 x = inst_ptr w x" and "destruct (insts w1 x) = destruct (insts w x)"
    and "cpp_delete (insts w1 x) = cpp_delete (insts w x)"
proof -
  from assms obtain b where b: "insts w1 = (insts w)(nurse := (insts w nurse)\<lparr>clear_keep_alive := b\<rparr>)"
    and c: "cells w1 = cells w"
    unfolding same_but_keep_alive_def by blast
  show "inst_ptr w1 x = inst_ptr w x" using b c by (simp add: inst_ptr_def Let_def)
  show "destruct (insts w1 x) = destruct (insts w x)" using b by simp
  show "cpp_delete (insts w1 x) = cpp_delete (insts w x)" using b by simp
qed

lemma keep_alive_cb_wrapper:
  assumes "nb_type_check w (ob_type w nurse)" and "nurse \<noteq> 0" and "env_node_malloc e \<noteq> 0"
  shows "\<exists>w1. keep_alive_cb e w nurse pl cb = Inr w1 \<and>
           internals_keep_alive w1 nurse = Some (weakref_of (pl, cb) # keep_alive_slot w nurse) \<and>
           clear_keep_alive (insts w1 nurse) \<and>
           same_but_keep_alive w w1 nurse"
proof -
  let ?w1 = "mark_clear_keep_alive
     (set_keep_alive (set_keep_alive w nurse (keep_alive_slot w nurse)) nurse
        (\<lparr>callback = cb, payload = pl\<rparr> # keep_alive_slot w nurse)) nurse"
  have "keep_alive_cb e w nurse pl cb = Inr ?w1"
    using assms by (simp add: keep_alive_cb_def Let_def)
  moreover have "internals_keep_alive ?w1 nurse = Some (weakref_of (pl, cb) # keep_alive_slot w nurse)"
    by (simp add: weakref_of_def)
  moreover have "clear_keep_alive (insts ?w1 nurse)" by simp
  moreover have "same_but_keep_alive w ?w1 nurse"
  proof -
    have "insts ?w1 = (insts w)(nurse := (insts w nurse)\<lparr>clear_keep_alive := True\<rparr>)"
      by (simp add: mark_clear_keep_alive_def set_keep_alive_def)
    then have "\<exists>b. insts ?w1 = (insts w)(nurse := (insts w nurse)\<lparr>clear_keep_alive := b\<rparr>)"
      by blast
    then show ?thesis
      unfolding same_but_keep_alive_def
      by (simp add: mark_clear_keep_alive_def set_keep_alive_def)
  qed
  ultimately show ?thesis by blast
qed

lemma same_but_keep_alive_nb_type_check:
  "same_but_keep_alive w w1 nurse \<Longrightarrow> nb_type_check w1 (ob_type w1 x) = nb_type_check w (ob_type w x)"
  by (simp add: same_but_keep_alive_def nb_type_check_def)

lemma keep_alive_cb_all_wrapper:
  assumes "nb_type_check w (ob_type w nurse)" and "nurse \<noteq> 0" and "env_node_malloc e \<noteq> 0"
  shows "\<exists>w1. keep_alive_cb_all e w nurse regs = Inr w1 \<and>
           keep_alive_slot w1 nurse = map weakref_of (rev regs) @ keep_alive_slot w nurse \<and>
           (regs \<noteq> [] \<longrightarrow> clear_keep_alive (insts w1 nurse) \<and>
              internals_keep_alive w1 nurse \<noteq> None) \<and>
           same_but_keep_alive w w1 nurse"
  using assms(1)
proof (induction regs arbitrary: w)
  case Nil
  show ?case by (simp add: same_but_keep_alive_refl)
next
  case (Cons r regs)
  obtain pl cb where r: "r = (pl, cb)" by (cases r)
  from keep_alive_cb_wrapper [OF Cons.prems assms(2,3), of pl cb] obtain w1 where
    a: "keep_alive_cb e w nurse pl cb = Inr w1"
    and b: "internals_keep_alive w1 nurse = Some (weakref_of (pl, cb) # keep_alive_slot w nurse)"
    and c: "clear_keep_alive (insts w1 nurse)"
    and d: "same_but_keep_alive w w1 nurse"
    by blast
  have nb: "nb_type_check w1 (ob_type w1 nurse)"
    using same_but_keep_alive_nb_type_check [OF d] Cons.prems by simp
  from Cons.IH [OF nb] obtain w2 where
    a2: "keep_alive_cb_all e w1 nurse regs = Inr w2"
    and b2: "keep_alive_slot w2 nurse = map weakref_of (rev regs) @ keep_alive_slot w1 nurse"
    and c2: "regs \<noteq> [] \<longrightarrow> clear_keep_alive (insts w2 nurse) \<and> internals_keep_alive w2 nurse \<noteq> None"
    and d2: "same_but_keep_alive w1 w2 nurse"
    by blast
  have "clear_keep_alive (insts w2 nurse) \<and> internals_keep_alive w2 nurse \<noteq> None"
  proof (cases regs)
    case Nil
    with a2 b c show ?thesis by simp
  next
    case Cons
    with c2 show ?thesis by simp
  qed
  moreover note same_but_keep_alive_trans [OF d d2]
  ultimately show ?case using a a2 b b2 r by (simp add: keep_alive_slot_def)
qed

lemma filter_callback_release_events:
  "\<forall>c \<in> set s. callback c \<noteq> 0 \<Longrightarrow>
   filter is_callback (release_events s) = map (\<lambda>c. Call_callback (callback c) (payload c)) s"
  by (induction s) (simp_all add: release_events_def is_callback_def)

lemma dealloc_events_split:
  "\<exists>pre. dealloc_events gc t i tp self p s =
           pre @ (if clear_keep_alive i then Keep_alive_erase self # release_events s else []) @
           [Inst_c2p_erase p self, Free_object self, Py_DECREF tp] \<and>
         (\<forall>ev \<in> set pre. \<not> is_release ev \<and> \<not> is_callback ev)"
proof -
  let ?pre = "(if gc then [PyObject_GC_UnTrack self] else []) @
     (if has_dynamic_attr \<in> t_flags t then [Py_CLEAR_dict self] else []) @
     (if destruct i \<and> has_destruct \<in> t_flags t then [Call_destruct tp p] else []) @
     (if cpp_delete i
      then [if t_align t \<le> default_new_alignment then Operator_delete p
            else Operator_delete_aligned p (t_align t)]
      else [])"
  have "dealloc_events gc t i tp self p s =
           ?pre @ (if clear_keep_alive i then Keep_alive_erase self # release_events s else []) @
           [Inst_c2p_erase p self, Free_object self, Py_DECREF tp]"
    by (simp add: dealloc_events_def)
  moreover have "\<forall>ev \<in> set ?pre. \<not> is_release ev \<and> \<not> is_callback ev"
    by (auto simp: is_release_def is_callback_def)
  ultimately show ?thesis by blast
qed

lemma decref_refcnt:
  "ob_refcnt (decref p w) = (ob_refcnt w)(p := ob_refcnt w p - 1)"
  by (simp add: decref_def)

lemma release_node_refcnt:
  "ob_refcnt (release_node c w) x =
     ob_refcnt w x - (if callback c = 0 \<and> payload c = x then 1 else 0)"
  by (simp add: release_node_def decref_refcnt)

lemma release_all_refcnt:
  "ob_refcnt (release_all s w) x = ob_refcnt w x - int (held_references s x)"
proof (induction s arbitrary: w)
  case Nil
  show ?case by (simp add: held_references_def)
next
  case (Cons c s)
  have "ob_refcnt (release_all (c # s) w) x =
          ob_refcnt (release_node c w) x - int (held_references s x)"
    using Cons [of "release_node c w"] by simp
  also have "\<dots> = ob_refcnt w x - int (held_references (c # s) x)"
    by (simp add: release_node_refcnt held_references_def)
  finally show ?case .
qed

lemma dealloc_delete_refcnt: "ob_refcnt (dealloc_delete w t i p) = ob_refcnt w"
  by (simp add: dealloc_delete_def)

text \<open>The reference counts after a deallocation: every edge without callback has released
  its reference to the patient, and the reference to the type is released.\<close>

lemma inst_dealloc_refcnt:
  assumes ok: "inst_dealloc w self = Inr w'"
  shows "ob_refcnt w' x =
           ob_refcnt w x
           - (if clear_keep_alive (insts w self)
              then int (held_references (keep_alive_slot w self) x) else 0)
           - (if x = ob_type w self then 1 else 0)"
proof -
  let ?tp = "ob_type w self"
  let ?t = "nb_type_data w ?tp"
  let ?i = "insts w self"
  let ?p = "inst_ptr w self"
  from inst_dealloc_steps [OF ok] obtain w2 w3 w5 w6 where
    w2: "w2 = (if has_dynamic_attr \<in> t_flags ?t
           then emit (Py_CLEAR_dict self)
                  (if has_gc w ?tp then emit (PyObject_GC_UnTrack self) w else w)
           else (if has_gc w ?tp then emit (PyObject_GC_UnTrack self) w else w))"
    and s3: "dealloc_destruct w2 ?tp ?t ?i ?p = Inr w3"
    and s5: "dealloc_keep_alive (dealloc_delete w3 ?t ?i ?p) self ?t ?i = Inr w5"
    and s6: "dealloc_c2p w5 self ?t ?p = Inr w6"
    and w': "w' = decref ?tp (emit (Free_object self) w6)"
    by blast
  have r2: "ob_refcnt w2 = ob_refcnt w" and k2: "internals_keep_alive w2 = internals_keep_alive w"
    using w2 by simp_all
  from dealloc_destruct_Inr [OF s3] have
    w3: "w3 = (if destruct ?i \<and> has_destruct \<in> t_flags ?t then emit (Call_destruct ?tp ?p) w2 else w2)"
    by simp
  have r3: "ob_refcnt w3 = ob_refcnt w" and k3: "internals_keep_alive w3 = internals_keep_alive w"
    using w3 r2 k2 by simp_all
  let ?w4 = "dealloc_delete w3 ?t ?i ?p"
  have r4: "ob_refcnt ?w4 = ob_refcnt w" and k4: "internals_keep_alive ?w4 = internals_keep_alive w"
    using r3 k3 by (simp_all add: dealloc_delete_refcnt)
  have r5: "ob_refcnt w5 x = ob_refcnt w x -
              (if clear_keep_alive ?i then int (held_references (keep_alive_slot w self) x) else 0)"
  proof (cases "clear_keep_alive ?i")
    case False
    with dealloc_keep_alive_Inr [OF s5] r4 show ?thesis by simp
  next
    case True
    with dealloc_keep_alive_Inr [OF s5] obtain s where
      s: "internals_keep_alive ?w4 self = Some s"
      and w5: "w5 = release_all s (emit (Keep_alive_erase self)
                      (?w4\<lparr>internals_keep_alive := (internals_keep_alive ?w4)(self := None)\<rparr>))"
      by auto
    have slot: "keep_alive_slot w self = s" using s k4 by (simp add: keep_alive_slot_def)
    have "ob_refcnt w5 x = ob_refcnt ?w4 x - int (held_references s x)"
      unfolding w5 by (simp add: release_all_refcnt)
    with True slot r4 show ?thesis by simp
  qed
  from dealloc_c2p_Inr [OF s6] obtain m where
    w6: "w6 = emit (Inst_c2p_erase ?p self) (w5\<lparr>inst_c2p := m\<rparr>)" by blast
  have "ob_refcnt w' x = ob_refcnt w5 x - (if x = ?tp then 1 else 0)"
    unfolding w' w6 by (simp add: decref_refcnt)
  with r5 show ?thesis by simp
qed

text \<open>
  Claim C5 (keep-alive release exactly once). When the deallocation of a wrapper whose
  \<^verbatim>\<open>clear_keep_alive\<close> flag is set returns, the wrapper had a non-empty keep-alive list,
  its entry is gone from the keep-alive map, and what the call did is: steps that release
  nothing, then the erasure of the entry, then for each node of the list in list order its
  callback (or, without one, the release of the patient's reference) and the freeing of
  the node, then the removal from the identity map, the freeing of the object and the
  release of the type. In the reference counts, every object has lost exactly one
  reference for each node without callback of which it is the patient (and the type
  object one more, the wrapper's). Registering N pairs of payload and (non-null) callback
  on a wrapper without edges always succeeds, and the deallocation of the nurse then calls
  exactly the N callbacks, each with its payload, once per registration, the last
  registered first, and releases no reference but the one to the type.
\<close>

theorem keep_alive_released_once:
  "(inst_dealloc w self = Inr w' \<and> clear_keep_alive (insts w self) \<longrightarrow>
      (\<exists>s pre. internals_keep_alive w self = Some s \<and> s \<noteq> [] \<and>
         internals_keep_alive w' self = None \<and>
         trace w' = trace w @ pre @ Keep_alive_erase self # release_events s @
           [Inst_c2p_erase (inst_ptr w self) self, Free_object self, Py_DECREF (ob_type w self)] \<and>
         (\<forall>ev \<in> set pre. \<not> is_release ev) \<and>
         (\<forall>x. ob_refcnt w' x =
                ob_refcnt w x - int (held_references s x) - (if x = ob_type w self then 1 else 0))))
   \<and> (nb_type_check w (ob_type w nurse) \<and> nurse \<noteq> 0 \<and> env_node_malloc e \<noteq> 0 \<and>
        internals_keep_alive w nurse = None \<and> regs \<noteq> [] \<and> (\<forall>r \<in> set regs. snd r \<noteq> 0) \<and>
        (destruct (insts w nurse) \<longrightarrow>
           is_destructible \<in> t_flags (nb_type_data w (ob_type w nurse))) \<and>
        inst_c2p_remove (inst_c2p w) (inst_ptr w nurse) nurse \<noteq> None \<longrightarrow>
      (\<exists>w1 w2 evs. keep_alive_cb_all e w nurse regs = Inr w1 \<and>
         inst_dealloc w1 nurse = Inr w2 \<and>
         internals_keep_alive w2 nurse = None \<and>
         trace w2 = trace w1 @ evs \<and>
         filter is_callback evs = map (\<lambda>r. Call_callback (snd r) (fst r)) (rev regs) \<and>
         (\<forall>x. ob_refcnt w2 x = ob_refcnt w1 x - (if x = ob_type w nurse then 1 else 0))))"
proof (intro conjI impI)
  assume a: "inst_dealloc w self = Inr w' \<and> clear_keep_alive (insts w self)"
  then have ok: "inst_dealloc w self = Inr w'" and ck: "clear_keep_alive (insts w self)" by simp_all
  from inst_dealloc_Inr(3) [OF ok] ck obtain s where
    s: "internals_keep_alive w self = Some s" "s \<noteq> []" and gone: "internals_keep_alive w' self = None"
    by blast
  have slot: "keep_alive_slot w self = s" using s by (simp add: keep_alive_slot_def)
  from dealloc_events_split [of "has_gc w (ob_type w self)" "nb_type_data w (ob_type w self)"
      "insts w self" "ob_type w self" self "inst_ptr w self" s]
  obtain pre where
    pre: "dealloc_events (has_gc w (ob_type w self)) (nb_type_data w (ob_type w self))
            (insts w self) (ob_type w self) self (inst_ptr w self) s =
          pre @ (if clear_keep_alive (insts w self) then Keep_alive_erase self # release_events s else []) @
          [Inst_c2p_erase (inst_ptr w self) self, Free_object self, Py_DECREF (ob_type w self)]"
    and nr: "\<forall>ev \<in> set pre. \<not> is_release ev \<and> \<not> is_callback ev" by blast
  have tr: "trace w' = trace w @ pre @ Keep_alive_erase self # release_events s @
           [Inst_c2p_erase (inst_ptr w self) self, Free_object self, Py_DECREF (ob_type w self)]"
    using inst_dealloc_Inr(1) [OF ok] slot pre ck by simp
  have rc: "\<forall>x. ob_refcnt w' x =
                ob_refcnt w x - int (held_references s x) - (if x = ob_type w self then 1 else 0)"
    using inst_dealloc_refcnt [OF ok] ck slot by simp
  from s gone nr tr rc
  show "\<exists>s pre. internals_keep_alive w self = Some s \<and> s \<noteq> [] \<and>
         internals_keep_alive w' self = None \<and>
         trace w' = trace w @ pre @ Keep_alive_erase self # release_events s @
           [Inst_c2p_erase (inst_ptr w self) self, Free_object self, Py_DECREF (ob_type w self)] \<and>
         (\<forall>ev \<in> set pre. \<not> is_release ev) \<and>
         (\<forall>x. ob_refcnt w' x =
                ob_refcnt w x - int (held_references s x) - (if x = ob_type w self then 1 else 0))"
    by blast
next
  assume h: "nb_type_check w (ob_type w nurse) \<and> nurse \<noteq> 0 \<and> env_node_malloc e \<noteq> 0 \<and>
        internals_keep_alive w nurse = None \<and> regs \<noteq> [] \<and> (\<forall>r \<in> set regs. snd r \<noteq> 0) \<and>
        (destruct (insts w nurse) \<longrightarrow>
           is_destructible \<in> t_flags (nb_type_data w (ob_type w nurse))) \<and>
        inst_c2p_remove (inst_c2p w) (inst_ptr w nurse) nurse \<noteq> None"
  then have nb: "nb_type_check w (ob_type w nurse)" and nz: "nurse \<noteq> 0"
    and al: "env_node_malloc e \<noteq> 0" and none: "internals_keep_alive w nurse = None"
    and ne: "regs \<noteq> []" and cbs: "\<forall>r \<in> set regs. snd r \<noteq> 0"
    and hd: "destruct (insts w nurse) \<longrightarrow>
           is_destructible \<in> t_flags (nb_type_data w (ob_type w nurse))"
    and hm: "inst_c2p_remove (inst_c2p w) (inst_ptr w nurse) nurse \<noteq> None" by simp_all
  from keep_alive_cb_all_wrapper [OF nb nz al, of regs] obtain w1 where
    reg: "keep_alive_cb_all e w nurse regs = Inr w1"
    and slot: "keep_alive_slot w1 nurse = map weakref_of (rev regs) @ keep_alive_slot w nurse"
    and ck: "regs \<noteq> [] \<longrightarrow> clear_keep_alive (insts w1 nurse) \<and> internals_keep_alive w1 nurse \<noteq> None"
    and same: "same_but_keep_alive w w1 nurse" by blast
  have slot1: "keep_alive_slot w1 nurse = map weakref_of (rev regs)"
    using slot none by (simp add: keep_alive_slot_def)
  have ck1: "clear_keep_alive (insts w1 nurse)" and some1: "internals_keep_alive w1 nurse \<noteq> None"
    using ck ne by simp_all
  have nonnull: "\<forall>c \<in> set (map weakref_of (rev regs)). callback c \<noteq> 0"
    using cbs by (auto simp: weakref_of_def)
  have fr: "ob_type w1 = ob_type w" "nb_type_data w1 = nb_type_data w" "inst_c2p w1 = inst_c2p w"
    using same by (simp_all add: same_but_keep_alive_def)
  note ip = same_but_keep_alive_inst_ptr [OF same]
  have hd1: "destruct (insts w1 nurse) \<longrightarrow>
           is_destructible \<in> t_flags (nb_type_data w1 (ob_type w1 nurse))"
    using hd fr ip(2) by simp
  have hm1: "inst_c2p_remove (inst_c2p w1) (inst_ptr w1 nurse) nurse \<noteq> None"
    using hm fr ip(1) by simp
  have hk1: "clear_keep_alive (insts w1 nurse) \<longrightarrow>
           (\<exists>s. internals_keep_alive w1 nurse = Some s \<and> s \<noteq> [])"
    using some1 slot1 ne by (auto simp: keep_alive_slot_def)
  from inst_dealloc_total [OF hd1 hk1 hm1] obtain w2 where ok: "inst_dealloc w1 nurse = Inr w2"
    by blast
  from inst_dealloc_Inr(3) [OF ok] ck1 have gone: "internals_keep_alive w2 nurse = None" by blast
  let ?evs = "dealloc_events (has_gc w1 (ob_type w1 nurse)) (nb_type_data w1 (ob_type w1 nurse))
          (insts w1 nurse) (ob_type w1 nurse) nurse (inst_ptr w1 nurse) (map weakref_of (rev regs))"
  from dealloc_events_split [of "has_gc w1 (ob_type w1 nurse)" "nb_type_data w1 (ob_type w1 nurse)"
    "insts w1 nurse" "ob_type w1 nurse" nurse "inst_ptr w1 nurse" "map weakref_of (rev regs)"]
  obtain pre where
    pre: "?evs = pre @ (if clear_keep_alive (insts w1 nurse)
                        then Keep_alive_erase nurse # release_events (map weakref_of (rev regs)) else []) @
        [Inst_c2p_erase (inst_ptr w1 nurse) nurse, Free_object nurse, Py_DECREF (ob_type w1 nurse)]"
    and nr: "\<forall>ev \<in> set pre. \<not> is_release ev \<and> \<not> is_callback ev" by blast
  have fpre: "filter is_callback pre = []" using nr by (simp add: filter_empty_conv)
  have "filter is_callback ?evs =
          filter is_callback (release_events (map weakref_of (rev regs)))"
    using ck1 fpre by (simp add: pre is_callback_def)
  also have "\<dots> = map (\<lambda>c. Call_callback (callback c) (payload c)) (map weakref_of (rev regs))"
    by (rule filter_callback_release_events [OF nonnull])
  also have "\<dots> = map (\<lambda>r. Call_callback (snd r) (fst r)) (rev regs)"
    by (simp add: weakref_of_def)
  finally have f: "filter is_callback ?evs = map (\<lambda>r. Call_callback (snd r) (fst r)) (rev regs)" .
  have held: "held_references (map weakref_of (rev regs)) x = 0" for x
    using nonnull by (auto simp: held_references_def filter_empty_conv)
  have rc: "\<forall>x. ob_refcnt w2 x = ob_refcnt w1 x - (if x = ob_type w nurse then 1 else 0)"
    using inst_dealloc_refcnt [OF ok] slot1 held fr(1) by simp
  have "trace w2 = trace w1 @ ?evs" using inst_dealloc_Inr(1) [OF ok] slot1 by simp
  with f gone reg ok rc
  show "\<exists>w1 w2 evs. keep_alive_cb_all e w nurse regs = Inr w1 \<and>
         inst_dealloc w1 nurse = Inr w2 \<and>
         internals_keep_alive w2 nurse = None \<and>
         trace w2 = trace w1 @ evs \<and>
         filter is_callback evs = map (\<lambda>r. Call_callback (snd r) (fst r)) (rev regs) \<and>
         (\<forall>x. ob_refcnt w2 x = ob_refcnt w1 x - (if x = ob_type w nurse then 1 else 0))"
    by blast
qed

lemma world1_facts:
  "nb_type_check world1 (ob_type world1 100)"
  "internals_keep_alive world1 100 = None"
  "destruct (insts world1 100) \<longrightarrow> is_destructible \<in> t_flags (nb_type_data world1 (ob_type world1 100))"
  "inst_ptr world1 100 = 124"
  "inst_c2p_remove (inst_c2p world1) 124 100 \<noteq> None"
  by (simp_all add: world1_def world0_def Point_def nb_type_check_def inst_ptr_def
      inst_c2p_remove_def)

text \<open>Two callbacks are registered on the wrapper 100, then the patient 3000 is linked to it
  without callback, which raises the count of 3000 from 1 to 2; the deallocation of 100
  calls the callbacks, the last registered first, then releases the reference to 3000,
  whose count is 1 again, and leaves the count of the payload 2000 of a callback alone.\<close>

theorem keep_alive_released_once_witness:
  "(\<exists>w1 w2 evs. keep_alive_cb_all env0 world1 100 [(1000, 7), (2000, 8)] = Inr w1 \<and>
      inst_dealloc w1 100 = Inr w2 \<and>
      internals_keep_alive w2 100 = None \<and>
      trace w2 = trace w1 @ evs \<and>
      filter is_callback evs = [Call_callback 8 2000, Call_callback 7 1000] \<and>
      ob_refcnt w2 2000 = ob_refcnt w1 2000)
   \<and> (\<exists>w1 wk w3 pre. keep_alive_cb_all env0 world1 100 [(1000, 7), (2000, 8)] = Inr w1 \<and>
      keep_alive env0 w1 100 3000 = Inr wk \<and>
      ob_refcnt wk 3000 = 2 \<and>
      inst_dealloc wk 100 = Inr w3 \<and>
      internals_keep_alive w3 100 = None \<and>
      trace w3 = trace wk @ pre @
        [Keep_alive_erase 100,
         Call_callback 8 2000, Free_weakref_seq 2000,
         Call_callback 7 1000, Free_weakref_seq 1000,
         Py_DECREF 3000, Free_weakref_seq 3000,
         Inst_c2p_erase 124 100, Free_object 100, Py_DECREF 4096] \<and>
      ob_refcnt w3 3000 = 1 \<and> ob_refcnt w3 2000 = 1 \<and> ob_refcnt w3 4096 = 0)"
proof -
  have "\<exists>w1 w2 evs. keep_alive_cb_all env0 world1 100 [(1000, 7), (2000, 8)] = Inr w1 \<and>
         inst_dealloc w1 100 = Inr w2 \<and>
         internals_keep_alive w2 100 = None \<and>
         trace w2 = trace w1 @ evs \<and>
         filter is_callback evs = map (\<lambda>r. Call_callback (snd r) (fst r)) (rev [(1000, 7), (2000, 8)]) \<and>
         (\<forall>x. ob_refcnt w2 x = ob_refcnt w1 x - (if x = ob_type world1 100 then 1 else 0))"
    using keep_alive_released_once [of world1 100 world1 100 env0 "[(1000, 7), (2000, 8)]"]
      world1_facts
    by (simp add: env0_def)
  then obtain w1 w2 evs where
    a: "keep_alive_cb_all env0 world1 100 [(1000, 7), (2000, 8)] = Inr w1"
    and b: "inst_dealloc w1 100 = Inr w2"
    and c: "internals_keep_alive w2 100 = None"
    and d: "trace w2 = trace w1 @ evs"
    and f: "filter is_callback evs = [Call_callback 8 2000, Call_callback 7 1000]"
    and g: "\<forall>x. ob_refcnt w2 x = ob_refcnt w1 x - (if x = ob_type world1 100 then 1 else 0)"
    by auto
  have ot: "ob_type world1 100 = 4096" by (simp add: world1_def world0_def)
  have g2: "ob_refcnt w2 2000 = ob_refcnt w1 2000" using g ot by simp
  have w1: "w1 = mark_clear_keep_alive
      (set_keep_alive (set_keep_alive
        (mark_clear_keep_alive
          (set_keep_alive (set_keep_alive world1 100 []) 100 [\<lparr>callback = 7, payload = 1000\<rparr>]) 100)
         100 [\<lparr>callback = 7, payload = 1000\<rparr>]) 100
         [\<lparr>callback = 8, payload = 2000\<rparr>, \<lparr>callback = 7, payload = 1000\<rparr>]) 100"
    using a world1_facts(1,2)
    by (simp add: keep_alive_cb_def Let_def keep_alive_slot_def nb_type_check_def env0_def)
  let ?s = "[\<lparr>callback = 8, payload = 2000\<rparr>, \<lparr>callback = 7, payload = 1000\<rparr>,
             \<lparr>callback = 0, payload = 3000\<rparr>]"
  have f1: "ob_type w1 = ob_type world1" "nb_meta w1 = nb_meta world1"
    "internals_keep_alive w1 100 =
       Some [\<lparr>callback = 8, payload = 2000\<rparr>, \<lparr>callback = 7, payload = 1000\<rparr>]"
    "Py_None w1 = Py_None world1" "ob_refcnt w1 = ob_refcnt world1"
    "inst_c2p w1 = inst_c2p world1" "nb_type_data w1 = nb_type_data world1"
    "cells w1 = cells world1" "trace w1 = trace world1"
    "insts w1 = (insts world1)(100 := (insts world1 100)\<lparr>clear_keep_alive := True\<rparr>)"
    by (simp_all add: w1 mark_clear_keep_alive_def set_keep_alive_def)
  define wk where "wk = mark_clear_keep_alive
      (incref 3000 (set_keep_alive (set_keep_alive w1 100
          [\<lparr>callback = 8, payload = 2000\<rparr>, \<lparr>callback = 7, payload = 1000\<rparr>]) 100 ?s)) 100"
  have ka: "keep_alive env0 w1 100 3000 = Inr wk"
    using world1_facts(1) f1(1-4)
    by (simp add: keep_alive_def Let_def keep_alive_slot_def nb_type_check_def env0_def wk_def
        world1_def world0_def)
  have fk: "ob_type wk = ob_type world1" "nb_type_data wk = nb_type_data world1"
    "inst_c2p wk = inst_c2p world1" "cells wk = cells world1"
    "internals_keep_alive wk 100 = Some ?s"
    "ob_refcnt wk = (ob_refcnt world1)(3000 := ob_refcnt world1 3000 + 1)"
    "insts wk = (insts world1)(100 := (insts world1 100)\<lparr>clear_keep_alive := True\<rparr>)"
    using f1 by (simp_all add: wk_def mark_clear_keep_alive_def set_keep_alive_def incref_def)
  have ck: "clear_keep_alive (insts wk 100)" by (simp add: fk)
  have "inst_ptr wk 100 = inst_ptr world1 100"
    by (simp add: inst_ptr_def Let_def fk(4,7))
  then have ip: "inst_ptr wk 100 = 124"
    by (simp only: world1_facts(4))
  have rk: "ob_refcnt wk 3000 = 2" "ob_refcnt wk 2000 = 1" "ob_refcnt wk 4096 = 1"
    by (simp_all add: fk world1_def world0_def)
  have hd: "destruct (insts wk 100) \<longrightarrow> is_destructible \<in> t_flags (nb_type_data wk (ob_type wk 100))"
    using world1_facts(3) fk by simp
  have hk: "clear_keep_alive (insts wk 100) \<longrightarrow> (\<exists>s. internals_keep_alive wk 100 = Some s \<and> s \<noteq> [])"
    using fk by simp
  have hm: "inst_c2p_remove (inst_c2p wk) (inst_ptr wk 100) 100 \<noteq> None"
    using world1_facts(5) fk ip by simp
  from inst_dealloc_total [OF hd hk hm] obtain w3 where dk: "inst_dealloc wk 100 = Inr w3" by blast
  have otk: "ob_type wk 100 = 4096" using fk ot by simp
  have held: "held_references ?s 3000 = 1" "held_references ?s 2000 = 0" "held_references ?s 4096 = 0"
    by (simp_all add: held_references_def)
  have rel: "release_events ?s =
      [Call_callback 8 2000, Free_weakref_seq 2000, Call_callback 7 1000, Free_weakref_seq 1000,
       Py_DECREF 3000, Free_weakref_seq 3000]"
    by (simp add: release_events_def)
  from keep_alive_released_once [of wk 100 w3 100 env0 "[]"] dk ck fk(5)
  obtain pre where
    gone: "internals_keep_alive w3 100 = None"
    and tr: "trace w3 = trace wk @ pre @ Keep_alive_erase 100 # release_events ?s @
        [Inst_c2p_erase (inst_ptr wk 100) 100, Free_object 100, Py_DECREF (ob_type wk 100)]"
    and rc: "\<forall>x. ob_refcnt w3 x =
                ob_refcnt wk x - int (held_references ?s x) - (if x = ob_type wk 100 then 1 else 0)"
    by auto
  have tr': "trace w3 = trace wk @ pre @
        [Keep_alive_erase 100,
         Call_callback 8 2000, Free_weakref_seq 2000,
         Call_callback 7 1000, Free_weakref_seq 1000,
         Py_DECREF 3000, Free_weakref_seq 3000,
         Inst_c2p_erase 124 100, Free_object 100, Py_DECREF 4096]"
    using tr by (simp add: rel ip otk)
  have r3: "ob_refcnt w3 3000 = 1" "ob_refcnt w3 2000 = 1" "ob_refcnt w3 4096 = 0"
    using rc rk held otk by simp_all
  have first: "\<exists>w1 w2 evs. keep_alive_cb_all env0 world1 100 [(1000, 7), (2000, 8)] = Inr w1 \<and>
      inst_dealloc w1 100 = Inr w2 \<and>
      internals_keep_alive w2 100 = None \<and>
      trace w2 = trace w1 @ evs \<and>
      filter is_callback evs = [Call_callback 8 2000, Call_callback 7 1000] \<and>
      ob_refcnt w2 2000 = ob_refcnt w1 2000"
    using a b c d f g2 by blast
  have second: "\<exists>w1 wk w3 pre. keep_alive_cb_all env0 world1 100 [(1000, 7), (2000, 8)] = Inr w1 \<and>
      keep_alive env0 w1 100 3000 = Inr wk \<and>
      ob_refcnt wk 3000 = 2 \<and>
      inst_dealloc wk 100 = Inr w3 \<and>
      internals_keep_alive w3 100 = None \<and>
      trace w3 = trace wk @ pre @
        [Keep_alive_erase 100,
         Call_callback 8 2000, Free_weakref_seq 2000,
         Call_callback 7 1000, Free_weakref_seq 1000,
         Py_DECREF 3000, Free_weakref_seq 3000,
         Inst_c2p_erase 124 100, Free_object 100, Py_DECREF 4096] \<and>
      ob_refcnt w3 3000 = 1 \<and> ob_refcnt w3 2000 = 1 \<and> ob_refcnt w3 4096 = 0"
    using a ka rk(1) dk gone tr' r3 by blast
  from first second show ?thesis by blast
qed
section \<open>Wrapper creation under a policy: what a successful call does\<close>

lemma set_external_frame:
  assumes "set_external e w gc self v = Some (w2, self')"
  shows "nb_type_data w2 = nb_type_data w \<and> has_gc w2 = has_gc w \<and> type_c2p w2 = type_c2p w \<and>
         PyType_IsSubtype w2 = PyType_IsSubtype w \<and> nb_meta w2 = nb_meta w \<and>
         Py_None w2 = Py_None w \<and> internals_keep_alive w2 = internals_keep_alive w \<and>
         trace w2 = trace w \<and> inst_c2p w2 = inst_c2p w \<and>
         ready (insts w2 self') = ready (insts w self) \<and>
         destruct (insts w2 self') = destruct (insts w self) \<and>
         cpp_delete (insts w2 self') = cpp_delete (insts w self) \<and>
         clear_keep_alive (insts w2 self') = clear_keep_alive (insts w self) \<and>
         ob_type w2 self' = ob_type w self \<and> ob_refcnt w2 self' = ob_refcnt w self"
  using assms
  by (auto simp: set_external_def Let_def move_object_def split: if_splits)

lemma init_object_frame:
  "nb_type_data (init_object w tp self) = nb_type_data w \<and>
   has_gc (init_object w tp self) = has_gc w \<and> type_c2p (init_object w tp self) = type_c2p w \<and>
   PyType_IsSubtype (init_object w tp self) = PyType_IsSubtype w \<and>
   nb_meta (init_object w tp self) = nb_meta w \<and> Py_None (init_object w tp self) = Py_None w \<and>
   internals_keep_alive (init_object w tp self) = internals_keep_alive w \<and>
   trace (init_object w tp self) = trace w \<and> inst_c2p (init_object w tp self) = inst_c2p w \<and>
   insts (init_object w tp self) self = zero_inst \<and> ob_type (init_object w tp self) self = tp \<and>
   ob_refcnt (init_object w tp self) self = 1"
  by (simp add: init_object_def)

lemma set_internal_frame:
  "nb_type_data (set_internal w self pl) = nb_type_data w \<and>
   has_gc (set_internal w self pl) = has_gc w \<and> type_c2p (set_internal w self pl) = type_c2p w \<and>
   PyType_IsSubtype (set_internal w self pl) = PyType_IsSubtype w \<and>
   nb_meta (set_internal w self pl) = nb_meta w \<and> Py_None (set_internal w self pl) = Py_None w \<and>
   internals_keep_alive (set_internal w self pl) = internals_keep_alive w \<and>
   trace (set_internal w self pl) = trace w \<and> inst_c2p (set_internal w self pl) = inst_c2p w \<and>
   ready (insts (set_internal w self pl) self) = ready (insts w self) \<and>
   destruct (insts (set_internal w self pl) self) = destruct (insts w self) \<and>
   cpp_delete (insts (set_internal w self pl) self) = cpp_delete (insts w self) \<and>
   clear_keep_alive (insts (set_internal w self pl) self) = clear_keep_alive (insts w self) \<and>
   internal (insts (set_internal w self pl) self) \<and>
   ob_type (set_internal w self pl) = ob_type w \<and> ob_refcnt (set_internal w self pl) = ob_refcnt w"
  by (simp add: set_internal_def)

text \<open>A wrapper returned by \<open>inst_new_impl\<close>: the state before the identity map is updated,
  and the key under which the wrapper is registered.\<close>

lemma inst_new_impl_Inr:
  assumes new: "inst_new_impl e w tp v = Inr (w1, ob)" and nz: "ob \<noteq> 0"
  shows "\<exists>w0 k m. w1 = w0\<lparr>inst_c2p := m\<rparr> \<and> inst_c2p_insert e (inst_c2p w) k ob = Inr m \<and>
           (if v = 0 then k = aligned_payload (env_malloc e) (of_nat (t_align (nb_type_data w tp)))
            else k = v) \<and>
           nb_type_data w0 = nb_type_data w \<and> has_gc w0 = has_gc w \<and> type_c2p w0 = type_c2p w \<and>
           PyType_IsSubtype w0 = PyType_IsSubtype w \<and> nb_meta w0 = nb_meta w \<and>
           Py_None w0 = Py_None w \<and> internals_keep_alive w0 = internals_keep_alive w \<and>
           trace w0 = trace w \<and>
           \<not> ready (insts w0 ob) \<and> \<not> destruct (insts w0 ob) \<and> \<not> cpp_delete (insts w0 ob) \<and>
           \<not> clear_keep_alive (insts w0 ob) \<and> internal (insts w0 ob) = (v = 0) \<and>
           ob_type w0 ob = tp \<and> ob_refcnt w0 ob = 1"
proof -
  note mz = inst_new_impl_malloc [OF new nz]
  let ?s = "env_malloc e"
  let ?wi = "init_object w tp ?s"
  note fi = init_object_frame [of w tp ?s]
  show ?thesis
  proof (cases "v = 0")
    case False
    from new inst_new_impl_external [OF mz False, of w tp] obtain w2 m where
      ext: "set_external e ?wi (has_gc w tp) ?s v = Some (w2, ob)"
      and ins: "inst_c2p_insert e (inst_c2p w2) v ob = Inr m"
      and w1: "w1 = w2\<lparr>inst_c2p := m\<rparr>"
      using nz by (auto split: option.splits sum.splits prod.splits)
    note fe = set_external_frame [OF ext]
    from set_external_Some [OF ext] have ni: "\<not> internal (insts w2 ob)" by simp
    have "inst_c2p_insert e (inst_c2p w) v ob = Inr m" using ins fe fi by simp
    with w1 False fe fi ni show ?thesis
      by (intro exI [of _ w2] exI [of _ v] exI [of _ m]) (simp add: zero_inst_def)
  next
    case True
    let ?pl = "aligned_payload ?s (of_nat (t_align (nb_type_data w tp)))"
    let ?w2 = "set_internal ?wi ?s ?pl"
    have anz: "(of_nat (t_align (nb_type_data w tp)) :: ptr) \<noteq> 0"
    proof
      assume "(of_nat (t_align (nb_type_data w tp)) :: ptr) = 0"
      with new True mz show False by (simp add: inst_new_impl_def Let_def)
    qed
    have "(case inst_c2p_insert e (inst_c2p ?w2) ?pl ?s of
             Inl err \<Rightarrow> Inl err
           | Inr m \<Rightarrow> Inr (?w2\<lparr>inst_c2p := m\<rparr>, ?s)) = Inr (w1, ob)"
      using new True by (simp only: inst_new_impl_internal [OF mz anz])
    from sum_case_Inr_elim [OF this] obtain m where
      ins0: "inst_c2p_insert e (inst_c2p ?w2) ?pl ?s = Inr m"
      and w1: "w1 = ?w2\<lparr>inst_c2p := m\<rparr>"
      and ob: "ob = ?s"
      by blast
    note fs = set_internal_frame [of ?wi ?s ?pl]
    have "inst_c2p_insert e (inst_c2p w) ?pl ob = Inr m" using ins0 ob fs fi by simp
    with w1 True ob fs fi show ?thesis
      by (intro exI [of _ ?w2] exI [of _ ?pl] exI [of _ m]) (simp add: zero_inst_def)
  qed
qed


lemma emit_more_simps [simp]:
  "type_c2p (emit ev w) = type_c2p w"
  "PyType_IsSubtype (emit ev w) = PyType_IsSubtype w"
  "nb_meta (emit ev w) = nb_meta w"
  "Py_None (emit ev w) = Py_None w"
  by (simp_all add: emit_def)

lemma incref_simps [simp]:
  "trace (incref p w) = trace w"
  "insts (incref p w) = insts w"
  "inst_c2p (incref p w) = inst_c2p w"
  "internals_keep_alive (incref p w) = internals_keep_alive w"
  "ob_type (incref p w) = ob_type w"
  "cells (incref p w) = cells w"
  "nb_type_data (incref p w) = nb_type_data w"
  "type_c2p (incref p w) = type_c2p w"
  "PyType_IsSubtype (incref p w) = PyType_IsSubtype w"
  "ob_refcnt (incref p w) = (ob_refcnt w)(p := ob_refcnt w p + 1)"
  by (simp_all add: incref_def)

lemma keep_alive_insts:
  assumes "keep_alive e w nurse patient = Inr w1"
  shows "ready (insts w1 x) = ready (insts w x) \<and> destruct (insts w1 x) = destruct (insts w x) \<and>
         cpp_delete (insts w1 x) = cpp_delete (insts w x) \<and>
         internal (insts w1 x) = internal (insts w x) \<and>
         direct (insts w1 x) = direct (insts w x) \<and> offset (insts w1 x) = offset (insts w x) \<and>
         inst_c2p w1 = inst_c2p w \<and> nb_type_data w1 = nb_type_data w \<and> cells w1 = cells w \<and>
         ob_type w1 = ob_type w \<and> type_c2p w1 = type_c2p w \<and>
         PyType_IsSubtype w1 = PyType_IsSubtype w"
  using assms
  by (auto simp: keep_alive_def Let_def set_keep_alive_def mark_clear_keep_alive_def
           emit_def decref_def incref_def split: if_splits)

lemma put_construct_Constructed:
  assumes "put_construct w td rvp ob nv v = Inr (Constructed w2 rvp2)"
  shows "rvp2 = (if rvp = rv_move \<and> is_move_constructible \<notin> t_flags (nb_type_data w td)
                 then rv_copy else rvp) \<and>
         insts w2 = insts w \<and> nb_type_data w2 = nb_type_data w \<and> cells w2 = cells w \<and>
         inst_c2p w2 = inst_c2p w \<and> ob_type w2 = ob_type w \<and> type_c2p w2 = type_c2p w \<and>
         PyType_IsSubtype w2 = PyType_IsSubtype w \<and> ob_refcnt w2 = ob_refcnt w \<and>
         internals_keep_alive w2 = internals_keep_alive w"
  using assms
  by (auto simp: put_construct_def put_move_def put_copy_def Let_def emit_def
           split: if_splits sum.splits ctor_result.splits)


lemma sum_case_Inr_elim3:
  "(case x of Inl err \<Rightarrow> Inl err | Inr m \<Rightarrow> Inr (f m, a, b)) = Inr (w', a', b')
     \<Longrightarrow> \<exists>m. x = Inr m \<and> w' = f m \<and> a' = a \<and> b' = b"
  by (cases x) auto

lemma put_finish_Inr:
  assumes "put_finish e w td rvp intrusive store ob nv cleanup is_new = Inr (w', ob', is_new')"
  shows "ob' = ob \<and> ready (insts w' ob) \<and>
         destruct (insts w' ob) =
           (final_policy (nb_type_data w td) rvp store ob \<noteq> rv_reference \<and>
            final_policy (nb_type_data w td) rvp store ob \<noteq> rv_reference_internal) \<and>
         cpp_delete (insts w' ob) =
           (final_policy (nb_type_data w td) rvp store ob = rv_take_ownership) \<and>
         internal (insts w' ob) = internal (insts w ob) \<and>
         inst_c2p w' = inst_c2p w \<and> nb_type_data w' = nb_type_data w \<and>
         ob_type w' = ob_type w \<and> type_c2p w' = type_c2p w \<and>
         PyType_IsSubtype w' = PyType_IsSubtype w \<and>
         inst_ptr w' ob = inst_ptr w ob \<and>
         is_new' = (if final_policy (nb_type_data w td) rvp store ob = rv_reference \<and>
                       has_shared_from_this \<in> t_flags (nb_type_data w td) \<and> \<not> store \<and>
                       t_keep_shared_from_this_alive (nb_type_data w td) ob
                    then is_new else map_option (\<lambda>_. True) is_new)"
proof -
  let ?t = "nb_type_data w td"
  let ?f = "final_policy ?t rvp store ob"
  let ?w1 = "w\<lparr>insts := (insts w)(ob := (insts w ob)
                 \<lparr>ready := True,
                  destruct := (?f \<noteq> rv_reference \<and> ?f \<noteq> rv_reference_internal),
                  cpp_delete := (?f = rv_take_ownership)\<rparr>)\<rparr>"
  have unfold: "put_finish e w td rvp intrusive store ob nv cleanup is_new =
      (case (if ?f = rv_reference_internal
             then (case cleanup of None \<Rightarrow> Inl Undefined | Some s \<Rightarrow> keep_alive e ?w1 ob s)
             else Inr ?w1) of
         Inl err \<Rightarrow> Inl err
       | Inr w2 \<Rightarrow> Inr (if intrusive then emit (Set_self_py nv ob) w2 else w2, ob,
                        if has_shared_from_this \<in> t_flags ?t \<and> \<not> store \<and>
                            t_keep_shared_from_this_alive ?t ob
                         then is_new else (case is_new of None \<Rightarrow> None | Some _ \<Rightarrow> Some True)))"
    by (simp only: put_finish_def Let_def final_policy_def)
  from assms have "(case (if ?f = rv_reference_internal
             then (case cleanup of None \<Rightarrow> Inl Undefined | Some s \<Rightarrow> keep_alive e ?w1 ob s)
             else Inr ?w1) of
         Inl err \<Rightarrow> Inl err
       | Inr w2 \<Rightarrow> Inr (if intrusive then emit (Set_self_py nv ob) w2 else w2, ob,
                        if has_shared_from_this \<in> t_flags ?t \<and> \<not> store \<and>
                            t_keep_shared_from_this_alive ?t ob
                         then is_new else (case is_new of None \<Rightarrow> None | Some _ \<Rightarrow> Some True)))
       = Inr (w', ob', is_new')"
    by (simp only: unfold)
  from sum_case_Inr_elim3 [OF this] obtain w2 where
    ka: "(if ?f = rv_reference_internal
          then (case cleanup of None \<Rightarrow> Inl Undefined | Some s \<Rightarrow> keep_alive e ?w1 ob s)
          else Inr ?w1) = Inr w2"
    and w': "w' = (if intrusive then emit (Set_self_py nv ob) w2 else w2)"
    and ob': "ob' = ob"
    and isn: "is_new' = (if has_shared_from_this \<in> t_flags ?t \<and> \<not> store \<and>
                            t_keep_shared_from_this_alive ?t ob
                         then is_new else (case is_new of None \<Rightarrow> None | Some _ \<Rightarrow> Some True))"
    by blast
  have fr: "ready (insts w2 ob) = ready (insts ?w1 ob) \<and>
            destruct (insts w2 ob) = destruct (insts ?w1 ob) \<and>
            cpp_delete (insts w2 ob) = cpp_delete (insts ?w1 ob) \<and>
            internal (insts w2 ob) = internal (insts ?w1 ob) \<and>
            direct (insts w2 ob) = direct (insts ?w1 ob) \<and>
            offset (insts w2 ob) = offset (insts ?w1 ob) \<and>
            inst_c2p w2 = inst_c2p ?w1 \<and> nb_type_data w2 = nb_type_data ?w1 \<and>
            cells w2 = cells ?w1 \<and> ob_type w2 = ob_type ?w1 \<and> type_c2p w2 = type_c2p ?w1 \<and>
            PyType_IsSubtype w2 = PyType_IsSubtype ?w1"
  proof (cases "?f = rv_reference_internal")
    case False
    with ka show ?thesis by simp
  next
    case True
    with ka obtain s where "keep_alive e ?w1 ob s = Inr w2"
      by (cases cleanup) simp_all
    from keep_alive_insts [OF this, of ob] show ?thesis .
  qed
  have ip: "inst_ptr w' ob = inst_ptr w ob"
    using fr w' by (simp add: inst_ptr_def Let_def)
  have isn': "is_new' = (if ?f = rv_reference \<and> has_shared_from_this \<in> t_flags ?t \<and> \<not> store \<and>
                       t_keep_shared_from_this_alive ?t ob
                    then is_new else map_option (\<lambda>_. True) is_new)"
    using isn by (cases is_new) (auto simp: final_policy_def)
  from fr w' ob' ip isn' show ?thesis by simp
qed

lemma nb_type_put_common_Inr:
  assumes put: "nb_type_put_common e w v td rvp cleanup is_new = Inr (w', ob, is_new')"
    and nz: "ob \<noteq> 0"
  shows "\<exists>w1 w2 rvp2.
           inst_new_impl e w (t_type_py (nb_type_data w td))
             (if (if intrusive_ptr \<in> t_flags (nb_type_data w td) then rv_take_ownership else rvp) = rv_copy \<or>
                 (if intrusive_ptr \<in> t_flags (nb_type_data w td) then rv_take_ownership else rvp) = rv_move
              then 0 else v) = Inr (w1, ob) \<and>
           put_construct w1 td
             (if intrusive_ptr \<in> t_flags (nb_type_data w td) then rv_take_ownership else rvp)
             ob (inst_ptr w1 ob) v = Inr (Constructed w2 rvp2) \<and>
           put_finish e w2 td rvp2 (intrusive_ptr \<in> t_flags (nb_type_data w td))
             ((if intrusive_ptr \<in> t_flags (nb_type_data w td) then rv_take_ownership else rvp) = rv_copy \<or>
              (if intrusive_ptr \<in> t_flags (nb_type_data w td) then rv_take_ownership else rvp) = rv_move)
             ob (inst_ptr w1 ob) cleanup is_new = Inr (w', ob, is_new')"
proof -
  let ?t = "nb_type_data w td"
  let ?intr = "intrusive_ptr \<in> t_flags ?t"
  let ?rvp1 = "if ?intr then rv_take_ownership else rvp"
  let ?store = "?rvp1 = rv_copy \<or> ?rvp1 = rv_move"
  have nr: "\<not> (rvp = rv_reference_internal \<and> (cleanup = None \<or> cleanup = Some 0))"
  proof
    assume "rvp = rv_reference_internal \<and> (cleanup = None \<or> cleanup = Some 0)"
    then have "nb_type_put_common e w v td rvp cleanup is_new = Inr (w, 0, is_new)"
      by (simp add: nb_type_put_common_def)
    with put nz show False by simp
  qed
  obtain r where r: "inst_new_impl e w (t_type_py ?t) (if ?store then 0 else v) = r" by blast
  from put nr r have "\<exists>w1 inst'. r = Inr (w1, inst')"
    by (cases r) (auto simp: nb_type_put_common_def Let_def)
  then obtain w1 inst' where r1: "r = Inr (w1, inst')" by blast
  have inz: "inst' \<noteq> 0"
  proof
    assume "inst' = 0"
    with put nr r r1 nz show False by (simp add: nb_type_put_common_def Let_def)
  qed
  obtain c where c: "put_construct w1 td ?rvp1 inst' (inst_ptr w1 inst') v = c" by blast
  from put nr r r1 inz c have "\<exists>w2 rvp2. c = Inr (Constructed w2 rvp2)"
    using nz by (cases c) (auto simp: nb_type_put_common_def Let_def split: ctor_result.splits)
  then obtain w2 rvp2 where c1: "c = Inr (Constructed w2 rvp2)" by blast
  have fin: "put_finish e w2 td rvp2 ?intr ?store inst' (inst_ptr w1 inst') cleanup is_new
               = Inr (w', ob, is_new')"
    using put nr r r1 inz c c1 by (simp add: nb_type_put_common_def Let_def)
  from put_finish_Inr [OF fin] have "ob = inst'" by simp
  with r r1 c c1 fin show ?thesis by blast
qed


lemma nb_type_put_common_flags:
  assumes put: "nb_type_put_common e w v td rvp cleanup is_new = Inr (w', ob, is_new')"
    and nz: "ob \<noteq> 0"
  shows "ready (insts w' ob) \<and>
         destruct (insts w' ob) =
           (effective_policy w td rvp ob \<noteq> rv_reference \<and>
            effective_policy w td rvp ob \<noteq> rv_reference_internal) \<and>
         cpp_delete (insts w' ob) = (effective_policy w td rvp ob = rv_take_ownership) \<and>
         internal (insts w' ob) =
           ((if intrusive_ptr \<in> t_flags (nb_type_data w td) then rv_take_ownership else rvp) = rv_copy \<or>
            (if intrusive_ptr \<in> t_flags (nb_type_data w td) then rv_take_ownership else rvp) = rv_move \<or>
            v = 0)"
proof -
  let ?t = "nb_type_data w td"
  let ?rvp1 = "if intrusive_ptr \<in> t_flags ?t then rv_take_ownership else rvp"
  let ?store = "?rvp1 = rv_copy \<or> ?rvp1 = rv_move"
  from nb_type_put_common_Inr [OF put nz] obtain w1 w2 rvp2 where
    new: "inst_new_impl e w (t_type_py ?t) (if ?store then 0 else v) = Inr (w1, ob)"
    and con: "put_construct w1 td ?rvp1 ob (inst_ptr w1 ob) v = Inr (Constructed w2 rvp2)"
    and fin: "put_finish e w2 td rvp2 (intrusive_ptr \<in> t_flags ?t) ?store ob (inst_ptr w1 ob)
                cleanup is_new = Inr (w', ob, is_new')"
    by blast
  from inst_new_impl_Inr [OF new nz] obtain w0 k m where
    w1: "w1 = w0\<lparr>inst_c2p := m\<rparr>" and td0: "nb_type_data w0 = nb_type_data w"
    and int0: "internal (insts w0 ob) = ((if ?store then 0 else v) = 0)"
    by blast
  have td1: "nb_type_data w1 = nb_type_data w" using w1 td0 by simp
  have int1: "internal (insts w1 ob) = ((if ?store then 0 else v) = 0)" using w1 int0 by simp
  from put_construct_Constructed [OF con] td1 have
    rvp2: "rvp2 = (if ?rvp1 = rv_move \<and> is_move_constructible \<notin> t_flags ?t then rv_copy else ?rvp1)"
    and td2: "nb_type_data w2 = nb_type_data w" and i2: "insts w2 = insts w1"
    by simp_all
  have eff: "final_policy (nb_type_data w2 td) rvp2 ?store ob = effective_policy w td rvp ob"
    using rvp2 td2 by (simp add: effective_policy_def Let_def)
  from put_finish_Inr [OF fin] eff have
    "ready (insts w' ob)"
    "destruct (insts w' ob) =
           (effective_policy w td rvp ob \<noteq> rv_reference \<and>
            effective_policy w td rvp ob \<noteq> rv_reference_internal)"
    "cpp_delete (insts w' ob) = (effective_policy w td rvp ob = rv_take_ownership)"
    "internal (insts w' ob) = internal (insts w2 ob)"
    by simp_all
  then show ?thesis using i2 int1 by auto
qed

section \<open>Policies and ownership flags\<close>

text \<open>
  Claim C8 (policy-to-flags mapping). For a wrapper that \<^verbatim>\<open>nb_type_put_common\<close> creates,
  the \<^verbatim>\<open>destruct\<close> flag is set exactly when the effective policy (the requested one after
  the intrusive override, the move-to-copy fallback and the shared-ownership override) is
  neither reference nor reference\_internal, and the \<^verbatim>\<open>cpp_delete\<close> flag exactly when it
  is take\_ownership. So a wrapper whose effective policy is reference or
  reference\_internal has neither flag, and so has one requested with either policy for a
  type that is not intrusive.
\<close>

theorem policy_flags:
  assumes put: "nb_type_put_common e w v td rvp cleanup is_new = Inr (w', ob, is_new')"
    and nz: "ob \<noteq> 0"
  shows "(destruct (insts w' ob) \<longleftrightarrow>
            effective_policy w td rvp ob \<noteq> rv_reference \<and>
            effective_policy w td rvp ob \<noteq> rv_reference_internal)
       \<and> (cpp_delete (insts w' ob) \<longleftrightarrow> effective_policy w td rvp ob = rv_take_ownership)
       \<and> (effective_policy w td rvp ob = rv_reference \<or>
          effective_policy w td rvp ob = rv_reference_internal \<longrightarrow>
            \<not> destruct (insts w' ob) \<and> \<not> cpp_delete (insts w' ob))
       \<and> ((rvp = rv_reference \<or> rvp = rv_reference_internal) \<and>
          intrusive_ptr \<notin> t_flags (nb_type_data w td) \<longrightarrow>
            \<not> destruct (insts w' ob) \<and> \<not> cpp_delete (insts w' ob))"
proof -
  note f = nb_type_put_common_flags [OF put nz]
  have r: "(rvp = rv_reference \<or> rvp = rv_reference_internal) \<and>
          intrusive_ptr \<notin> t_flags (nb_type_data w td) \<longrightarrow>
          effective_policy w td rvp ob = rv_reference \<or>
          effective_policy w td rvp ob = rv_reference_internal"
    by (auto simp: effective_policy_def final_policy_def Let_def)
  from f r show ?thesis by auto
qed

lemmas put_defs = nb_type_put_common_def inst_new_impl_def set_external_def set_internal_def
  init_object_def inst_c2p_insert_def put_construct_def put_move_def put_copy_def put_finish_def
  inst_ptr_def aligned_payload_def sizeof_nb_inst_def emit_def Let_def

theorem policy_flags_witness:
  "(\<exists>w'. nb_type_put_common env0 world0 36864 4096 rv_take_ownership None None = Inr (w', 20480, None)
         \<and> destruct (insts w' 20480) \<and> cpp_delete (insts w' 20480))
   \<and> (\<exists>w'. nb_type_put_common env0 world0 36864 4096 rv_reference None None = Inr (w', 20480, None)
         \<and> \<not> destruct (insts w' 20480) \<and> \<not> cpp_delete (insts w' 20480))
   \<and> (\<exists>w'. nb_type_put_common env0 world0 36864 4096 rv_copy None None = Inr (w', 20480, None)
         \<and> destruct (insts w' 20480) \<and> \<not> cpp_delete (insts w' 20480))"
proof -
  obtain w1 where a: "nb_type_put_common env0 world0 36864 4096 rv_take_ownership None None = Inr (w1, 20480, None)"
    by (simp add: put_defs world0_def env0_def Point_def zero_inst_def)
  have a': "destruct (insts w1 20480) \<and> cpp_delete (insts w1 20480)"
    using policy_flags [OF a]
    by (simp add: effective_policy_def final_policy_def world0_def Point_def)
  obtain w2 where b: "nb_type_put_common env0 world0 36864 4096 rv_reference None None = Inr (w2, 20480, None)"
    by (simp add: put_defs world0_def env0_def Point_def zero_inst_def)
  have b': "\<not> destruct (insts w2 20480) \<and> \<not> cpp_delete (insts w2 20480)"
    using policy_flags [OF b]
    by (simp add: effective_policy_def final_policy_def world0_def Point_def)
  obtain w3 where c: "nb_type_put_common env0 world0 36864 4096 rv_copy None None = Inr (w3, 20480, None)"
    by (simp add: put_defs world0_def env0_def Point_def zero_inst_def)
  have c': "destruct (insts w3 20480) \<and> \<not> cpp_delete (insts w3 20480)"
    using policy_flags [OF c]
    by (simp add: effective_policy_def final_policy_def world0_def Point_def)
  from a a' b b' c c' show ?thesis by blast
qed


section \<open>The move policy and its fallback\<close>

lemma put_finish_stored:
  "rvp = rv_move \<or> rvp = rv_copy \<Longrightarrow>
   put_finish e w td rvp False True ob nv cleanup is_new =
     Inr (w\<lparr>insts := (insts w)(ob := (insts w ob)
              \<lparr>ready := True, destruct := True, cpp_delete := False\<rparr>)\<rparr>,
          ob, map_option (\<lambda>_. True) is_new)"
  by (cases is_new) (auto simp: put_finish_def Let_def)

lemma nb_type_put_common_move:
  assumes "intrusive_ptr \<notin> t_flags (nb_type_data w td)"
    and "inst_new_impl e w (t_type_py (nb_type_data w td)) 0 = Inr (w1, ob)" and "ob \<noteq> 0"
  shows "nb_type_put_common e w v td rv_move cleanup is_new =
     (case put_construct w1 td rv_move ob (inst_ptr w1 ob) v of
        Inl err \<Rightarrow> Inl err
      | Inr (Threw w2) \<Rightarrow> Inr (w2, 0, is_new)
      | Inr (Constructed w2 rvp2) \<Rightarrow>
          put_finish e w2 td rvp2 False True ob (inst_ptr w1 ob) cleanup is_new)"
  using assms
  by (simp add: nb_type_put_common_def Let_def cong: sum.case_cong ctor_result.case_cong)

lemma set_external_build:
  assumes "set_external e w gc self v = Some (w2, self')"
  shows "NB_COMPACT_ASSERTIONS w2 = NB_COMPACT_ASSERTIONS w"
  using assms
  by (auto simp: set_external_def Let_def move_object_def split: if_splits)

lemma inst_new_impl_build:
  assumes new: "inst_new_impl e w tp v = Inr (w1, ob)" and nz: "ob \<noteq> 0"
  shows "NB_COMPACT_ASSERTIONS w1 = NB_COMPACT_ASSERTIONS w"
proof -
  note mz = inst_new_impl_malloc [OF new nz]
  let ?s = "env_malloc e"
  let ?wi = "init_object w tp ?s"
  have fi: "NB_COMPACT_ASSERTIONS ?wi = NB_COMPACT_ASSERTIONS w"
    by (simp add: init_object_def)
  show ?thesis
  proof (cases "v = 0")
    case False
    from new inst_new_impl_external [OF mz False, of w tp] obtain w2 m where
      ext: "set_external e ?wi (has_gc w tp) ?s v = Some (w2, ob)"
      and w1: "w1 = w2\<lparr>inst_c2p := m\<rparr>"
      using nz by (auto split: option.splits sum.splits prod.splits)
    from set_external_build [OF ext] fi w1 show ?thesis by simp
  next
    case True
    let ?pl = "aligned_payload ?s (of_nat (t_align (nb_type_data w tp)))"
    let ?w2 = "set_internal ?wi ?s ?pl"
    have anz: "(of_nat (t_align (nb_type_data w tp)) :: ptr) \<noteq> 0"
    proof
      assume "(of_nat (t_align (nb_type_data w tp)) :: ptr) = 0"
      with new True mz show False by (simp add: inst_new_impl_def Let_def)
    qed
    have "(case inst_c2p_insert e (inst_c2p ?w2) ?pl ?s of
             Inl err \<Rightarrow> Inl err
           | Inr m \<Rightarrow> Inr (?w2\<lparr>inst_c2p := m\<rparr>, ?s)) = Inr (w1, ob)"
      using new True by (simp only: inst_new_impl_internal [OF mz anz])
    from sum_case_Inr_elim [OF this] obtain m where
      w1: "w1 = ?w2\<lparr>inst_c2p := m\<rparr>"
      by blast
    have "NB_COMPACT_ASSERTIONS ?w2 = NB_COMPACT_ASSERTIONS ?wi"
      by (simp add: set_internal_def)
    with fi w1 show ?thesis by simp
  qed
qed

text \<open>
  Claim C7 (move fallback chain), amended in the way the call fails. Let the policy be
  move, for a type that is not intrusive, and let the wrapper with co-located storage be
  allocated. If the type is move-constructible, the value is moved into the wrapper: by the
  move constructor when the type has one (and it returns), else by a byte copy followed by
  zeroing the source. If it is not move-constructible but copy-constructible, the policy
  becomes copy and the value is copied: by the copy constructor when the type has one (and
  it returns), else by a byte copy. In these cases the wrapper is returned, ready, owning
  the destructor call and not the memory. If the type is neither, the call fails fatally:
  in a build without \<^verbatim>\<open>NB_COMPACT_ASSERTIONS\<close> with a message about moving an instance
  that is neither copy- nor move-constructible, and the type's name; in a build with
  \<^verbatim>\<open>NB_COMPACT_ASSERTIONS\<close> through \<^verbatim>\<open>fail_unspecified()\<close>, with neither message nor
  name.
\<close>

theorem move_fallback:
  assumes ni: "intrusive_ptr \<notin> t_flags (nb_type_data w td)"
    and new: "inst_new_impl e w (t_type_py (nb_type_data w td)) 0 = Inr (w1, ob)"
    and nz: "ob \<noteq> 0"
  shows "(is_move_constructible \<in> t_flags (nb_type_data w td) \<and>
          has_move \<in> t_flags (nb_type_data w td) \<and>
          t_move (nb_type_data w td) (inst_ptr w1 ob) v \<longrightarrow>
            (\<exists>w'. nb_type_put_common e w v td rv_move cleanup is_new =
                     Inr (w', ob, map_option (\<lambda>_. True) is_new) \<and>
                  trace w' = trace w @ [Call_move td (inst_ptr w1 ob) v] \<and>
                  ready (insts w' ob) \<and> destruct (insts w' ob) \<and> \<not> cpp_delete (insts w' ob)))
       \<and> (is_move_constructible \<in> t_flags (nb_type_data w td) \<and>
          has_move \<notin> t_flags (nb_type_data w td) \<longrightarrow>
            (\<exists>w'. nb_type_put_common e w v td rv_move cleanup is_new =
                     Inr (w', ob, map_option (\<lambda>_. True) is_new) \<and>
                  trace w' = trace w @ [Memcpy (inst_ptr w1 ob) v (t_size (nb_type_data w td)),
                                        Memset_zero v (t_size (nb_type_data w td))] \<and>
                  ready (insts w' ob) \<and> destruct (insts w' ob) \<and> \<not> cpp_delete (insts w' ob)))
       \<and> (is_move_constructible \<notin> t_flags (nb_type_data w td) \<and>
          is_copy_constructible \<in> t_flags (nb_type_data w td) \<and>
          has_copy \<in> t_flags (nb_type_data w td) \<and>
          t_copy (nb_type_data w td) (inst_ptr w1 ob) v \<longrightarrow>
            (\<exists>w'. nb_type_put_common e w v td rv_move cleanup is_new =
                     Inr (w', ob, map_option (\<lambda>_. True) is_new) \<and>
                  trace w' = trace w @ [Call_copy td (inst_ptr w1 ob) v] \<and>
                  ready (insts w' ob) \<and> destruct (insts w' ob) \<and> \<not> cpp_delete (insts w' ob)))
       \<and> (is_move_constructible \<notin> t_flags (nb_type_data w td) \<and>
          is_copy_constructible \<in> t_flags (nb_type_data w td) \<and>
          has_copy \<notin> t_flags (nb_type_data w td) \<longrightarrow>
            (\<exists>w'. nb_type_put_common e w v td rv_move cleanup is_new =
                     Inr (w', ob, map_option (\<lambda>_. True) is_new) \<and>
                  trace w' = trace w @ [Memcpy (inst_ptr w1 ob) v (t_size (nb_type_data w td))] \<and>
                  ready (insts w' ob) \<and> destruct (insts w' ob) \<and> \<not> cpp_delete (insts w' ob)))
       \<and> (is_move_constructible \<notin> t_flags (nb_type_data w td) \<and>
          is_copy_constructible \<notin> t_flags (nb_type_data w td) \<and>
          \<not> NB_COMPACT_ASSERTIONS w \<longrightarrow>
            nb_type_put_common e w v td rv_move cleanup is_new =
              Inl (Fatal ''nb_type_put(): attempted to move an instance that is neither copy- nor move-constructible!''
                     (t_name (nb_type_data w td))))
       \<and> (is_move_constructible \<notin> t_flags (nb_type_data w td) \<and>
          is_copy_constructible \<notin> t_flags (nb_type_data w td) \<and>
          NB_COMPACT_ASSERTIONS w \<longrightarrow>
            nb_type_put_common e w v td rv_move cleanup is_new = Inl Fail_unspecified)"
proof -
  from inst_new_impl_Inr [OF new nz] obtain w0 k m where
    w1: "w1 = w0\<lparr>inst_c2p := m\<rparr>" and td0: "nb_type_data w0 = nb_type_data w"
    and tr0: "trace w0 = trace w"
    by blast
  have td1: "nb_type_data w1 = nb_type_data w" and tr1: "trace w1 = trace w"
    using w1 td0 tr0 by simp_all
  note b1 = inst_new_impl_build [OF new nz]
  note eq = nb_type_put_common_move [OF ni new nz, of v cleanup is_new]
  show ?thesis
    unfolding eq
    by (simp add: put_construct_def put_move_def put_copy_def Let_def td1 tr1 b1
        put_finish_stored check_failed_def)
qed

text \<open>
  Claim C7 as stated fails in a build with \<^verbatim>\<open>NB_COMPACT_ASSERTIONS\<close>: moving an instance
  of a type that is neither move- nor copy-constructible aborts through
  \<^verbatim>\<open>fail_unspecified()\<close>, which reports no descriptive message and does not name the
  type.
\<close>

theorem move_fallback_counterexample:
  "nb_type_put_common env0
     (world0\<lparr>nb_type_data := (\<lambda>_. Point\<lparr>t_flags := {}\<rparr>), NB_COMPACT_ASSERTIONS := True\<rparr>)
     36864 4096 rv_move None (Some False) = Inl Fail_unspecified"
  by (simp add: nb_type_put_common_def inst_new_impl_def set_internal_def init_object_def
      inst_c2p_insert_def put_construct_def put_move_def inst_ptr_def aligned_payload_def
      sizeof_nb_inst_def check_failed_def Let_def world0_def env0_def Point_def zero_inst_def)

lemmas new_defs = inst_new_impl_def set_external_def set_internal_def init_object_def
  inst_c2p_insert_def inst_ptr_def aligned_payload_def sizeof_nb_inst_def Let_def

theorem move_fallback_witness:
  "(\<exists>w'. nb_type_put_common env0 world0 36864 4096 rv_move None (Some False) =
            Inr (w', 20480, Some True) \<and>
         trace w' = [Call_move 4096 20504 36864] \<and>
         ready (insts w' 20480) \<and> destruct (insts w' 20480) \<and> \<not> cpp_delete (insts w' 20480))
   \<and> (\<exists>w'. nb_type_put_common env0
              (world0\<lparr>nb_type_data := (\<lambda>_. Point\<lparr>t_flags := {is_copy_constructible, has_copy}\<rparr>)\<rparr>)
              36864 4096 rv_move None (Some False) =
            Inr (w', 20480, Some True) \<and>
         trace w' = [Call_copy 4096 20504 36864])
   \<and> nb_type_put_common env0 (world0\<lparr>nb_type_data := (\<lambda>_. Point\<lparr>t_flags := {}\<rparr>)\<rparr>)
         36864 4096 rv_move None (Some False) =
        Inl (Fatal ''nb_type_put(): attempted to move an instance that is neither copy- nor move-constructible!''
               ''Point'')
   \<and> nb_type_put_common env0
         (world0\<lparr>nb_type_data := (\<lambda>_. Point\<lparr>t_flags := {}\<rparr>), NB_COMPACT_ASSERTIONS := True\<rparr>)
         36864 4096 rv_move None (Some False) = Inl Fail_unspecified"
proof -
  let ?wc = "world0\<lparr>nb_type_data := (\<lambda>_. Point\<lparr>t_flags := {is_copy_constructible, has_copy}\<rparr>)\<rparr>"
  let ?wn = "world0\<lparr>nb_type_data := (\<lambda>_. Point\<lparr>t_flags := {}\<rparr>)\<rparr>"
  let ?wu = "world0\<lparr>nb_type_data := (\<lambda>_. Point\<lparr>t_flags := {}\<rparr>), NB_COMPACT_ASSERTIONS := True\<rparr>"
  obtain w1 where n1: "inst_new_impl env0 world0 (t_type_py (nb_type_data world0 4096)) 0 = Inr (w1, 20480)"
    and p1: "inst_ptr w1 20480 = 20504"
    by (simp add: new_defs world0_def env0_def Point_def zero_inst_def)
  have a: "\<exists>w'. nb_type_put_common env0 world0 36864 4096 rv_move None (Some False) =
            Inr (w', 20480, Some True) \<and>
         trace w' = [Call_move 4096 20504 36864] \<and>
         ready (insts w' 20480) \<and> destruct (insts w' 20480) \<and> \<not> cpp_delete (insts w' 20480)"
    using move_fallback [OF _ n1, where v=36864 and cleanup=None and is_new="Some False"] p1
    by (simp add: world0_def Point_def)
  obtain w2 where n2: "inst_new_impl env0 ?wc (t_type_py (nb_type_data ?wc 4096)) 0 = Inr (w2, 20480)"
    and p2: "inst_ptr w2 20480 = 20504"
    by (simp add: new_defs world0_def env0_def Point_def zero_inst_def)
  have b: "\<exists>w'. nb_type_put_common env0 ?wc 36864 4096 rv_move None (Some False) =
            Inr (w', 20480, Some True) \<and>
         trace w' = [Call_copy 4096 20504 36864]"
    using move_fallback [OF _ n2, where v=36864 and cleanup=None and is_new="Some False"] p2
    by (auto simp: world0_def Point_def)
  obtain w3 where n3: "inst_new_impl env0 ?wn (t_type_py (nb_type_data ?wn 4096)) 0 = Inr (w3, 20480)"
    by (simp add: new_defs world0_def env0_def Point_def zero_inst_def)
  have c: "nb_type_put_common env0 ?wn 36864 4096 rv_move None (Some False) =
        Inl (Fatal ''nb_type_put(): attempted to move an instance that is neither copy- nor move-constructible!''
               ''Point'')"
    using move_fallback [OF _ n3, where v=36864 and cleanup=None and is_new="Some False"]
    by (simp add: world0_def Point_def)
  obtain w4 where n4: "inst_new_impl env0 ?wu (t_type_py (nb_type_data ?wu 4096)) 0 = Inr (w4, 20480)"
    by (simp add: new_defs world0_def env0_def Point_def zero_inst_def)
  have d: "nb_type_put_common env0 ?wu 36864 4096 rv_move None (Some False) = Inl Fail_unspecified"
    using move_fallback [OF _ n4, where v=36864 and cleanup=None and is_new="Some False"]
    by (simp add: world0_def Point_def)
  from a b c d show ?thesis by blast
qed
section \<open>Implicit conversions: the order of the search\<close>

lemma find_type_first_index: "find_type ts vs k = first_index (\<lambda>v. v = ts) vs k"
  by (induction vs arbitrary: k) auto

lemma find_subtype_first_index: "find_subtype w src vs k = first_index (subtype_entry w src) vs k"
  by (induction vs arbitrary: k) (auto simp: subtype_entry_def split: option.splits)

lemma find_predicate_first_index: "find_predicate tp src ps k = first_index (\<lambda>p. p tp src) ps k"
  by (induction ps arbitrary: k) auto

lemma find_map_upt:
  assumes "\<And>i. i < length vs \<Longrightarrow> Q (C (k + i)) = P (vs ! i)"
  shows "List.find Q (map C [k..<k + length vs]) = map_option C (first_index P vs k)"
  using assms
proof (induction vs arbitrary: k)
  case Nil
  show ?case by simp
next
  case (Cons v vs)
  have up: "[k..<k + length (v # vs)] = k # [Suc k..<Suc k + length vs]"
    by (subst upt_rec) simp
  have q0: "Q (C k) = P v" using Cons.prems [of 0] by simp
  have "\<And>i. i < length vs \<Longrightarrow> Q (C (Suc k + i)) = P (vs ! i)"
    using Cons.prems [of "Suc _"] by simp
  from Cons.IH [OF this] have ih: "List.find Q (map C [Suc k..<Suc k + length vs]) =
      map_option C (first_index P vs (Suc k))" .
  show ?case
  proof (cases "P v")
    case True
    then show ?thesis by (simp only: up list.map find.simps first_index.simps q0) simp
  next
    case False
    then show ?thesis by (simp only: up list.map find.simps first_index.simps q0 ih) simp
  qed
qed

lemma find_append_case:
  "List.find P (xs @ ys) = (case List.find P xs of None \<Rightarrow> List.find P ys | Some x \<Rightarrow> Some x)"
  by (induction xs) auto


lemma first_index_False: "first_index (\<lambda>_. False) vs k = None"
  by (induction vs arbitrary: k) auto

lemma find_predicates:
  "List.find (candidate_matches w src cts dst)
      (case t_implicit_py dst of None \<Rightarrow> [] | Some ps \<Rightarrow> map By_predicate [0..<length ps])
   = implicit_search_py src dst"
proof (cases "t_implicit_py dst")
  case None
  then show ?thesis by (simp add: implicit_search_py_def)
next
  case (Some ps)
  have "List.find (candidate_matches w src cts dst) (map By_predicate [0..<0 + length ps])
          = map_option By_predicate (first_index (\<lambda>p. p (t_type_py dst) src) ps 0)"
    by (rule find_map_upt) (simp add: candidate_matches_def Some)
  then show ?thesis
    by (simp add: Some implicit_search_py_def find_predicate_first_index)
qed

lemma find_native_none:
  assumes "t_implicit dst = None \<or> cts = None"
  shows "List.find (candidate_matches w src cts dst)
           (case t_implicit dst of
              None \<Rightarrow> []
            | Some vs \<Rightarrow> map By_type [0..<length vs] @ map By_subtype [0..<length vs]) = None"
proof (cases "t_implicit dst")
  case None
  then show ?thesis by simp
next
  case (Some vs)
  with assms have cts: "cts = None" by simp
  have a: "List.find (candidate_matches w src cts dst) (map By_type [0..<0 + length vs])
          = map_option By_type (first_index (\<lambda>_. False) vs 0)"
    by (rule find_map_upt) (simp add: candidate_matches_def Some cts)
  have b: "List.find (candidate_matches w src cts dst) (map By_subtype [0..<0 + length vs])
          = map_option By_subtype (first_index (\<lambda>_. False) vs 0)"
    by (rule find_map_upt) (simp add: candidate_matches_def Some cts)
  from a b show ?thesis
    by (simp add: Some find_append_case first_index_False)
qed

lemma find_native_some:
  assumes "t_implicit dst = Some vs" and "cts = Some ts"
  shows "List.find (candidate_matches w src cts dst)
           (map By_type [0..<length vs] @ map By_subtype [0..<length vs]) =
         (case find_type ts vs 0 of
            Some k \<Rightarrow> Some (By_type k)
          | None \<Rightarrow> map_option By_subtype (find_subtype w src vs 0))"
proof -
  have a: "List.find (candidate_matches w src cts dst) (map By_type [0..<0 + length vs])
          = map_option By_type (first_index (\<lambda>v. v = ts) vs 0)"
    by (rule find_map_upt) (simp add: candidate_matches_def assms)
  have b: "List.find (candidate_matches w src cts dst) (map By_subtype [0..<0 + length vs])
          = map_option By_subtype (first_index (subtype_entry w src) vs 0)"
    by (rule find_map_upt) (simp add: candidate_matches_def assms)
  from a b show ?thesis
    by (simp add: find_append_case find_type_first_index find_subtype_first_index
             split: option.splits)
qed

lemma implicit_search_find:
  "implicit_search w src cts dst =
     List.find (candidate_matches w src cts dst) (candidates dst)"
proof (cases "t_implicit dst = None \<or> cts = None")
  case True
  then have "implicit_search w src cts dst = implicit_search_py src dst"
    by (auto simp: implicit_search_def split: option.splits)
  then show ?thesis
    using find_native_none [OF True, of w src] find_predicates [of w src cts dst]
    by (simp add: candidates_def find_append_case)
next
  case False
  then obtain vs ts where vs: "t_implicit dst = Some vs" and ts: "cts = Some ts" by auto
  have "implicit_search w src cts dst =
          (case (case find_type ts vs 0 of
                   Some k \<Rightarrow> Some (By_type k)
                 | None \<Rightarrow> map_option By_subtype (find_subtype w src vs 0)) of
             None \<Rightarrow> implicit_search_py src dst
           | Some c \<Rightarrow> Some c)"
    by (simp add: implicit_search_def vs ts split: option.splits)
  moreover have "candidates dst =
      (map By_type [0..<length vs] @ map By_subtype [0..<length vs]) @
      (case t_implicit_py dst of None \<Rightarrow> [] | Some ps \<Rightarrow> map By_predicate [0..<length ps])"
    by (simp add: candidates_def vs)
  ultimately show ?thesis
    by (simp only: find_append_case [of _ "map By_type [0..<length vs] @ map By_subtype [0..<length vs]"]
          find_native_some [OF vs ts] find_predicates)
qed


lemma find_SomeD: "List.find P xs = Some x \<Longrightarrow> P x \<and> x \<in> set xs"
  by (induction xs) (auto split: if_splits)

lemma native_first:
  assumes "c \<in> set (candidates dst)" and "is_native c" and "candidate_matches w src cts dst c"
  shows "\<exists>c'. List.find (candidate_matches w src cts dst) (candidates dst) = Some c' \<and>
              is_native c' \<and> candidate_matches w src cts dst c'"
proof -
  let ?M = "candidate_matches w src cts dst"
  let ?N = "case t_implicit dst of
              None \<Rightarrow> []
            | Some vs \<Rightarrow> map By_type [0..<length vs] @ map By_subtype [0..<length vs]"
  let ?P = "case t_implicit_py dst of None \<Rightarrow> [] | Some ps \<Rightarrow> map By_predicate [0..<length ps]"
  have nat: "\<forall>x \<in> set ?N. is_native x"
    by (auto simp: is_native_def split: option.splits)
  have "c \<notin> set ?P" using assms(2) by (auto simp: is_native_def split: option.splits)
  moreover have "set (candidates dst) = set ?N \<union> set ?P"
    by (simp only: candidates_def set_append)
  ultimately have cN: "c \<in> set ?N" using assms(1) by blast
  with assms(3) have "List.find ?M ?N \<noteq> None" by (auto simp: find_None_iff)
  then obtain c' where f: "List.find ?M ?N = Some c'" by auto
  from find_SomeD [OF f] nat have "is_native c'" and "?M c'" by auto
  moreover have "List.find ?M (candidates dst) = Some c'"
    using f by (simp add: candidates_def find_append_case)
  ultimately show ?thesis by blast
qed

text \<open>
  Claim C4 (implicit conversion ordering). The search of \<^verbatim>\<open>nb_type_get_implicit\<close> returns
  the first matching candidate of the list: native-type entries equal to the source's
  native identity, then native-type entries whose registered host type the source's host
  type is a subtype of, then the predicates, each group in declaration order. So when a
  native-type candidate matches, the candidate found is a native-type one, whatever the
  predicates say. The call returns false and leaves the state alone when nothing matches;
  when a candidate is found it constructs the destination type from the source and, if
  that succeeds, appends the result to the cleanup list and returns its payload address.
\<close>

theorem implicit_conversion_order:
  "implicit_search w src cts dst = List.find (candidate_matches w src cts dst) (candidates dst)
   \<and> ((\<exists>c \<in> set (candidates dst). is_native c \<and> candidate_matches w src cts dst c) \<longrightarrow>
        (\<exists>c. implicit_search w src cts dst = Some c \<and> is_native c \<and>
             candidate_matches w src cts dst c))
   \<and> (List.find (candidate_matches w src cts dst) (candidates dst) = None \<longrightarrow>
        nb_type_get_implicit call w src cts dst out = (w, False, out))
   \<and> (\<forall>c w1 r. List.find (candidate_matches w src cts dst) (candidates dst) = Some c \<and>
        call w (t_type_py dst) src = (w1, r) \<and> r \<noteq> 0 \<longrightarrow>
        nb_type_get_implicit call w src cts dst out =
          (emit (Cleanup_append r) w1, True, inst_ptr w1 r))"
proof -
  note eq = implicit_search_find [of w src cts dst]
  have c2: "(\<exists>c \<in> set (candidates dst). is_native c \<and> candidate_matches w src cts dst c) \<longrightarrow>
        (\<exists>c. implicit_search w src cts dst = Some c \<and> is_native c \<and>
             candidate_matches w src cts dst c)"
    using native_first [of _ dst w src cts] eq by auto
  have c3: "List.find (candidate_matches w src cts dst) (candidates dst) = None \<longrightarrow>
        nb_type_get_implicit call w src cts dst out = (w, False, out)"
    using eq by (simp add: nb_type_get_implicit_def)
  have c4: "\<forall>c w1 r. List.find (candidate_matches w src cts dst) (candidates dst) = Some c \<and>
        call w (t_type_py dst) src = (w1, r) \<and> r \<noteq> 0 \<longrightarrow>
        nb_type_get_implicit call w src cts dst out =
          (emit (Cleanup_append r) w1, True, inst_ptr w1 r)"
    using eq by (simp add: nb_type_get_implicit_def)
  show ?thesis by (rule conjI eq c2 c3 c4)+
qed

theorem implicit_conversion_order_witness:
  "implicit_search world0 100 (Some 6) Dest = Some (By_type 1)
   \<and> candidate_matches world0 100 (Some 6) Dest (By_predicate 0)
   \<and> implicit_search world0 100 None Dest = Some (By_predicate 0)
   \<and> nb_type_get_implicit (\<lambda>w _ _. (w, 500)) world0 100 (Some 6) Dest 0 =
        (emit (Cleanup_append 500) world0, True, inst_ptr world0 500)"
proof -
  have c: "candidates Dest = [By_type 0, By_type 1, By_subtype 0, By_subtype 1, By_predicate 0]"
    by (simp add: candidates_def Dest_def Point_def upt_rec)
  have f: "List.find (candidate_matches world0 100 (Some 6) Dest) (candidates Dest) = Some (By_type 1)"
    by (simp only: c) (simp add: candidate_matches_def Dest_def Point_def)
  have a: "implicit_search world0 100 (Some 6) Dest = Some (By_type 1)"
    using implicit_conversion_order [of world0 100 "Some 6" Dest] f by simp
  have m: "candidate_matches world0 100 (Some 6) Dest (By_predicate 0)"
    by (simp add: candidate_matches_def Dest_def Point_def)
  have g: "List.find (candidate_matches world0 100 None Dest) (candidates Dest) = Some (By_predicate 0)"
    by (simp only: c) (simp add: candidate_matches_def Dest_def Point_def)
  have b: "implicit_search world0 100 None Dest = Some (By_predicate 0)"
    using implicit_conversion_order [of world0 100 None Dest] g by simp
  have d: "nb_type_get_implicit (\<lambda>w _ _. (w, 500)) world0 100 (Some 6) Dest 0 =
        (emit (Cleanup_append 500) world0, True, inst_ptr world0 500)"
    using implicit_conversion_order [of world0 100 "Some 6" Dest "\<lambda>w _ _. (w, 500)" 0] f by simp
  from a m b d show ?thesis by blast
qed

section \<open>Unique ownership: transfer and reclaim\<close>

lemma relinquish_cases:
  "nb_type_relinquish_ownership w ob True =
     (if \<not> ready (insts w ob)
      then Inl (Fatal ''nb_relinquish_ownership(): ownership status has become corrupted.''
                  (t_name (nb_type_data w (ob_type w ob))))
      else if destruct (insts w ob) \<and> cpp_delete (insts w ob) \<and> \<not> internal (insts w ob)
      then Inr (w\<lparr>insts := (insts w)(ob := (insts w ob)\<lparr>cpp_delete := False, destruct := False,
                                                          ready := False\<rparr>)\<rparr>)
      else Inl Next_overload)"
  by (auto simp: nb_type_relinquish_ownership_def Let_def)

lemma finalize_Inr:
  assumes "nb_type_put_unique_finalize w ob True is_new = Inr w2"
  shows "ready (insts w2 ob) \<and> destruct (insts w2 ob) \<and> cpp_delete (insts w2 ob) \<and>
         internal (insts w2 ob) = internal (insts w ob) \<and>
         ob_type w2 = ob_type w \<and> nb_type_data w2 = nb_type_data w"
  using assms
  by (auto simp: nb_type_put_unique_finalize_def Let_def split: if_splits)

lemma put_unique_Inr:
  assumes "nb_type_put_unique e w T v cleanup True = Inr (w2, ob)" and "ob \<noteq> 0"
  shows "\<exists>w1 isn. nb_type_put e w T v rv_take_ownership cleanup (Some False) = Inr (w1, ob, isn) \<and>
           nb_type_put_unique_finalize w1 ob True (isn = Some True) = Inr w2"
proof -
  obtain r where r: "nb_type_put e w T v rv_take_ownership cleanup (Some False) = r" by blast
  from assms r obtain w1 ob1 isn where r1: "r = Inr (w1, ob1, isn)"
    by (cases r) (auto simp: nb_type_put_unique_def)
  obtain f where f: "nb_type_put_unique_finalize w1 ob1 True (isn = Some True) = f" by blast
  from assms r r1 have nz1: "ob1 \<noteq> 0"
    by (auto simp: nb_type_put_unique_def)
  from assms r r1 f nz1 have "f = Inr w2 \<and> ob1 = ob"
    by (cases f) (auto simp: nb_type_put_unique_def)
  with r r1 f show ?thesis by blast
qed

lemma nb_type_put_fresh:
  assumes "v \<noteq> 0" and "inst_c2p w v = None"
    and "nb_type_put e w T v rv_take_ownership cleanup is_new = Inr (w1, ob, isn)" and "ob \<noteq> 0"
  shows "\<exists>td. type_c2p w T = Some td \<and>
           nb_type_put_common e w v td rv_take_ownership cleanup is_new = Inr (w1, ob, isn)"
  using assms
  by (auto simp: nb_type_put_def put_new_def lookup_type_def split: option.splits)


text \<open>
  Claim C3 (ownership reclaim), amended in the way the call fails. With
  \<^verbatim>\<open>cpp_delete = true\<close>, \<^verbatim>\<open>nb_type_relinquish_ownership\<close> returns exactly when the wrapper
  is ready, has \<^verbatim>\<open>destruct\<close> and \<^verbatim>\<open>cpp_delete\<close> set and is not co-located; it then clears
  \<^verbatim>\<open>destruct\<close> and \<^verbatim>\<open>cpp_delete\<close> and marks the wrapper not ready. On a wrapper that is not
  ready it fails fatally (the check on \<^verbatim>\<open>ready\<close>); on a ready wrapper that does not own
  its payload in this way it throws \<^verbatim>\<open>next_overload\<close>. After a
  \<^verbatim>\<open>nb_type_put_unique\<close> with \<^verbatim>\<open>cpp_delete = true\<close> that returned a wrapper which is not
  co-located (as is every wrapper it creates for an address that was not registered), the
  reclaim returns and leaves the wrapper not ready, and a second reclaim fails, fatally,
  with the flags untouched.
\<close>

theorem relinquish_ownership_reclaim:
  "((\<exists>w'. nb_type_relinquish_ownership w ob True = Inr w') \<longleftrightarrow>
      ready (insts w ob) \<and> destruct (insts w ob) \<and> cpp_delete (insts w ob) \<and>
      \<not> internal (insts w ob))
   \<and> (\<forall>w'. nb_type_relinquish_ownership w ob True = Inr w' \<longrightarrow>
        w' = w\<lparr>insts := (insts w)(ob := (insts w ob)\<lparr>cpp_delete := False, destruct := False,
                                                       ready := False\<rparr>)\<rparr>)
   \<and> (\<not> ready (insts w ob) \<longrightarrow>
        nb_type_relinquish_ownership w ob True =
          Inl (Fatal ''nb_relinquish_ownership(): ownership status has become corrupted.''
                 (t_name (nb_type_data w (ob_type w ob)))))
   \<and> (ready (insts w ob) \<and>
       \<not> (destruct (insts w ob) \<and> cpp_delete (insts w ob) \<and> \<not> internal (insts w ob)) \<longrightarrow>
        nb_type_relinquish_ownership w ob True = Inl Next_overload)
   \<and> (nb_type_put_unique e w0 T v cleanup True = Inr (w2, ob) \<and> ob \<noteq> 0 \<and>
       \<not> internal (insts w2 ob) \<longrightarrow>
        (\<exists>w3. nb_type_relinquish_ownership w2 ob True = Inr w3 \<and>
              \<not> ready (insts w3 ob) \<and> \<not> destruct (insts w3 ob) \<and> \<not> cpp_delete (insts w3 ob) \<and>
              (\<exists>a b. nb_type_relinquish_ownership w3 ob True = Inl (Fatal a b))))
   \<and> (v \<noteq> 0 \<and> inst_c2p w0 v = None \<and>
       nb_type_put_unique e w0 T v cleanup True = Inr (w2, ob) \<and> ob \<noteq> 0 \<longrightarrow>
        \<not> internal (insts w2 ob))"
proof -
  note rc = relinquish_cases [of w ob]
  have c1: "(\<exists>w'. nb_type_relinquish_ownership w ob True = Inr w') \<longleftrightarrow>
      ready (insts w ob) \<and> destruct (insts w ob) \<and> cpp_delete (insts w ob) \<and>
      \<not> internal (insts w ob)"
    unfolding rc by auto
  have c2: "\<forall>w'. nb_type_relinquish_ownership w ob True = Inr w' \<longrightarrow>
        w' = w\<lparr>insts := (insts w)(ob := (insts w ob)\<lparr>cpp_delete := False, destruct := False,
                                                       ready := False\<rparr>)\<rparr>"
    unfolding rc by (auto split: if_splits)
  have c3: "\<not> ready (insts w ob) \<longrightarrow>
        nb_type_relinquish_ownership w ob True =
          Inl (Fatal ''nb_relinquish_ownership(): ownership status has become corrupted.''
                 (t_name (nb_type_data w (ob_type w ob))))"
    unfolding rc by simp
  have c4: "ready (insts w ob) \<and>
       \<not> (destruct (insts w ob) \<and> cpp_delete (insts w ob) \<and> \<not> internal (insts w ob)) \<longrightarrow>
        nb_type_relinquish_ownership w ob True = Inl Next_overload"
    unfolding rc by auto
  have c5: "nb_type_put_unique e w0 T v cleanup True = Inr (w2, ob) \<and> ob \<noteq> 0 \<and>
       \<not> internal (insts w2 ob) \<longrightarrow>
        (\<exists>w3. nb_type_relinquish_ownership w2 ob True = Inr w3 \<and>
              \<not> ready (insts w3 ob) \<and> \<not> destruct (insts w3 ob) \<and> \<not> cpp_delete (insts w3 ob) \<and>
              (\<exists>a b. nb_type_relinquish_ownership w3 ob True = Inl (Fatal a b)))"
  proof
    assume h: "nb_type_put_unique e w0 T v cleanup True = Inr (w2, ob) \<and> ob \<noteq> 0 \<and>
       \<not> internal (insts w2 ob)"
    then have pu: "nb_type_put_unique e w0 T v cleanup True = Inr (w2, ob)" and nz: "ob \<noteq> 0"
      and ni: "\<not> internal (insts w2 ob)" by simp_all
    from put_unique_Inr [OF pu nz] obtain w1 isn where
      fin: "nb_type_put_unique_finalize w1 ob True (isn = Some True) = Inr w2" by blast
    from finalize_Inr [OF fin] have fl: "ready (insts w2 ob)" "destruct (insts w2 ob)"
      "cpp_delete (insts w2 ob)" by simp_all
    let ?w3 = "w2\<lparr>insts := (insts w2)(ob := (insts w2 ob)\<lparr>cpp_delete := False, destruct := False,
                                                          ready := False\<rparr>)\<rparr>"
    have r1: "nb_type_relinquish_ownership w2 ob True = Inr ?w3"
      using fl ni by (simp add: relinquish_cases)
    have r2: "\<exists>a b. nb_type_relinquish_ownership ?w3 ob True = Inl (Fatal a b)"
      by (simp add: relinquish_cases)
    have "\<not> ready (insts ?w3 ob) \<and> \<not> destruct (insts ?w3 ob) \<and> \<not> cpp_delete (insts ?w3 ob)"
      by simp
    with r1 r2 show "\<exists>w3. nb_type_relinquish_ownership w2 ob True = Inr w3 \<and>
              \<not> ready (insts w3 ob) \<and> \<not> destruct (insts w3 ob) \<and> \<not> cpp_delete (insts w3 ob) \<and>
              (\<exists>a b. nb_type_relinquish_ownership w3 ob True = Inl (Fatal a b))"
      by blast
  qed
  have c6: "v \<noteq> 0 \<and> inst_c2p w0 v = None \<and>
       nb_type_put_unique e w0 T v cleanup True = Inr (w2, ob) \<and> ob \<noteq> 0 \<longrightarrow>
        \<not> internal (insts w2 ob)"
  proof
    assume h: "v \<noteq> 0 \<and> inst_c2p w0 v = None \<and>
       nb_type_put_unique e w0 T v cleanup True = Inr (w2, ob) \<and> ob \<noteq> 0"
    then have vz: "v \<noteq> 0" and fresh: "inst_c2p w0 v = None"
      and pu: "nb_type_put_unique e w0 T v cleanup True = Inr (w2, ob)" and nz: "ob \<noteq> 0"
      by simp_all
    from put_unique_Inr [OF pu nz] obtain w1 isn where
      put: "nb_type_put e w0 T v rv_take_ownership cleanup (Some False) = Inr (w1, ob, isn)"
      and fin: "nb_type_put_unique_finalize w1 ob True (isn = Some True) = Inr w2" by blast
    from nb_type_put_fresh [OF vz fresh put nz] obtain td where
      com: "nb_type_put_common e w0 v td rv_take_ownership cleanup (Some False) = Inr (w1, ob, isn)"
      by blast
    from nb_type_put_common_flags [OF com nz] vz have "\<not> internal (insts w1 ob)" by simp
    with finalize_Inr [OF fin] show "\<not> internal (insts w2 ob)" by simp
  qed
  show ?thesis by (rule conjI c1 c2 c3 c4 c5 c6)+
qed

lemmas unique_defs = nb_type_put_unique_def nb_type_put_unique_finalize_def nb_type_put_def
  put_new_def lookup_type_def put_defs

theorem relinquish_ownership_reclaim_witness:
  "(\<exists>w2 w3. nb_type_put_unique env0 world0 1 36864 None True = Inr (w2, 20480) \<and>
       \<not> internal (insts w2 20480) \<and>
       nb_type_relinquish_ownership w2 20480 True = Inr w3 \<and>
       \<not> ready (insts w3 20480) \<and>
       (\<exists>a b. nb_type_relinquish_ownership w3 20480 True = Inl (Fatal a b)))
   \<and> nb_type_relinquish_ownership world1 100 True = Inl Next_overload"
proof -
  obtain w2 where pu: "nb_type_put_unique env0 world0 1 36864 None True = Inr (w2, 20480)"
    by (simp add: unique_defs world0_def env0_def Point_def zero_inst_def)
  have fresh: "inst_c2p world0 36864 = None" by (simp add: world0_def)
  from relinquish_ownership_reclaim [of w2 20480 env0 world0 1 36864 None w2] pu fresh
  have ni: "\<not> internal (insts w2 20480)" by simp
  from relinquish_ownership_reclaim [of w2 20480 env0 world0 1 36864 None w2] pu ni
  obtain w3 where "nb_type_relinquish_ownership w2 20480 True = Inr w3"
    and "\<not> ready (insts w3 20480)"
    and "\<exists>a b. nb_type_relinquish_ownership w3 20480 True = Inl (Fatal a b)"
    by auto
  moreover have "nb_type_relinquish_ownership world1 100 True = Inl Next_overload"
    using relinquish_ownership_reclaim [of world1 100]
    by (simp add: world1_def world0_def)
  ultimately show ?thesis using pu ni by blast
qed

text \<open>
  Claim C3 as stated fails for a wrapper that is not ready: the reclaim does not fail
  recoverably with \<^verbatim>\<open>next_overload\<close>, it fails the check on \<^verbatim>\<open>ready\<close>, which is fatal.
\<close>

theorem relinquish_ownership_counterexample:
  "\<not> ready (insts world0 100)
   \<and> nb_type_relinquish_ownership world0 100 True \<noteq> Inl Next_overload
   \<and> nb_type_relinquish_ownership world0 100 True =
       Inl (Fatal ''nb_relinquish_ownership(): ownership status has become corrupted.'' ''Point'')"
  by (simp add: nb_type_relinquish_ownership_def world0_def zero_inst_def Point_def)


section \<open>Object identity preservation (nb\_type\_put)\<close>


lemma put_search_Node:
  "put_search w T tdc (Node i n) =
     (if t_type (nb_type_data w (ob_type w i)) = Some T then Found i
      else (case lookup_type w T tdc of
              None \<Rightarrow> Give_up
            | Some t \<Rightarrow>
                if PyType_IsSubtype w (ob_type w i) (t_type_py (nb_type_data w t)) then Found i
                else (case n of
                        None \<Rightarrow> Exhausted (Some t)
                      | Some n' \<Rightarrow> put_search w T (Some t) n')))"
  by (simp add: Let_def)

lemma put_search_find:
  assumes "type_c2p w T = Some td" and "tdc = None \<or> tdc = Some td"
  shows "put_search w T tdc s =
           (case List.find (wrapper_matches w T td) (seq_insts s) of
              Some i \<Rightarrow> Found i
            | None \<Rightarrow> Exhausted (Some td))"
  using assms(2)
proof (induction s arbitrary: tdc rule: seq_insts.induct)
  case (1 i)
  have l: "lookup_type w T tdc = Some td" using 1 assms(1) by (auto simp: lookup_type_def)
  show ?case
  proof (cases "wrapper_matches w T td i")
    case True
    then show ?thesis using l by (auto simp: put_search_Node wrapper_matches_def simp del: put_search.simps)
  next
    case False
    then show ?thesis using l by (auto simp: put_search_Node wrapper_matches_def simp del: put_search.simps)
  qed
next
  case (2 i n)
  have l: "lookup_type w T tdc = Some td" using 2(2) assms(1) by (auto simp: lookup_type_def)
  have ih: "put_search w T (Some td) n =
           (case List.find (wrapper_matches w T td) (seq_insts n) of
              Some i \<Rightarrow> Found i
            | None \<Rightarrow> Exhausted (Some td))"
    by (rule 2(1)) simp
  show ?case
  proof (cases "wrapper_matches w T td i")
    case True
    have "put_search w T tdc (Node i (Some n)) = Found i"
      using True l by (auto simp: put_search_Node wrapper_matches_def simp del: put_search.simps)
    then show ?thesis using True by simp
  next
    case False
    have "put_search w T tdc (Node i (Some n)) = put_search w T (Some td) n"
      using False l by (auto simp: put_search_Node wrapper_matches_def simp del: put_search.simps)
    then show ?thesis using False ih by simp
  qed
qed

lemma put_search_cong:
  assumes "ob_type w1 = ob_type w" and "nb_type_data w1 = nb_type_data w"
    and "type_c2p w1 = type_c2p w" and "PyType_IsSubtype w1 = PyType_IsSubtype w"
  shows "put_search w1 T tdc s = put_search w T tdc s"
proof (induction s arbitrary: tdc rule: seq_insts.induct)
  case (1 i)
  have "lookup_type w1 T tdc = lookup_type w T tdc"
    using assms by (cases tdc) (simp_all add: lookup_type_def)
  then show ?case
    using assms
    by (auto simp: put_search_Node simp del: put_search.simps split: option.splits)
next
  case (2 i n)
  have "lookup_type w1 T tdc = lookup_type w T tdc"
    using assms by (cases tdc) (simp_all add: lookup_type_def)
  then show ?case
    using assms 2
    by (auto simp: put_search_Node simp del: put_search.simps split: option.splits)
qed

lemma entry_seq_insts:
  "seq_insts (case en of Direct i \<Rightarrow> Node i None | Seq s \<Rightarrow> s) = entry_insts en"
  by (cases en) simp_all

lemma nb_type_put_found:
  assumes "v \<noteq> 0" and "rvp \<noteq> rv_copy" and "inst_c2p w v = Some en"
    and "put_search w T None (case en of Direct i \<Rightarrow> Node i None | Seq s \<Rightarrow> s) = Found i"
  shows "nb_type_put e w T v rvp cleanup is_new = Inr (incref i w, i, is_new)"
  using assms by (simp add: nb_type_put_def)

lemma nb_type_put_reuse:
  assumes vz: "v \<noteq> 0" and nc: "rvp \<noteq> rv_copy" and en: "inst_c2p w v = Some en"
    and reg: "type_c2p w T = Some td"
    and ex: "\<exists>i \<in> set (entry_insts en). wrapper_matches w T td i"
  shows "\<exists>i. List.find (wrapper_matches w T td) (entry_insts en) = Some i \<and>
            nb_type_put e w T v rvp cleanup is_new = Inr (incref i w, i, is_new)"
proof -
  from ex have "List.find (wrapper_matches w T td) (entry_insts en) \<noteq> None"
    by (auto simp: find_None_iff)
  then obtain i where f: "List.find (wrapper_matches w T td) (entry_insts en) = Some i" by auto
  have "put_search w T None (case en of Direct i \<Rightarrow> Node i None | Seq s \<Rightarrow> s) = Found i"
    using put_search_find [OF reg, of None] f by (simp add: entry_seq_insts)
  from nb_type_put_found [OF vz nc en this] f show ?thesis by blast
qed


lemma set_external_ob_type:
  assumes "set_external e w gc self v = Some (w2, self')"
  shows "\<forall>i. i \<noteq> self' \<longrightarrow> ob_type w2 i = ob_type w i"
  using assms
  by (auto simp: set_external_def Let_def move_object_def split: if_splits)

lemma inst_new_impl_ob_type:
  assumes new: "inst_new_impl e w tp v = Inr (w1, ob)" and nz: "ob \<noteq> 0" and vz: "v \<noteq> 0"
  shows "\<forall>i. i \<noteq> ob \<and> i \<noteq> env_malloc e \<longrightarrow> ob_type w1 i = ob_type w i"
proof -
  note mz = inst_new_impl_malloc [OF new nz]
  let ?s = "env_malloc e"
  let ?wi = "init_object w tp ?s"
  from new inst_new_impl_external [OF mz vz, of w tp] obtain w2 m where
    ext: "set_external e ?wi (has_gc w tp) ?s v = Some (w2, ob)"
    and w1: "w1 = w2\<lparr>inst_c2p := m\<rparr>"
    using nz by (auto split: option.splits sum.splits prod.splits)
  have "\<forall>i. i \<noteq> ?s \<longrightarrow> ob_type ?wi i = ob_type w i" by (simp add: init_object_def)
  with set_external_ob_type [OF ext] w1 show ?thesis by simp
qed

lemma nb_type_put_common_external:
  assumes put: "nb_type_put_common e w v td rvp cleanup is_new = Inr (w1, ob, isn)"
    and nz: "ob \<noteq> 0" and vz: "v \<noteq> 0" and ns: "rvp \<noteq> rv_copy \<and> rvp \<noteq> rv_move"
  shows "inst_c2p_insert e (inst_c2p w) v ob = Inr (inst_c2p w1) \<and>
         nb_type_data w1 = nb_type_data w \<and> type_c2p w1 = type_c2p w \<and>
         PyType_IsSubtype w1 = PyType_IsSubtype w \<and>
         ob_type w1 ob = t_type_py (nb_type_data w td) \<and>
         (\<forall>i. i \<noteq> ob \<and> i \<noteq> env_malloc e \<longrightarrow> ob_type w1 i = ob_type w i)"
proof -
  let ?t = "nb_type_data w td"
  let ?rvp1 = "if intrusive_ptr \<in> t_flags ?t then rv_take_ownership else rvp"
  let ?store = "?rvp1 = rv_copy \<or> ?rvp1 = rv_move"
  have st: "\<not> ?store" using ns by simp
  from nb_type_put_common_Inr [OF put nz] st obtain wa wb rvp2 where
    new: "inst_new_impl e w (t_type_py ?t) v = Inr (wa, ob)"
    and con: "put_construct wa td ?rvp1 ob (inst_ptr wa ob) v = Inr (Constructed wb rvp2)"
    and fin: "put_finish e wb td rvp2 (intrusive_ptr \<in> t_flags ?t) ?store ob (inst_ptr wa ob)
                cleanup is_new = Inr (w1, ob, isn)"
    by auto
  from inst_new_impl_Inr [OF new nz] vz obtain w0 m where
    wa: "wa = w0\<lparr>inst_c2p := m\<rparr>" and ins: "inst_c2p_insert e (inst_c2p w) v ob = Inr m"
    and f0: "nb_type_data w0 = nb_type_data w" "type_c2p w0 = type_c2p w"
      "PyType_IsSubtype w0 = PyType_IsSubtype w" "ob_type w0 ob = t_type_py ?t"
    by auto
  note ot = inst_new_impl_ob_type [OF new nz vz]
  note fc = put_construct_Constructed [OF con]
  note ff = put_finish_Inr [OF fin]
  from wa ins f0 ot fc ff show ?thesis by simp
qed


lemma find_append_last:
  assumes "\<forall>i \<in> set xs. \<not> P i" and "P x"
  shows "List.find P (xs @ [x]) = Some x"
  using assms by (induction xs) auto

lemma put_created_found_again:
  assumes vz: "v \<noteq> 0" and reg: "registered w T td"
    and fresh: "\<forall>en. inst_c2p w v = Some en \<longrightarrow> env_malloc e \<notin> set (entry_insts en)"
    and nomatch: "\<forall>en. inst_c2p w v = Some en \<longrightarrow>
                    (\<forall>i \<in> set (entry_insts en). \<not> wrapper_matches w T td i)"
    and com: "nb_type_put_common e w v td rv_reference cleanup is_new = Inr (w1, ob, isn)"
    and nz: "ob \<noteq> 0"
  shows "\<exists>en'. inst_c2p w1 v = Some en' \<and>
           put_search w1 T None (case en' of Direct i \<Rightarrow> Node i None | Seq s \<Rightarrow> s) = Found ob"
proof -
  let ?old = "case inst_c2p w v of None \<Rightarrow> [] | Some en0 \<Rightarrow> entry_insts en0"
  from nb_type_put_common_external [OF com nz vz] have
    ins: "inst_c2p_insert e (inst_c2p w) v ob = Inr (inst_c2p w1)"
    and td1: "nb_type_data w1 = nb_type_data w" and tc1: "type_c2p w1 = type_c2p w"
    and st1: "PyType_IsSubtype w1 = PyType_IsSubtype w"
    and ot: "ob_type w1 ob = t_type_py (nb_type_data w td)"
    and fr: "\<forall>i. i \<noteq> ob \<and> i \<noteq> env_malloc e \<longrightarrow> ob_type w1 i = ob_type w i"
    by simp_all
  from inst_c2p_insert_Inr [OF ins] obtain en' where
    m1: "inst_c2p w1 = (inst_c2p w)(v \<mapsto> en')" and l1: "entry_insts en' = ?old @ [ob]"
    by blast
  have en1: "inst_c2p w1 v = Some en'" using m1 by simp
  have ob_new: "ob \<notin> set ?old"
  proof (cases "inst_c2p w v")
    case None
    then show ?thesis by simp
  next
    case (Some en0)
    show ?thesis
    proof
      assume "ob \<in> set ?old"
      with Some have "ob \<in> set (entry_insts en0)" by simp
      from insert_duplicate [of "inst_c2p w" v en0 ob e, OF Some this] ins show False by auto
    qed
  qed
  have old_same: "\<forall>i \<in> set ?old. \<not> wrapper_matches w1 T td i"
  proof
    fix i assume i: "i \<in> set ?old"
    then obtain en0 where en0: "inst_c2p w v = Some en0" and i0: "i \<in> set (entry_insts en0)"
      by (cases "inst_c2p w v") auto
    from i ob_new have "i \<noteq> ob" by auto
    moreover from fresh en0 i0 have "i \<noteq> env_malloc e" by auto
    ultimately have "ob_type w1 i = ob_type w i" using fr by simp
    then have "wrapper_matches w1 T td i = wrapper_matches w T td i"
      using td1 st1 by (simp add: wrapper_matches_def)
    with nomatch en0 i0 show "\<not> wrapper_matches w1 T td i" by auto
  qed
  have ob_match: "wrapper_matches w1 T td ob"
    using reg ot td1 by (simp add: wrapper_matches_def registered_def)
  have f: "List.find (wrapper_matches w1 T td) (entry_insts en') = Some ob"
    using find_append_last [OF old_same ob_match] l1 by simp
  have reg1: "type_c2p w1 T = Some td" using reg tc1 by (simp add: registered_def)
  have "put_search w1 T None (case en' of Direct i \<Rightarrow> Node i None | Seq s \<Rightarrow> s) = Found ob"
    using put_search_find [OF reg1, of None] f by (simp add: entry_seq_insts)
  with en1 show ?thesis by blast
qed

lemma nb_type_put_registers:
  assumes vz: "v \<noteq> 0" and reg: "registered w T td"
    and fresh: "\<forall>en. inst_c2p w v = Some en \<longrightarrow> env_malloc e \<notin> set (entry_insts en)"
    and first: "nb_type_put e w T v rv_reference cleanup is_new = Inr (w1, ob, isn)"
    and nz: "ob \<noteq> 0"
  shows "\<exists>en'. inst_c2p w1 v = Some en' \<and>
           put_search w1 T None (case en' of Direct i \<Rightarrow> Node i None | Seq s \<Rightarrow> s) = Found ob"
proof (cases "inst_c2p w v")
  case None
  have tc: "type_c2p w T = Some td" using reg by (simp add: registered_def)
  from first None vz tc have
    com: "nb_type_put_common e w v td rv_reference cleanup is_new = Inr (w1, ob, isn)"
    by (simp add: nb_type_put_def put_new_def lookup_type_def)
  have nomatch: "\<forall>en. inst_c2p w v = Some en \<longrightarrow>
                    (\<forall>i \<in> set (entry_insts en). \<not> wrapper_matches w T td i)"
    using None by simp
  from put_created_found_again [OF vz reg fresh nomatch com nz] show ?thesis .
next
  case (Some en)
  let ?s = "case en of Direct i \<Rightarrow> Node i None | Seq s \<Rightarrow> s"
  have tc: "type_c2p w T = Some td" using reg by (simp add: registered_def)
  note sf = put_search_find [OF tc, of None ?s]
  show ?thesis
  proof (cases "List.find (wrapper_matches w T td) (entry_insts en)")
    case (Some i)
    with sf have found: "put_search w T None ?s = Found i" by (simp add: entry_seq_insts)
    from nb_type_put_found [OF vz _ \<open>inst_c2p w v = Some en\<close> found, of rv_reference e cleanup is_new]
      first have w1: "w1 = incref i w" and ob: "ob = i" by simp_all
    have "put_search w1 T None ?s = put_search w T None ?s"
      by (rule put_search_cong) (simp_all add: w1)
    with found have found1: "put_search w1 T None ?s = Found i" by simp
    have en1: "inst_c2p w1 v = Some en" using \<open>inst_c2p w v = Some en\<close> by (simp add: w1)
    from en1 found1 ob show ?thesis by blast
  next
    case None
    with sf have ex: "put_search w T None ?s = Exhausted (Some td)" by (simp add: entry_seq_insts)
    from first \<open>inst_c2p w v = Some en\<close> vz ex tc have
      com: "nb_type_put_common e w v td rv_reference cleanup is_new = Inr (w1, ob, isn)"
      by (simp add: nb_type_put_def put_new_def lookup_type_def)
    have nomatch: "\<forall>en. inst_c2p w v = Some en \<longrightarrow>
                    (\<forall>i \<in> set (entry_insts en). \<not> wrapper_matches w T td i)"
      using None \<open>inst_c2p w v = Some en\<close> by (auto simp: find_None_iff)
    from put_created_found_again [OF vz reg fresh nomatch com nz] show ?thesis .
  qed
qed

lemma put_repeatedly_found:
  assumes vz: "v \<noteq> 0"
  shows "inst_c2p w v = Some en \<Longrightarrow>
         put_search w T None (case en of Direct i \<Rightarrow> Node i None | Seq s \<Rightarrow> s) = Found ob \<Longrightarrow>
         \<exists>w2. put_repeatedly e w T v n = Inr (w2, replicate n ob) \<and>
              ob_refcnt w2 ob = ob_refcnt w ob + int n \<and>
              inst_c2p w2 = inst_c2p w \<and> insts w2 = insts w \<and> trace w2 = trace w"
proof (induction n arbitrary: w)
  case 0
  then show ?case by simp
next
  case (Suc n)
  let ?s = "case en of Direct i \<Rightarrow> Node i None | Seq s \<Rightarrow> s"
  have put: "nb_type_put e w T v rv_reference None None = Inr (incref ob w, ob, None)"
    by (rule nb_type_put_found [OF vz _ Suc.prems]) simp
  have "put_search (incref ob w) T None ?s = put_search w T None ?s"
    by (rule put_search_cong) simp_all
  with Suc.prems have found1: "put_search (incref ob w) T None ?s = Found ob" by simp
  have en1: "inst_c2p (incref ob w) v = Some en" using Suc.prems by simp
  from Suc.IH [OF en1 found1] obtain w2 where
    r: "put_repeatedly e (incref ob w) T v n = Inr (w2, replicate n ob)"
    and c: "ob_refcnt w2 ob = ob_refcnt (incref ob w) ob + int n"
    and k: "inst_c2p w2 = inst_c2p (incref ob w)" "insts w2 = insts (incref ob w)"
           "trace w2 = trace (incref ob w)"
    by blast
  have "put_repeatedly e w T v (Suc n) = Inr (w2, replicate (Suc n) ob)"
    using put r by simp
  moreover have "ob_refcnt w2 ob = ob_refcnt w ob + int (Suc n)" using c by simp
  ultimately show ?case using k by simp
qed


text \<open>
  Claim C1 (object identity preservation). Let \<open>v\<close> be a non-null native address and \<open>T\<close> a
  registered type. If the policy is not copy and the identity map holds at \<open>v\<close> a wrapper
  whose type is \<open>T\<close>, or whose host type is a subtype of the host type registered for \<open>T\<close>,
  then \<^verbatim>\<open>nb_type_put\<close> returns the first such wrapper of the entry, and the state it leaves
  is the old one with that wrapper's reference count incremented: no wrapper is created.
  In particular, once a put with the policy reference has returned a wrapper for \<open>(T, v)\<close>
  (reused or newly created, the allocator having handed out no address of a wrapper that
  lives at \<open>v\<close>), any number of further such puts, with nothing in between, all return that
  same wrapper, each incrementing its reference count and changing nothing else of the
  wrappers or the identity map.
\<close>

theorem nb_type_put_identity:
  assumes vz: "v \<noteq> 0" and reg: "registered w T td"
  shows "(rvp \<noteq> rv_copy \<and> inst_c2p w v = Some en \<and>
          (\<exists>i \<in> set (entry_insts en). wrapper_matches w T td i) \<longrightarrow>
            (\<exists>i. List.find (wrapper_matches w T td) (entry_insts en) = Some i \<and>
                 nb_type_put e w T v rvp cleanup is_new = Inr (incref i w, i, is_new)))
       \<and> ((\<forall>en0. inst_c2p w v = Some en0 \<longrightarrow> env_malloc e \<notin> set (entry_insts en0)) \<and>
          nb_type_put e w T v rv_reference cleanup is_new = Inr (w1, ob, isn) \<and> ob \<noteq> 0 \<longrightarrow>
            (\<exists>w2. put_repeatedly e' w1 T v n = Inr (w2, replicate n ob) \<and>
                  ob_refcnt w2 ob = ob_refcnt w1 ob + int n \<and>
                  inst_c2p w2 = inst_c2p w1 \<and> insts w2 = insts w1 \<and> trace w2 = trace w1))"
proof (intro conjI impI)
  assume a: "rvp \<noteq> rv_copy \<and> inst_c2p w v = Some en \<and>
          (\<exists>i \<in> set (entry_insts en). wrapper_matches w T td i)"
  have tc: "type_c2p w T = Some td" using reg by (simp add: registered_def)
  from a have nc: "rvp \<noteq> rv_copy" and en: "inst_c2p w v = Some en"
    and ex: "\<exists>i \<in> set (entry_insts en). wrapper_matches w T td i" by simp_all
  from nb_type_put_reuse [OF vz nc en tc ex]
  show "\<exists>i. List.find (wrapper_matches w T td) (entry_insts en) = Some i \<and>
            nb_type_put e w T v rvp cleanup is_new = Inr (incref i w, i, is_new)" .
next
  assume a: "(\<forall>en0. inst_c2p w v = Some en0 \<longrightarrow> env_malloc e \<notin> set (entry_insts en0)) \<and>
          nb_type_put e w T v rv_reference cleanup is_new = Inr (w1, ob, isn) \<and> ob \<noteq> 0"
  then have fresh: "\<forall>en0. inst_c2p w v = Some en0 \<longrightarrow> env_malloc e \<notin> set (entry_insts en0)"
    and first: "nb_type_put e w T v rv_reference cleanup is_new = Inr (w1, ob, isn)"
    and nz: "ob \<noteq> 0" by simp_all
  from nb_type_put_registers [OF vz reg fresh first nz] obtain en' where
    en1: "inst_c2p w1 v = Some en'"
    and found: "put_search w1 T None (case en' of Direct i \<Rightarrow> Node i None | Seq s \<Rightarrow> s) = Found ob"
    by blast
  from put_repeatedly_found [OF vz en1 found]
  show "\<exists>w2. put_repeatedly e' w1 T v n = Inr (w2, replicate n ob) \<and>
             ob_refcnt w2 ob = ob_refcnt w1 ob + int n \<and>
             inst_c2p w2 = inst_c2p w1 \<and> insts w2 = insts w1 \<and> trace w2 = trace w1" .
qed

theorem nb_type_put_identity_witness:
  "nb_type_put env0 world_chain 1 124 rv_reference None None =
     Inr (incref 100 world_chain, 100, None)
   \<and> nb_type_put env0 world_chain 2 124 rv_take_ownership None None =
     Inr (incref 200 world_chain, 200, None)
   \<and> (\<exists>w1 w2. nb_type_put env0 world0 1 36864 rv_reference None None = Inr (w1, 20480, None) \<and>
         put_repeatedly env0 w1 1 36864 3 = Inr (w2, [20480, 20480, 20480]) \<and>
         ob_refcnt w2 20480 = ob_refcnt w1 20480 + 3)"
proof -
  have r1: "registered world_chain 1 4096" and r2: "registered world_chain 2 4352"
    by (simp_all add: registered_def world_chain_def world1_def world0_def Point_def)
  have en: "inst_c2p world_chain 124 = Some (Seq (Node 200 (Some (Node 100 None))))"
    by (simp add: world_chain_def)
  have m1: "\<not> wrapper_matches world_chain 1 4096 200" "wrapper_matches world_chain 1 4096 100"
    and m2: "wrapper_matches world_chain 2 4352 200"
    by (simp_all add: wrapper_matches_def world_chain_def world1_def world0_def Point_def)
  have a: "nb_type_put env0 world_chain 1 124 rv_reference None None =
             Inr (incref 100 world_chain, 100, None)"
    using nb_type_put_identity [OF _ r1, where v=124 and rvp=rv_reference
        and en="Seq (Node 200 (Some (Node 100 None)))" and e=env0 and cleanup=None
        and is_new=None] en m1
    by (simp add: entry_insts_def)
  have b: "nb_type_put env0 world_chain 2 124 rv_take_ownership None None =
             Inr (incref 200 world_chain, 200, None)"
    using nb_type_put_identity [OF _ r2, where v=124 and rvp=rv_take_ownership
        and en="Seq (Node 200 (Some (Node 100 None)))" and e=env0 and cleanup=None
        and is_new=None] en m2
    by (simp add: entry_insts_def)
  have r0: "registered world0 1 4096"
    by (simp add: registered_def world0_def Point_def)
  obtain w1 where p: "nb_type_put env0 world0 1 36864 rv_reference None None = Inr (w1, 20480, None)"
    by (simp add: nb_type_put_def put_new_def lookup_type_def nb_type_put_common_def
        inst_new_impl_def set_external_def init_object_def inst_c2p_insert_def
        put_construct_def put_move_def put_copy_def put_finish_def inst_ptr_def emit_def
        Let_def world0_def env0_def Point_def zero_inst_def)
  have e0: "inst_c2p world0 36864 = None" by (simp add: world0_def)
  have rep: "replicate 3 (20480::ptr) = [20480, 20480, 20480]"
    by (simp add: numeral_3_eq_3)
  have nz: "(36864::ptr) \<noteq> 0" "(20480::ptr) \<noteq> 0" by simp_all
  have fr: "\<forall>en0. inst_c2p world0 36864 = Some en0 \<longrightarrow> env_malloc env0 \<notin> set (entry_insts en0)"
    using e0 by simp
  from nb_type_put_identity [OF nz(1) r0, where e=env0 and cleanup=None
        and is_new=None and ?w1.0=w1 and ob=20480 and isn=None and e'=env0 and n=3] p fr nz(2)
  have "\<exists>w2. put_repeatedly env0 w1 1 36864 3 = Inr (w2, replicate 3 20480) \<and>
             ob_refcnt w2 20480 = ob_refcnt w1 20480 + int 3"
    by blast
  then obtain w2 where "put_repeatedly env0 w1 1 36864 3 = Inr (w2, [20480, 20480, 20480])"
    and "ob_refcnt w2 20480 = ob_refcnt w1 20480 + 3"
    unfolding rep by auto
  with p a b show ?thesis by blast
qed
end
